(* ===== verification/DSS_Prelude.thy ===== *)
theory DSS_Prelude
  imports Main "HOL-Library.Word" "HOL-Library.Monad_Syntax"
begin

text \<open>
  Shared ground of the development: the widths of the C types, little-endian encoding of
  integers, reading and writing a range of bytes inside a memory block, the conversions
  between C integer types, and a combinator for the \<open>while (1)\<close> loops of the program.

  Conventions used by every other theory:
  \<^item> a block of memory (a packet buffer, a file buffer) is a list of bytes;
  \<^item> a C function that may run into undefined behaviour (an access outside a block, a
    dereferenced NULL) or may never return has an \<open>option\<close> result, and \<open>None\<close> stands for
    exactly these two cases; the error codes the C code itself returns are ordinary values;
  \<^item> a pointer that may be NULL is an \<open>option\<close>.
\<close>

section \<open>Fact collections\<close>

named_theorems layout \<open>reading back what was written into a memory block\<close>
named_theorems frame \<open>fields an operation leaves unchanged\<close>

section \<open>Machine types\<close>

type_synonym u8 = "8 word"
type_synonym u16 = "16 word"
type_synonym u32 = "32 word"
type_synonym u64 = "64 word"
type_synonym bytes = "u8 list"

text \<open>Conversion of an unsigned 64-bit value to \<open>int\<close>, to \<open>int16_t\<close>, and of an \<open>int\<close> to the
  unsigned types: all keep the low bits.\<close>

definition int_of_u64 :: "u64 \<Rightarrow> int" where
  "int_of_u64 w = sint (ucast w :: u32)"

definition int16 :: "int \<Rightarrow> int" where
  "int16 i = sint (word_of_int i :: u16)"

definition int32 :: "int \<Rightarrow> int" where
  "int32 i = sint (word_of_int i :: u32)"

definition u64_of_int :: "int \<Rightarrow> u64" where
  "u64_of_int i = word_of_int i"

section \<open>Little-endian integers\<close>

primrec le_bytes :: "nat \<Rightarrow> nat \<Rightarrow> bytes" where
  "le_bytes 0 v = []"
| "le_bytes (Suc n) v = of_nat (v mod 256) # le_bytes n (v div 256)"

primrec le_nat :: "bytes \<Rightarrow> nat" where
  "le_nat [] = 0"
| "le_nat (b # bs) = unat b + 256 * le_nat bs"

section \<open>Memory blocks\<close>

definition peek :: "nat \<Rightarrow> nat \<Rightarrow> bytes \<Rightarrow> bytes" where
  "peek off n m = take n (drop off m)"

definition poke :: "nat \<Rightarrow> bytes \<Rightarrow> bytes \<Rightarrow> bytes" where
  "poke off bs m = take off m @ bs @ drop (off + length bs) m"

text \<open>\<open>memcpy\<close> into a block at an offset and out of a block; outside the block is undefined.\<close>

definition memcpy_to :: "bytes \<Rightarrow> nat \<Rightarrow> bytes \<Rightarrow> bytes option" where
  "memcpy_to m off bs = (if off + length bs \<le> length m then Some (poke off bs m) else None)"

definition memcpy_from :: "bytes \<Rightarrow> nat \<Rightarrow> nat \<Rightarrow> bytes option" where
  "memcpy_from m off n = (if off + n \<le> length m then Some (peek off n m) else None)"

text \<open>A block of exactly \<open>n\<close> bytes holding \<open>bs\<close>, cut or padded with zeros.\<close>

definition fit :: "nat \<Rightarrow> bytes \<Rightarrow> bytes" where
  "fit n bs = take n bs @ replicate (n - length bs) 0"

text \<open>The C string held by a character array: the bytes before the first NUL.\<close>

definition cstr :: "bytes \<Rightarrow> bytes" where
  "cstr = takeWhile (\<lambda>b. b \<noteq> 0)"

text \<open>An array access; outside the array is undefined.\<close>

definition at :: "'a list \<Rightarrow> int \<Rightarrow> 'a option" where
  "at xs i = (if 0 \<le> i \<and> nat i < length xs then Some (xs ! nat i) else None)"

definition put_at :: "'a list \<Rightarrow> int \<Rightarrow> 'a \<Rightarrow> 'a list option" where
  "put_at xs i x = (if 0 \<le> i \<and> nat i < length xs then Some (xs[nat i := x]) else None)"

section \<open>Loops that may not end\<close>

text \<open>\<open>iterate f s\<close> runs the body \<open>f\<close>: \<open>Inl\<close> is the state for the next round, \<open>Inr\<close> leaves the
  loop. \<open>None\<close> is a loop that never leaves.\<close>

partial_function (option) iterate :: "('s \<Rightarrow> 's + 'r) \<Rightarrow> 's \<Rightarrow> 'r option" where
  "iterate f s = (case f s of Inl s' \<Rightarrow> iterate f s' | Inr r \<Rightarrow> Some r)"

section \<open>Lemmas on integers\<close>

lemma int_of_u64_small [simp]:
  assumes "unat w < 2 ^ 31"
  shows "int_of_u64 w = int (unat w)"
proof -
  have u: "uint w < 2 ^ 31"
    using assms by (simp only: unat_eq_nat_uint nat_less_numeral_power_cancel_iff)
  then have "uint (ucast w :: u32) = uint w"
    by (simp add: unsigned_ucast_eq take_bit_int_eq_self)
  then have "sint (ucast w :: u32) = signed_take_bit 31 (uint w)"
    by (simp add: sint_uint)
  also have "\<dots> = uint w"
  proof (rule signed_take_bit_int_eq_self)
    have "(0 :: int) \<le> uint w" by simp
    then show "- (2 ^ 31) \<le> uint w" by (rule order_trans [rotated]) simp
  qed (use u in simp)
  finally show ?thesis
    by (simp add: int_of_u64_def)
qed

lemma int_of_u64_ge: "- (2 ^ 31) \<le> int_of_u64 w"
  unfolding int_of_u64_def using sint_ge [of "ucast w :: u32"] by simp

lemma int_of_u64_lt: "int_of_u64 w < 2 ^ 31"
  unfolding int_of_u64_def using sint_lt [of "ucast w :: u32"] by simp

lemma int32_small [simp]: "- (2 ^ 31) \<le> i \<Longrightarrow> i < 2 ^ 31 \<Longrightarrow> int32 i = i"
  by (simp add: int32_def sint_sbintrunc' signed_take_bit_int_eq_self del: sint_sbintrunc)

lemma int16_small [simp]: "- (2 ^ 15) \<le> i \<Longrightarrow> i < 2 ^ 15 \<Longrightarrow> int16 i = i"
  by (simp add: int16_def sint_sbintrunc' signed_take_bit_int_eq_self del: sint_sbintrunc)

lemma u64_of_int_nat [simp]: "u64_of_int (int n) = of_nat n"
  by (simp add: u64_of_int_def)

lemma unat_of_nat_u64: "k < 2 ^ 64 \<Longrightarrow> unat (of_nat k :: u64) = k"
  by (simp add: unsigned_of_nat take_bit_nat_eq_self)

lemma length_le_bytes [simp]: "length (le_bytes n v) = n"
  by (induction n arbitrary: v) auto

lemma le_nat_le_bytes [simp]: "le_nat (le_bytes n v) = v mod 256 ^ n"
proof (induction n arbitrary: v)
  case (Suc n)
  have "le_nat (le_bytes (Suc n) v) = v mod 256 + 256 * (v div 256 mod 256 ^ n)"
    by (simp add: Suc unat_of_nat)
  also have "\<dots> = v mod (256 * 256 ^ n)"
    by (simp add: mod_mult2_eq)
  finally show ?case by simp
qed simp

lemma le_nat_bound: "le_nat bs < 256 ^ length bs"
proof (induction bs)
  case (Cons b bs)
  have "unat b < 256"
    using unsigned_less [of b, where ?'a = nat] by simp
  with Cons have "unat b + 256 * le_nat bs < 256 + 256 * (256 ^ length bs - 1)"
    by (intro add_less_le_mono mult_le_mono2) auto
  also have "\<dots> = 256 ^ length (b # bs)"
    by (simp add: diff_mult_distrib2)
  finally show ?case by simp
qed simp

lemma unat_mod_width [simp]:
  "unat (w :: u8) mod 256 = unat w" "unat (v :: u16) mod 65536 = unat v"
  "unat (u :: u64) mod 18446744073709551616 = unat u"
  using unsigned_less [of w, where ?'a = nat] unsigned_less [of v, where ?'a = nat]
    unsigned_less [of u, where ?'a = nat] by simp_all

section \<open>Lemmas on memory blocks\<close>

lemma length_peek [simp]: "off + n \<le> length m \<Longrightarrow> length (peek off n m) = n"
  by (simp add: peek_def)

lemma length_poke [simp]: "off + length bs \<le> length m \<Longrightarrow> length (poke off bs m) = length m"
  by (simp add: poke_def)

lemma peek_poke_same [layout]:
  "off + length bs \<le> length m \<Longrightarrow> n = length bs \<Longrightarrow> peek off n (poke off bs m) = bs"
  by (simp add: peek_def poke_def)

lemma peek_poke_before [layout]:
  assumes "off' + n \<le> off" and "off + length bs \<le> length m"
  shows "peek off' n (poke off bs m) = peek off' n m"
proof -
  have "take (off' + n) (poke off bs m) = take (off' + n) m"
    using assms by (simp add: poke_def min_def)
  then show ?thesis
    by (simp add: peek_def take_drop add.commute)
qed

lemma peek_poke_after [layout]:
  assumes "off + length bs \<le> off'" and "off + length bs \<le> length m"
  shows "peek off' n (poke off bs m) = peek off' n m"
proof -
  have "drop off' (poke off bs m) = drop (off' - (off + length bs)) (drop (off + length bs) m)"
    using assms by (simp add: poke_def drop_append)
  then show ?thesis using assms by (simp add: peek_def)
qed

lemma peek_peek [layout]:
  "i + k \<le> n \<Longrightarrow> peek i k (peek off n m) = peek (off + i) k m"
  by (simp add: peek_def drop_take min_def add.commute)

lemma peek_whole [simp]: "n = length m \<Longrightarrow> peek 0 n m = m"
  by (simp add: peek_def)

lemma peek_poke_inside [layout]:
  assumes "off \<le> off'" and "off' + n \<le> off + length bs" and "off + length bs \<le> length m"
  shows "peek off' n (poke off bs m) = peek (off' - off) n bs"
  using assms by (simp add: peek_def poke_def drop_append take_append)

lemma poke_end: "poke (length xs) ys (xs @ zs) = xs @ ys @ drop (length ys) zs"
  by (simp add: poke_def)

lemma length_fit [simp]: "length (fit n bs) = n"
  by (simp add: fit_def)

lemma fit_exact [simp]: "length bs = n \<Longrightarrow> fit n bs = bs"
  by (simp add: fit_def)

lemma take_fit [simp]: "k \<le> n \<Longrightarrow> k \<le> length bs \<Longrightarrow> take k (fit n bs) = take k bs"
  by (simp add: fit_def)

lemma peek_fit [layout]:
  "off + k \<le> n \<Longrightarrow> off + k \<le> length bs \<Longrightarrow> peek off k (fit n bs) = peek off k bs"
  by (auto simp: peek_def fit_def drop_take take_append)

lemma memcpy_to_Some [simp]:
  "memcpy_to m off bs = Some m' \<longleftrightarrow> off + length bs \<le> length m \<and> m' = poke off bs m"
  by (auto simp: memcpy_to_def)

lemma memcpy_from_Some [simp]:
  "memcpy_from m off n = Some bs \<longleftrightarrow> off + n \<le> length m \<and> bs = peek off n m"
  by (auto simp: memcpy_from_def)

lemma at_Some [simp]: "at xs i = Some x \<longleftrightarrow> 0 \<le> i \<and> nat i < length xs \<and> x = xs ! nat i"
  by (auto simp: at_def)

lemma put_at_Some [simp]:
  "put_at xs i x = Some ys \<longleftrightarrow> 0 \<le> i \<and> nat i < length xs \<and> ys = xs[nat i := x]"
  by (auto simp: put_at_def)

lemma at_int [simp]: "at xs (int i) = (if i < length xs then Some (xs ! i) else None)"
  by (simp add: at_def)

lemma put_at_int [simp]:
  "put_at xs (int i) x = (if i < length xs then Some (xs[i := x]) else None)"
  by (simp add: put_at_def)

text \<open>A result pair whose components are described by what computed it.\<close>

lemma ex_pair_eq: "(\<exists>a b. x = (a, b) \<and> P a b) \<longleftrightarrow> P (fst x) (snd x)"
  by (cases x) auto

section \<open>Lemmas on loops\<close>

lemma iterate_Inl: "f s = Inl s' \<Longrightarrow> iterate f s = iterate f s'"
  by (simp add: iterate.simps [of f s])

lemma iterate_Inr: "f s = Inr r \<Longrightarrow> iterate f s = Some r"
  by (simp add: iterate.simps [of f s])

text \<open>Total correctness: an invariant kept by the body and a measure it decreases give a
  result with the postcondition.\<close>

lemma iterate_total:
  assumes "I s"
    and step: "\<And>s s'. I s \<Longrightarrow> f s = Inl s' \<Longrightarrow> I s' \<and> m s' < (m s :: nat)"
    and stop: "\<And>s r. I s \<Longrightarrow> f s = Inr r \<Longrightarrow> Q r"
  shows "\<exists>r. iterate f s = Some r \<and> Q r"
  using assms(1)
proof (induction "m s" arbitrary: s rule: less_induct)
  case less
  show ?case
  proof (cases "f s")
    case (Inl s')
    with step less.prems have "I s'" "m s' < m s" by blast+
    with less.hyps have "\<exists>r. iterate f s' = Some r \<and> Q r" by blast
    with Inl show ?thesis by (simp add: iterate.simps [of f s])
  next
    case (Inr r)
    with stop less.prems show ?thesis by (simp add: iterate.simps [of f s])
  qed
qed

text \<open>Partial correctness, for a loop whose end depends on the environment.\<close>

lemma iterate_partial:
  assumes ret: "iterate f s = Some r" and "I s"
    and step: "\<And>s s'. I s \<Longrightarrow> f s = Inl s' \<Longrightarrow> I s'"
    and stop: "\<And>s r. I s \<Longrightarrow> f s = Inr r \<Longrightarrow> Q r"
  shows "Q r"
proof -
  have "I s \<longrightarrow> Q r"
  proof (rule iterate.raw_induct [where P = "\<lambda>g s r. g = f \<longrightarrow> I s \<longrightarrow> Q r", OF _ ret, THEN mp])
    fix it g s r
    assume IH: "\<And>g s r. it g s = Some r \<Longrightarrow> g = f \<longrightarrow> I s \<longrightarrow> Q r"
      and eq: "(case g s of Inl s' \<Rightarrow> it g s' | Inr r \<Rightarrow> Some r) = Some r"
    show "g = f \<longrightarrow> I s \<longrightarrow> Q r"
    proof (intro impI)
      assume g: "g = f" and I: "I s"
      show "Q r"
      proof (cases "f s")
        case (Inl s')
        with eq g have "it f s' = Some r" by simp
        from IH [OF this] step [OF I Inl] show ?thesis by simp
      next
        case (Inr r')
        with eq g stop [OF I] show ?thesis by simp
      qed
    qed
  qed simp
  with \<open>I s\<close> show ?thesis by blast
qed

end
