(* ===== verification/Net_Types.thy ===== *)
theory Net_Types
  imports DSS_Prelude
begin

text \<open>
  \<open>lib/nettypes.c\<close>: IPv4 addresses with a port, their text form, and the part of the C library
  the parser calls (\<open>atoi\<close>, \<open>sscanf\<close> with \<open>%u.%u.%u.%u\<close>, \<open>strchr\<close>, \<open>strncpy\<close>, \<open>snprintf\<close>). A C
  string is the list of its characters before the NUL; a NULL argument is \<open>None\<close>.
  The theorems: printing an address and parsing it back gives the address, the printed form
  always fits the 22 bytes \<open>address_to_string\<close> asks for, and what a malformed text does.
\<close>

section \<open>Data\<close>

record IPv4 =
  octet0 :: u8
  octet1 :: u8
  octet2 :: u8
  octet3 :: u8

record Address =
  ip :: IPv4
  port :: u16

section \<open>The C library functions the parser uses\<close>

definition isspace :: "char \<Rightarrow> bool" where
  "isspace c = (of_char c \<in> {9, 10, 11, 12, 13, 32 :: nat})"

definition is_digit :: "char \<Rightarrow> bool" where
  "is_digit c = (48 \<le> (of_char c :: nat) \<and> (of_char c :: nat) \<le> 57)"

definition digit_val :: "char \<Rightarrow> nat" where
  "digit_val c = of_char c - 48"

fun read_digits :: "string \<Rightarrow> nat \<Rightarrow> nat \<times> string" where
  "read_digits [] acc = (acc, [])"
| "read_digits (c # cs) acc =
     (if is_digit c then read_digits cs (10 * acc + digit_val c) else (acc, c # cs))"

fun read_sign :: "string \<Rightarrow> bool \<times> string" where
  "read_sign [] = (False, [])"
| "read_sign (c # cs) =
     (if c = CHR ''-'' then (True, cs) else if c = CHR ''+'' then (False, cs) else (False, c # cs))"

text \<open>\<open>atoi\<close> is \<open>(int) strtol(s, NULL, 10)\<close>: the value saturates at the ends of \<open>long\<close> and is
  then cut to 32 bits.\<close>

definition atoi :: "string \<Rightarrow> int" where
  "atoi s =
     (let (neg, t) = read_sign (dropWhile isspace s);
          v = int (fst (read_digits t 0));
          l = (if neg then max (- (2 ^ 63)) (- v) else min (2 ^ 63 - 1) v)
      in int32 l)"

text \<open>One \<open>%u\<close> of \<open>sscanf\<close>: white space, an optional sign and at least one digit; the value is
  that of \<open>strtoul\<close>, stored in an \<open>unsigned int\<close>.\<close>

definition scan_u :: "string \<Rightarrow> (u32 \<times> string) option" where
  "scan_u s =
     (let (neg, t) = read_sign (dropWhile isspace s) in
      case t of
        [] \<Rightarrow> None
      | c # _ \<Rightarrow>
          (if \<not> is_digit c then None
           else let (v, r) = read_digits t 0;
                    w = (if 2 ^ 64 \<le> v then 2 ^ 64 - 1
                         else if neg then (2 ^ 64 - v) mod 2 ^ 64 else v)
                in Some (of_nat w, r)))"

fun scan_char :: "char \<Rightarrow> string \<Rightarrow> string option" where
  "scan_char c [] = None"
| "scan_char c (x # xs) = (if x = c then Some xs else None)"

text \<open>\<open>sscanf(str, "%u.%u.%u.%u", ...) == 4\<close> with the four values, \<open>None\<close> for fewer conversions.\<close>

definition sscanf_quad :: "string \<Rightarrow> (u32 \<times> u32 \<times> u32 \<times> u32) option" where
  "sscanf_quad s = do {
     (a, s) \<leftarrow> scan_u s; s \<leftarrow> scan_char CHR ''.'' s;
     (b, s) \<leftarrow> scan_u s; s \<leftarrow> scan_char CHR ''.'' s;
     (c, s) \<leftarrow> scan_u s; s \<leftarrow> scan_char CHR ''.'' s;
     (d, s) \<leftarrow> scan_u s;
     Some (a, b, c, d) }"

text \<open>\<open>%u\<close> of \<open>snprintf\<close>.\<close>

fun show_nat :: "nat \<Rightarrow> string" where
  "show_nat n =
     (if n < 10 then [char_of (48 + n)] else show_nat (n div 10) @ [char_of (48 + n mod 10)])"

declare show_nat.simps [simp del]

section \<open>The operations\<close>

fun ipv4_from_string :: "IPv4 \<Rightarrow> string option \<Rightarrow> int \<times> IPv4" where
  "ipv4_from_string a None = (0, a)"
| "ipv4_from_string a (Some str) =
     (if str = [] \<or> str = ''localhost''
      then (1, \<lparr>octet0 = 127, octet1 = 0, octet2 = 0, octet3 = 1\<rparr>)
      else case sscanf_quad str of
             Some (x, y, z, w) \<Rightarrow>
               (1, \<lparr>octet0 = ucast x, octet1 = ucast y, octet2 = ucast z, octet3 = ucast w\<rparr>)
           | None \<Rightarrow> (1, a))"

definition print_ipv4 :: "IPv4 \<Rightarrow> string" where
  "print_ipv4 a =
     show_nat (unat (octet0 a)) @ ''.'' @ show_nat (unat (octet1 a)) @ ''.'' @
     show_nat (unat (octet2 a)) @ ''.'' @ show_nat (unat (octet3 a))"

definition ipv4_to_string :: "IPv4 option \<Rightarrow> string option \<Rightarrow> nat \<Rightarrow> string option" where
  "ipv4_to_string a out n =
     (case (a, out) of
        (Some a, Some buf) \<Rightarrow> if n < 16 then Some buf else Some (take (n - 1) (print_ipv4 a))
      | _ \<Rightarrow> out)"

fun address_from_string :: "Address option \<Rightarrow> string option \<Rightarrow> int \<times> Address option" where
  "address_from_string (Some addr) (Some str) =
     (let buf = take 31 str;
          host = takeWhile (\<lambda>c. c \<noteq> CHR '':'') buf;
          rest = dropWhile (\<lambda>c. c \<noteq> CHR '':'') buf;
          p = (if rest = [] then 0 else word_of_int (atoi (tl rest)));
          (r, i) = ipv4_from_string (ip addr) (Some host)
      in (r, Some (addr\<lparr>port := p, ip := i\<rparr>)))"
| "address_from_string addr str = (0, addr)"

definition address_to_string :: "Address option \<Rightarrow> string option \<Rightarrow> nat \<Rightarrow> string option" where
  "address_to_string a out n =
     (case (a, out) of
        (Some a, Some buf) \<Rightarrow>
          if n < 22 then Some buf
          else Some (take (n - 1) (print_ipv4 (ip a) @ '':'' @ show_nat (unat (port a))))
      | _ \<Rightarrow> out)"

section \<open>Lemmas: decimal digits\<close>

lemma digit_char:
  assumes "d < 10"
  shows "is_digit (char_of (48 + d))" and "digit_val (char_of (48 + d)) = d"
  using assms by (simp_all add: is_digit_def digit_val_def)

lemma show_nat_digits: "c \<in> set (show_nat n) \<Longrightarrow> is_digit c"
proof (induction n rule: show_nat.induct)
  case (1 n)
  then show ?case
    by (subst (asm) show_nat.simps) (auto simp: digit_char split: if_splits)
qed

lemma show_nat_nonempty [simp]: "show_nat n \<noteq> []"
  by (subst show_nat.simps) simp

lemma show_nat_value: "foldl (\<lambda>a c. 10 * a + digit_val c) 0 (show_nat n) = n"
proof (induction n rule: show_nat.induct)
  case (1 n)
  show ?case
  proof (cases "n < 10")
    case True
    then show ?thesis by (simp add: show_nat.simps [of n] digit_char)
  next
    case False
    with 1 show ?thesis by (simp add: show_nat.simps [of n] digit_char)
  qed
qed

lemma length_show_nat: "n < 10 ^ k \<Longrightarrow> 0 < k \<Longrightarrow> length (show_nat n) \<le> k"
proof (induction n arbitrary: k rule: show_nat.induct)
  case (1 n)
  show ?case
  proof (cases "n < 10")
    case True
    with 1 show ?thesis by (simp add: show_nat.simps [of n])
  next
    case False
    with 1(2,3) obtain k' where k: "k = Suc k'" "k' \<noteq> 0"
      by (cases k; cases "k - 1") auto
    with 1(2) have "n div 10 < 10 ^ k'" by (simp add: less_mult_imp_div_less)
    with 1(1) False k have "length (show_nat (n div 10)) \<le> k'" by blast
    with False k show ?thesis by (simp add: show_nat.simps [of n])
  qed
qed

lemma read_digits_append:
  "(\<And>c. c \<in> set ds \<Longrightarrow> is_digit c) \<Longrightarrow>
   read_digits (ds @ rest) acc = read_digits rest (foldl (\<lambda>a c. 10 * a + digit_val c) acc ds)"
  by (induction ds arbitrary: acc) auto

lemma read_digits_stop: "(\<And>c cs. rest = c # cs \<Longrightarrow> \<not> is_digit c) \<Longrightarrow> read_digits rest acc = (acc, rest)"
  by (cases rest) auto

lemma read_digits_show_nat:
  "(\<And>c cs. rest = c # cs \<Longrightarrow> \<not> is_digit c) \<Longrightarrow> read_digits (show_nat n @ rest) 0 = (n, rest)"
  by (subst read_digits_append) (auto simp: show_nat_digits show_nat_value intro: read_digits_stop)

lemma digit_facts:
  assumes "is_digit c"
  shows "\<not> isspace c" and "c \<noteq> CHR ''-''" and "c \<noteq> CHR ''+''" and "c \<noteq> CHR '':''" and "c \<noteq> CHR ''l''"
  using assms by (auto simp: is_digit_def isspace_def)

lemma show_nat_front:
  obtains c cs where "show_nat n = c # cs" and "is_digit c"
  using show_nat_digits [of _ n] by (cases "show_nat n") auto

lemma front_show_nat [simp]:
  "read_sign (dropWhile isspace (show_nat n @ rest)) = (False, show_nat n @ rest)"
  by (rule show_nat_front [of n]) (auto simp: digit_facts)

lemma scan_u_show_nat:
  assumes "n < 2 ^ 32" and "\<And>c cs. rest = c # cs \<Longrightarrow> \<not> is_digit c"
  shows "scan_u (show_nat n @ rest) = Some (of_nat n, rest)"
proof -
  obtain c cs where "show_nat n = c # cs" and "is_digit c" by (rule show_nat_front)
  with read_digits_show_nat [of rest n] assms show ?thesis
    by (simp add: scan_u_def front_show_nat digit_facts del: read_digits.simps)
qed

lemma atoi_show_nat:
  assumes "n < 2 ^ 31"
  shows "atoi (show_nat n) = int n"
proof -
  have "read_digits (show_nat n) 0 = (n, [])"
    using read_digits_show_nat [of "[]" n] by simp
  moreover have "read_sign (dropWhile isspace (show_nat n)) = (False, show_nat n)"
    using front_show_nat [of n "[]"] by simp
  ultimately show ?thesis
    using assms by (simp add: atoi_def min_def)
qed

section \<open>Lemmas: the text form of an address\<close>

lemma not_digit [simp]: "\<not> is_digit CHR ''.''" "\<not> is_digit CHR '':''"
  by (simp_all add: is_digit_def)

lemma unat_u8_lt: "unat (w :: u8) < 256"
  using unsigned_less [of w, where ?'a = nat] by simp

lemma unat_u16_lt: "unat (w :: u16) < 65536"
  using unsigned_less [of w, where ?'a = nat] by simp

lemma scan_octet:
  "(\<And>c cs. rest = c # cs \<Longrightarrow> \<not> is_digit c) \<Longrightarrow>
   scan_u (show_nat (unat (w :: u8)) @ rest) = Some (ucast w, rest)"
  using unat_u8_lt [of w] by (subst scan_u_show_nat) (auto simp: unsigned_ucast_eq)

lemma scan_octet_dot [simp]:
  "scan_u (show_nat (unat (w :: u8)) @ CHR ''.'' # rest) = Some (ucast w, CHR ''.'' # rest)"
  by (rule scan_octet) auto

lemma scan_octet_end [simp]: "scan_u (show_nat (unat (w :: u8))) = Some (ucast w, [])"
  using scan_octet [of "[]" w] by simp

lemma octet_back [simp]: "(ucast (ucast (w :: u8) :: u32) :: u8) = w"
  by (rule bit_word_eqI) (simp add: bit_simps)

lemma sscanf_quad_print:
  "sscanf_quad (print_ipv4 a) =
     Some (ucast (octet0 a), ucast (octet1 a), ucast (octet2 a), ucast (octet3 a))"
  by (simp add: sscanf_quad_def print_ipv4_def)

lemma print_ipv4_front:
  obtains c cs where "print_ipv4 a = c # cs" and "is_digit c"
  by (rule show_nat_front [of "unat (octet0 a)"]) (auto simp: print_ipv4_def)

lemma ipv4_from_print: "ipv4_from_string a0 (Some (print_ipv4 a)) = (1, a)"
proof -
  obtain c cs where "print_ipv4 a = c # cs" and "is_digit c" by (rule print_ipv4_front)
  then have "print_ipv4 a \<noteq> []" and "print_ipv4 a \<noteq> ''localhost''"
    by (auto simp: digit_facts)
  then show ?thesis
    by (cases a) (simp add: sscanf_quad_print)
qed

lemma length_show_octet: "length (show_nat (unat (w :: u8))) \<le> 3"
  using unat_u8_lt [of w] by (intro length_show_nat) auto

lemma length_print_ipv4: "length (print_ipv4 a) \<le> 15"
  using length_show_octet [of "octet0 a"] length_show_octet [of "octet1 a"]
    length_show_octet [of "octet2 a"] length_show_octet [of "octet3 a"]
  by (simp add: print_ipv4_def)

lemma length_show_port: "length (show_nat (unat (w :: u16))) \<le> 5"
  using unat_u16_lt [of w] by (intro length_show_nat) auto

lemma print_ipv4_no_colon: "c \<in> set (print_ipv4 a) \<Longrightarrow> c \<noteq> CHR '':''"
  by (auto simp: print_ipv4_def dest: show_nat_digits)

lemma split_print [simp]:
  "takeWhile (\<lambda>c. c \<noteq> CHR '':'') (print_ipv4 a @ CHR '':'' # s) = print_ipv4 a"
  "dropWhile (\<lambda>c. c \<noteq> CHR '':'') (print_ipv4 a @ CHR '':'' # s) = CHR '':'' # s"
  using print_ipv4_no_colon [of _ a]
  by (auto simp: takeWhile_tail dropWhile_append1 dropWhile_append3 takeWhile_append2)

lemma port_word: "(word_of_int (int (unat p)) :: u16) = p"
  by simp

lemma ipv4_from_string_one: "\<exists>b. ipv4_from_string a (Some s) = (1, b)"
  by (auto split: option.split)

lemma address_from_string_one: "\<exists>b. address_from_string (Some a) (Some s) = (1, Some b)"
proof -
  obtain b where "ipv4_from_string (ip a) (Some (takeWhile (\<lambda>c. c \<noteq> CHR '':'') (take 31 s))) = (1, b)"
    using ipv4_from_string_one by blast
  then show ?thesis by (simp add: Let_def del: ipv4_from_string.simps)
qed

section \<open>Properties\<close>

text \<open>C36: Printing an address with \<open>address_to_string\<close> into a buffer of at least 22 bytes and
  parsing the text with \<open>address_from_string\<close> succeeds and gives the same address back,
  whatever the target held before.\<close>

theorem address_roundtrip:
  assumes "22 \<le> n"
  shows "address_from_string (Some a0) (address_to_string (Some a) (Some out) n) = (1, Some a)"
proof -
  have len: "length (print_ipv4 (ip a) @ '':'' @ show_nat (unat (port a))) \<le> 21"
    using length_print_ipv4 [of "ip a"] length_show_port [of "port a"] by simp
  have "atoi (show_nat (unat (port a))) = int (unat (port a))"
    using unat_u16_lt [of "port a"] by (intro atoi_show_nat) simp
  with len assms show ?thesis
    by (cases a; cases a0)
      (simp add: address_to_string_def ipv4_from_print Let_def del: ipv4_from_string.simps(2))
qed

theorem address_roundtrip_witness:
  "address_from_string (Some \<lparr>ip = \<lparr>octet0 = 9, octet1 = 9, octet2 = 9, octet3 = 9\<rparr>, port = 9\<rparr>)
     (address_to_string
        (Some \<lparr>ip = \<lparr>octet0 = 127, octet1 = 0, octet2 = 0, octet3 = 1\<rparr>, port = 52000\<rparr>)
        (Some []) 40)
   = (1, Some \<lparr>ip = \<lparr>octet0 = 127, octet1 = 0, octet2 = 0, octet3 = 1\<rparr>, port = 52000\<rparr>)"
  by (rule address_roundtrip) simp



end
