(* ===== verification/Cmd_Args.thy ===== *)
theory Cmd_Args
  imports Net_Types
begin

text \<open>
  \<open>lib/args.c\<close>: the command line of a node. The loop over \<open>argv\<close> is a recursion on the words
  that are left; a flag takes the word after it, and a flag with no word after it, or any other
  word, ends the parse with 0. The structure is filled in as the loop goes, so a failed parse
  leaves the fields set so far. The theorems: what an accepted command line guarantees to
  \<open>server_init\<close>, and that the command line \<open>boot.sh\<close> builds is read back as it was meant.
\<close>

section \<open>Data\<close>

record Args =
  arg_id :: int
  arg_ip :: string
  arg_peer_id :: int
  arg_peer_ip :: string
  arg_netsize :: int

abbreviation (input) "FLAG_ID \<equiv> ''-id''"
abbreviation (input) "FLAG_IP \<equiv> ''-ip''"
abbreviation (input) "FLAG_PEER_ID \<equiv> ''-peer-id''"
abbreviation (input) "FLAG_PEER_IP \<equiv> ''-peer-ip''"
abbreviation (input) "FLAG_NETSIZE \<equiv> ''-network-size''"

section \<open>The operation\<close>

text \<open>\<open>Inl\<close>: an unknown or incomplete argument, with the fields set before it.\<close>

fun parse_args_loop :: "string list \<Rightarrow> Args \<Rightarrow> Args + Args" where
  "parse_args_loop [] args = Inr args"
| "parse_args_loop [flag] args = Inl args"
| "parse_args_loop (flag # val # rest) args =
     (if flag = FLAG_ID then parse_args_loop rest (args\<lparr>arg_id := atoi val\<rparr>)
      else if flag = FLAG_IP then parse_args_loop rest (args\<lparr>arg_ip := take 63 val\<rparr>)
      else if flag = FLAG_PEER_ID then parse_args_loop rest (args\<lparr>arg_peer_id := atoi val\<rparr>)
      else if flag = FLAG_PEER_IP then parse_args_loop rest (args\<lparr>arg_peer_ip := take 63 val\<rparr>)
      else if flag = FLAG_NETSIZE then parse_args_loop rest (args\<lparr>arg_netsize := atoi val\<rparr>)
      else Inl args)"

definition parse_args :: "string list \<Rightarrow> int \<times> Args" where
  "parse_args argv =
     (case parse_args_loop (drop 1 argv)
             \<lparr>arg_id = 0, arg_ip = [], arg_peer_id = 0, arg_peer_ip = [], arg_netsize = 0\<rparr> of
        Inl args \<Rightarrow> (0, args)
      | Inr args \<Rightarrow>
          if arg_id args \<le> 0 \<or> arg_peer_id args \<le> 0 then (0, args)
          else if arg_netsize args \<le> 0 \<or> arg_ip args = [] \<or> arg_peer_ip args = [] then (0, args)
          else (1, args))"

section \<open>Lemmas\<close>

lemma int32_bounds: "- (2 ^ 31) \<le> int32 i" "int32 i < 2 ^ 31"
  using sint_ge [of "word_of_int i :: u32"] sint_lt [of "word_of_int i :: u32"]
  by (simp_all add: int32_def)

lemma atoi_bounds: "atoi s < 2 ^ 31"
  by (simp add: atoi_def Let_def int32_bounds(2) [simplified] split: prod.split)

definition args_in_range :: "Args \<Rightarrow> bool" where
  "args_in_range a \<longleftrightarrow>
     arg_id a < 2 ^ 31 \<and> arg_peer_id a < 2 ^ 31 \<and> arg_netsize a < 2 ^ 31 \<and>
     length (arg_ip a) \<le> 63 \<and> length (arg_peer_ip a) \<le> 63"

lemma parse_args_loop_range:
  "args_in_range a \<Longrightarrow> parse_args_loop ws a = Inr b \<Longrightarrow> args_in_range b"
proof (induction ws a rule: parse_args_loop.induct)
  case (3 flag val rest args)
  then show ?case
    using atoi_bounds [of val] by (auto simp: args_in_range_def split: if_splits)
qed auto

lemma parse_args_accepted:
  assumes "parse_args argv = (1, a)"
  shows "0 < arg_id a \<and> 0 < arg_peer_id a \<and> 0 < arg_netsize a \<and>
         arg_ip a \<noteq> [] \<and> arg_peer_ip a \<noteq> [] \<and> args_in_range a"
proof -
  let ?a0 = "\<lparr>arg_id = 0, arg_ip = [], arg_peer_id = 0, arg_peer_ip = [], arg_netsize = 0\<rparr>"
  have "args_in_range ?a0" by (simp add: args_in_range_def)
  then have "parse_args_loop (drop 1 argv) ?a0 = Inr b \<Longrightarrow> args_in_range b" for b
    by (rule parse_args_loop_range)
  with assms show ?thesis
    by (auto simp: parse_args_def split: sum.splits if_splits)
qed

section \<open>Properties\<close>



text \<open>The command line \<open>boot.sh\<close> starts a node with (decimal numbers for the ids and the
  network size, two address texts) is accepted and read back field by field.\<close>

theorem parse_args_boot:
  assumes "0 < i" "i < 2 ^ 31" "0 < p" "p < 2 ^ 31" "0 < n" "n < 2 ^ 31"
    and "txt \<noteq> []" "length txt \<le> 63" "ptxt \<noteq> []" "length ptxt \<le> 63"
  shows "parse_args [prog, FLAG_ID, show_nat i, FLAG_IP, txt, FLAG_PEER_ID, show_nat p,
                     FLAG_PEER_IP, ptxt, FLAG_NETSIZE, show_nat n] =
         (1, \<lparr>arg_id = int i, arg_ip = txt, arg_peer_id = int p, arg_peer_ip = ptxt,
              arg_netsize = int n\<rparr>)"
  using assms by (simp add: parse_args_def atoi_show_nat)

theorem parse_args_boot_witness:
  "parse_args [''./main'', FLAG_ID, show_nat 4, FLAG_IP, ''localhost:52003'', FLAG_PEER_ID, show_nat 1,
               FLAG_PEER_IP, ''localhost:52000'', FLAG_NETSIZE, show_nat 4] =
   (1, \<lparr>arg_id = 4, arg_ip = ''localhost:52003'', arg_peer_id = 1,
        arg_peer_ip = ''localhost:52000'', arg_netsize = 4\<rparr>)"
  using parse_args_boot [of 4 1 4 "''localhost:52003''" "''localhost:52000''" "''./main''"] by simp

end
