(* ===== verification/Tcp_Lib.thy ===== *)
theory Tcp_Lib
  imports Net_Types
begin

text \<open>
  \<open>lib/tcplib.c\<close> and \<open>lib/server/clock.c\<close>. The operating system below them is not part of the
  program: it is the parameter \<open>os\<close>, a record with one function per system call (and one for
  \<open>malloc\<close>), each free to answer as a function of the whole history of calls made so far. The
  history \<open>hist\<close> (newest call first) is threaded through every function that makes a call, so
  a theorem can speak of what was sent, received, opened and closed, and in which order.
  Two facts of the manual pages are part of the interface: \<open>recv\<close> never stores more than the
  length it was given, and \<open>send\<close> never reports more than it was given. A call that blocks
  for ever has no answer and is outside the model: every theorem is about runs in which the
  calls made so far returned.

  The theorems: the byte stream a completed \<open>tcp_send\<close> hands to the kernel, that \<open>tcp_send\<close>
  returns with everything sent unless the kernel fails or stalls for ever, and that the two
  functions that create sockets do not leak one on their error paths.
\<close>

unbundle bit_operations_syntax

section \<open>The operating system\<close>

datatype event =
    EvSocket int
  | EvSetsockopt int
  | EvGetfl int int
  | EvSetfl int int int
  | EvBind int u16 int
  | EvListen int int int
  | EvPoll int int
  | EvAccept int int
  | EvRecv int nat int "bytes option"
  | EvSend int bytes int int
  | EvClose int
  | EvConnect int Address int
  | EvSelect int bool
  | EvClock int int
  | EvMalloc nat bool
  | EvFree
  | EvSleep nat

type_synonym hist = "event list"

record os =
  os_socket :: "hist \<Rightarrow> int"
  os_getfl :: "hist \<Rightarrow> int \<Rightarrow> int"
  os_setfl :: "hist \<Rightarrow> int \<Rightarrow> int \<Rightarrow> int"
  os_bind :: "hist \<Rightarrow> int \<Rightarrow> u16 \<Rightarrow> int"
  os_listen :: "hist \<Rightarrow> int \<Rightarrow> int \<Rightarrow> int"
  os_poll :: "hist \<Rightarrow> int \<Rightarrow> int"
  os_accept :: "hist \<Rightarrow> int \<Rightarrow> int \<times> bool"
  os_recv :: "hist \<Rightarrow> int \<Rightarrow> nat \<Rightarrow> int \<Rightarrow> bytes option"
  os_send :: "hist \<Rightarrow> int \<Rightarrow> bytes \<Rightarrow> int \<Rightarrow> int \<times> bool"
  os_connect :: "hist \<Rightarrow> int \<Rightarrow> Address \<Rightarrow> int"
  os_select :: "hist \<Rightarrow> int \<Rightarrow> bool"
  os_clock :: "hist \<Rightarrow> int \<times> int"
  os_malloc :: "hist \<Rightarrow> nat \<Rightarrow> bytes option"

text \<open>\<open>recv\<close> answers \<open>None\<close> for \<open>-1\<close>, \<open>Some []\<close> for end of file; \<open>send\<close> and \<open>accept\<close> answer their
  result and whether \<open>errno\<close> then says \<open>EAGAIN\<close>; \<open>malloc\<close> answers \<open>None\<close> for NULL or whatever
  the fresh block happens to hold.\<close>

definition sys_recv :: "os \<Rightarrow> int \<Rightarrow> nat \<Rightarrow> int \<Rightarrow> hist \<Rightarrow> bytes option \<times> hist" where
  "sys_recv os fd n fl h =
     (let d = map_option (take n) (os_recv os h fd n fl) in (d, EvRecv fd n fl d # h))"

definition sys_send :: "os \<Rightarrow> int \<Rightarrow> bytes \<Rightarrow> int \<Rightarrow> hist \<Rightarrow> (int \<times> bool) \<times> hist" where
  "sys_send os fd bs fl h =
     (let (n, again) = os_send os h fd bs fl; n = min n (int (length bs))
      in ((n, again), EvSend fd bs fl n # h))"

definition sys_malloc :: "os \<Rightarrow> nat \<Rightarrow> hist \<Rightarrow> bytes option \<times> hist" where
  "sys_malloc os n h =
     (let m = map_option (fit n) (os_malloc os h n) in (m, EvMalloc n (m \<noteq> None) # h))"

definition usleep :: "nat \<Rightarrow> hist \<Rightarrow> hist" where
  "usleep us h = EvSleep us # h"

abbreviation (input) "MSG_PEEK \<equiv> (2 :: int)"
abbreviation (input) "MSG_DONTWAIT \<equiv> (64 :: int)"
abbreviation (input) "MSG_NOSIGNAL \<equiv> (16384 :: int)"
abbreviation (input) "O_NONBLOCK \<equiv> (2048 :: int)"
abbreviation (input) "NO_CONNECTION_WAITING \<equiv> (- 2 :: int)"

section \<open>\<open>clock.c\<close>\<close>

definition current_millis :: "os \<Rightarrow> hist \<Rightarrow> u64 \<times> hist" where
  "current_millis os h =
     (let (sec, nsec) = os_clock os h
      in (word_of_int sec * 1000 + word_of_int (nsec div 1000000), EvClock sec nsec # h))"

section \<open>\<open>tcplib.c\<close>\<close>

definition tcp_close :: "int \<Rightarrow> hist \<Rightarrow> hist" where
  "tcp_close fd h = EvClose fd # h"

definition tcp_listen :: "os \<Rightarrow> int \<Rightarrow> hist \<Rightarrow> int \<times> hist" where
  "tcp_listen os prt h =
     (let sockfd = os_socket os h; h = EvSocket sockfd # h in
      if sockfd < 0 then (- 1, h) else
      let h = EvSetsockopt sockfd # h;
          flags = os_getfl os h sockfd; h = EvGetfl sockfd flags # h;
          r = os_setfl os h sockfd (flags OR O_NONBLOCK); h = EvSetfl sockfd (flags OR O_NONBLOCK) r # h;
          b = os_bind os h sockfd (word_of_int prt); h = EvBind sockfd (word_of_int prt) b # h in
      if b < 0 then (- 1, tcp_close sockfd h) else
      let l = os_listen os h sockfd 8; h = EvListen sockfd 8 l # h in
      if l < 0 then (- 1, tcp_close sockfd h) else (sockfd, h))"

definition tcp_try_accept :: "os \<Rightarrow> int \<Rightarrow> hist \<Rightarrow> int \<times> hist" where
  "tcp_try_accept os server_fd h =
     (let r = os_poll os h server_fd; h = EvPoll server_fd r # h in
      if r < 0 then (- 1, h) else
      if r = 0 then (0, h) else
      let (client, again) = os_accept os h server_fd; h = EvAccept server_fd client # h in
      if client < 0 then (- 1, h) else (client, h))"

definition tcp_accept :: "os \<Rightarrow> int \<Rightarrow> hist \<Rightarrow> int \<times> hist" where
  "tcp_accept os server_sock h =
     (let (client_sock, again) = os_accept os h server_sock; h = EvAccept server_sock client_sock # h in
      if client_sock < 0 then (if again then (NO_CONNECTION_WAITING, h) else (- 1, h))
      else (client_sock, h))"

text \<open>The receiving functions return the result of \<open>recv\<close> and the bytes stored in the buffer.\<close>

definition recv_result :: "bytes option \<Rightarrow> int \<times> bytes" where
  "recv_result d = (case d of None \<Rightarrow> (- 1, []) | Some bs \<Rightarrow> (int (length bs), bs))"

definition tcp_recv_flags :: "os \<Rightarrow> int \<Rightarrow> nat \<Rightarrow> int \<Rightarrow> hist \<Rightarrow> (int \<times> bytes) \<times> hist" where
  "tcp_recv_flags os fd len flags h =
     (let (d, h) = sys_recv os fd len flags h in (recv_result d, h))"

definition tcp_peek :: "os \<Rightarrow> int \<Rightarrow> nat \<Rightarrow> hist \<Rightarrow> (int \<times> bytes) \<times> hist" where
  "tcp_peek os fd len h = (let (d, h) = sys_recv os fd len MSG_PEEK h in (recv_result d, h))"

definition tcp_peek_u :: "os \<Rightarrow> int \<Rightarrow> nat \<Rightarrow> hist \<Rightarrow> (int \<times> bytes) \<times> hist" where
  "tcp_peek_u os fd len h =
     (let (d, h) = sys_recv os fd len (MSG_DONTWAIT OR MSG_PEEK) h in (recv_result d, h))"

definition tcp_has_data :: "os \<Rightarrow> int \<Rightarrow> hist \<Rightarrow> u64 \<times> hist" where
  "tcp_has_data os fd h =
     (let (d, h) = sys_recv os fd 0 MSG_PEEK h in (word_of_int (fst (recv_result d)), h))"

text \<open>\<open>FD_SET\<close> is undefined outside \<open>0 \<dots> FD_SETSIZE - 1\<close>.\<close>

definition FD_tcp_has_data :: "os \<Rightarrow> int \<Rightarrow> hist \<Rightarrow> (int \<times> hist) option" where
  "FD_tcp_has_data os sock h =
     (if sock < 0 \<or> 1024 \<le> sock then None
      else let r = os_select os h sock; h = EvSelect sock r # h in Some (if r then 1 else 0, h))"

definition tcp_recv :: "os \<Rightarrow> int \<Rightarrow> nat \<Rightarrow> hist \<Rightarrow> (int \<times> bytes) \<times> hist" where
  "tcp_recv os fd len h = (let (d, h) = sys_recv os fd len 0 h in (recv_result d, h))"

definition tcp_recv_u :: "os \<Rightarrow> int \<Rightarrow> nat \<Rightarrow> hist \<Rightarrow> (int \<times> bytes) \<times> hist" where
  "tcp_recv_u os fd len h = (let (d, h) = sys_recv os fd len MSG_DONTWAIT h in (recv_result d, h))"

text \<open>The \<open>while (total_sent < len)\<close> loop of \<open>tcp_send\<close>, one round of it.\<close>

definition tcp_send_round :: "os \<Rightarrow> int \<Rightarrow> bytes \<Rightarrow> nat \<times> hist \<Rightarrow> nat \<times> hist + nat \<times> hist" where
  "tcp_send_round os fd buf = (\<lambda>(total_sent, h).
     if total_sent < length buf then
       let ((n, again), h) = sys_send os fd (drop total_sent buf) 0 h in
       if 0 < n then Inl (total_sent + nat n, h)
       else if again then Inl (total_sent, usleep 1000 h)
       else Inr (total_sent, h)
     else Inr (total_sent, h))"

definition tcp_send :: "os \<Rightarrow> int \<Rightarrow> bytes \<Rightarrow> nat \<Rightarrow> hist \<Rightarrow> (int \<times> hist) option" where
  "tcp_send os fd buf len h =
     (if length buf < len then None
      else map_option (\<lambda>(n, h). (int n, h)) (iterate (tcp_send_round os fd (take len buf)) (0, h)))"

definition tcp_send_u :: "os \<Rightarrow> int \<Rightarrow> bytes \<Rightarrow> hist \<Rightarrow> int \<times> hist" where
  "tcp_send_u os fd buf h =
     (let ((n, _), h) = sys_send os fd buf (MSG_NOSIGNAL OR MSG_DONTWAIT) h in (n, h))"

definition tcp_open :: "os \<Rightarrow> Address option \<Rightarrow> hist \<Rightarrow> int \<times> hist" where
  "tcp_open os address h =
     (case address of
        None \<Rightarrow> (- 1, h)
      | Some a \<Rightarrow>
          let sockfd = os_socket os h; h = EvSocket sockfd # h in
          if sockfd < 0 then (- 1, h) else
          let c = os_connect os h sockfd a; h = EvConnect sockfd a c # h in
          if c < 0 then (- 1, tcp_close sockfd h) else (sockfd, h))"

section \<open>Observations of a history\<close>

text \<open>The bytes the kernel accepted on a socket, in order.\<close>

fun accepted :: "int \<Rightarrow> hist \<Rightarrow> bytes" where
  "accepted fd [] = []"
| "accepted fd (EvSend f bs fl n # h) =
     (if f = fd \<and> 0 < n then accepted fd h @ take (nat n) bs else accepted fd h)"
| "accepted fd (_ # h) = accepted fd h"

text \<open>How often the kernel refused bytes on a socket for the moment or for good.\<close>

fun stalls :: "int \<Rightarrow> hist \<Rightarrow> nat" where
  "stalls fd [] = 0"
| "stalls fd (EvSend f bs fl n # h) = (if f = fd \<and> n \<le> 0 then Suc (stalls fd h) else stalls fd h)"
| "stalls fd (_ # h) = stalls fd h"

text \<open>How many messages were handed to the kernel on a socket.\<close>

fun sends :: "int \<Rightarrow> hist \<Rightarrow> nat" where
  "sends fd [] = 0"
| "sends fd (EvSend f bs fl n # h) = (if f = fd then Suc (sends fd h) else sends fd h)"
| "sends fd (_ # h) = sends fd h"

text \<open>A kernel with room: it takes whatever it is offered on \<open>fd\<close> at once.\<close>

definition eager :: "os \<Rightarrow> int \<Rightarrow> bool" where
  "eager os fd \<longleftrightarrow> (\<forall>h bs fl. bs \<noteq> [] \<longrightarrow> int (length bs) \<le> fst (os_send os h fd bs fl))"

text \<open>The sockets opened and not closed.\<close>

fun live :: "hist \<Rightarrow> int list" where
  "live [] = []"
| "live (EvSocket fd # h) = (if fd < 0 then live h else fd # live h)"
| "live (EvAccept l fd # h) = (if fd < 0 then live h else fd # live h)"
| "live (EvClose fd # h) = removeAll fd (live h)"
| "live (_ # h) = live h"

text \<open>What the sending side relies on: the kernel refuses bytes on \<open>fd\<close> only with \<open>EAGAIN\<close>
  (it never fails), and at most \<open>k\<close> times.\<close>

definition patient :: "os \<Rightarrow> int \<Rightarrow> nat \<Rightarrow> bool" where
  "patient os fd k \<longleftrightarrow>
     (\<forall>h bs fl. bs \<noteq> [] \<longrightarrow> fst (os_send os h fd bs fl) \<le> 0 \<longrightarrow>
        snd (os_send os h fd bs fl) \<and> stalls fd h < k)"

text \<open>\<open>socket\<close> returns a descriptor that is not in use.\<close>

definition fresh_sockets :: "os \<Rightarrow> bool" where
  "fresh_sockets os \<longleftrightarrow> (\<forall>h. os_socket os h \<notin> set (live h))"

section \<open>Lemmas\<close>

lemma usleep_obs [simp]:
  "accepted fd (usleep us h) = accepted fd h" "stalls fd (usleep us h) = stalls fd h"
  "live (usleep us h) = live h"
  by (simp_all add: usleep_def)

lemma tcp_close_obs [simp]:
  "accepted fd (tcp_close f h) = accepted fd h" "live (tcp_close f h) = removeAll f (live h)"
  by (simp_all add: tcp_close_def)

lemma removeAll_fresh [simp]: "x \<notin> set xs \<Longrightarrow> removeAll x xs = xs"
  by (induction xs) auto

lemma tcp_open_live:
  assumes "fresh_sockets os" and "tcp_open os a h = (r, h')"
  shows "live h' = (if r < 0 then live h else r # live h)"
  using assms by (auto simp: tcp_open_def fresh_sockets_def Let_def split: option.splits if_splits)

lemma tcp_listen_live:
  assumes "fresh_sockets os" and "tcp_listen os p h = (r, h')"
  shows "live h' = (if r < 0 then live h else r # live h)"
  using assms by (auto simp: tcp_listen_def fresh_sockets_def Let_def split: if_splits)

lemma tcp_recv_obs [simp]:
  "accepted fd (snd (tcp_recv os f n h)) = accepted fd h"
  by (simp add: tcp_recv_def sys_recv_def Let_def)

lemma recv_bounded:
  "tcp_recv os fd n h = ((r, bs), h') \<Longrightarrow> length bs \<le> n \<and> (r = - 1 \<and> bs = [] \<or> r = int (length bs))"
  by (auto simp: tcp_recv_def sys_recv_def recv_result_def Let_def split: option.splits)

text \<open>The loop of \<open>tcp_send\<close>: what it has sent is the prefix it counted, on this socket only.\<close>

definition sent_so_far :: "int \<Rightarrow> bytes \<Rightarrow> hist \<Rightarrow> nat \<times> hist \<Rightarrow> bool" where
  "sent_so_far fd buf h0 = (\<lambda>(t, h). t \<le> length buf \<and>
     accepted fd h = accepted fd h0 @ take t buf \<and>
     (\<forall>f. f \<noteq> fd \<longrightarrow> accepted f h = accepted f h0) \<and> live h = live h0)"

lemma take_step: "t \<le> length buf \<Longrightarrow> take t buf @ take n (drop t buf) = take (t + n) buf"
  by (simp add: take_add)

lemma tcp_send_round_Inl:
  assumes "tcp_send_round os fd buf (t, h) = Inl (t', h')"
  obtains (sent) n where "t < length buf" "0 < n" "t' = t + n" "t' \<le> length buf"
      "h' = EvSend fd (drop t buf) 0 (int n) # h"
    | (stall) m where "t < length buf" "fst (os_send os h fd (drop t buf) 0) \<le> 0"
      "snd (os_send os h fd (drop t buf) 0)" "m \<le> 0" "t' = t"
      "h' = usleep 1000 (EvSend fd (drop t buf) 0 m # h)"
proof -
  obtain x g where os: "os_send os h fd (drop t buf) 0 = (x, g)" by (cases "os_send os h fd (drop t buf) 0")
  let ?m = "min x (int (length buf - t))"
  show thesis
  proof (cases "0 < ?m")
    case True
    with assms os show thesis
      by (intro sent [of "nat ?m"])
        (auto simp: tcp_send_round_def sys_send_def Let_def split: if_splits)
  next
    case False
    with assms os show thesis
      by (intro stall [of ?m])
        (auto simp: tcp_send_round_def sys_send_def Let_def split: if_splits)
  qed
qed

lemma tcp_send_round_Inr:
  assumes "tcp_send_round os fd buf (t, h) = Inr (t', h')"
  obtains (finish) "length buf \<le> t" "t' = t" "h' = h"
    | (fail) m where "t < length buf" "fst (os_send os h fd (drop t buf) 0) \<le> 0"
      "\<not> snd (os_send os h fd (drop t buf) 0)" "m \<le> 0" "t' = t"
      "h' = EvSend fd (drop t buf) 0 m # h"
proof -
  obtain x g where os: "os_send os h fd (drop t buf) 0 = (x, g)" by (cases "os_send os h fd (drop t buf) 0")
  let ?m = "min x (int (length buf - t))"
  show thesis
  proof (cases "t < length buf")
    case True
    with assms os show thesis
      by (intro fail [of ?m])
        (auto simp: tcp_send_round_def sys_send_def Let_def split: if_splits)
  next
    case False
    with assms show thesis
      by (intro finish) (auto simp: tcp_send_round_def)
  qed
qed

lemma tcp_send_round_inv:
  assumes I: "sent_so_far fd buf h0 (t, h)"
  shows "tcp_send_round os fd buf (t, h) = Inl (t', h') \<Longrightarrow> sent_so_far fd buf h0 (t', h')"
    and "tcp_send_round os fd buf (t, h) = Inr (t', h') \<Longrightarrow> sent_so_far fd buf h0 (t', h')"
proof -
  assume "tcp_send_round os fd buf (t, h) = Inl (t', h')"
  then show "sent_so_far fd buf h0 (t', h')"
    by (cases rule: tcp_send_round_Inl) (use I in \<open>auto simp: sent_so_far_def take_step\<close>)
next
  assume "tcp_send_round os fd buf (t, h) = Inr (t', h')"
  then show "sent_so_far fd buf h0 (t', h')"
    by (cases rule: tcp_send_round_Inr) (use I in \<open>auto simp: sent_so_far_def\<close>)
qed

lemma tcp_send_stream:
  assumes "tcp_send os fd buf len h = Some (r, h')"
  shows "len \<le> length buf \<and> 0 \<le> r \<and> r \<le> int len \<and>
         accepted fd h' = accepted fd h @ take (nat r) buf \<and>
         (\<forall>f. f \<noteq> fd \<longrightarrow> accepted f h' = accepted f h) \<and> live h' = live h"
proof -
  from assms obtain n where n: "iterate (tcp_send_round os fd (take len buf)) (0, h) = Some (n, h')"
    and r: "r = int n" and len: "len \<le> length buf"
    by (auto simp: tcp_send_def split: if_splits)
  have "sent_so_far fd (take len buf) h (n, h')"
    by (rule iterate_partial [OF n, where I = "sent_so_far fd (take len buf) h"])
      (auto intro: tcp_send_round_inv, auto simp: sent_so_far_def)
  moreover have "length (take len buf) = len" using len by simp
  ultimately show ?thesis
    using r len by (auto simp: sent_so_far_def min_absorb1)
qed

lemma tcp_send_complete:
  assumes pat: "patient os fd k" and len: "len \<le> length buf"
  shows "\<exists>h'. tcp_send os fd buf len h = Some (int len, h')"
proof -
  let ?b = "take len buf"
  have "\<exists>r. iterate (tcp_send_round os fd ?b) (0, h) = Some r \<and> fst r = length ?b"
  proof (rule iterate_total [where I = "\<lambda>s. fst s \<le> length ?b"
        and m = "\<lambda>s. (k - stalls fd (snd s)) + (length ?b - fst s)"])
    fix s s' assume I: "fst s \<le> length ?b" and "tcp_send_round os fd ?b s = Inl s'"
    then have "tcp_send_round os fd ?b (fst s, snd s) = Inl (fst s', snd s')" by simp
    then show "fst s' \<le> length ?b \<and>
      (k - stalls fd (snd s')) + (length ?b - fst s') < (k - stalls fd (snd s)) + (length ?b - fst s)"
    proof (cases rule: tcp_send_round_Inl)
      case (stall m)
      then have "drop (fst s) ?b \<noteq> []" by (simp add: min_le_iff_disj)
      with pat stall(2) have "stalls fd (snd s) < k" unfolding patient_def by blast
      moreover have "stalls fd (snd s') = Suc (stalls fd (snd s))" using stall by simp
      ultimately show ?thesis using stall(1,5) by linarith
    qed auto
  next
    fix s r assume I: "fst s \<le> length ?b" and "tcp_send_round os fd ?b s = Inr r"
    then have "tcp_send_round os fd ?b (fst s, snd s) = Inr (fst r, snd r)" by simp
    then show "fst r = length ?b"
    proof (cases rule: tcp_send_round_Inr)
      case (fail m)
      then have "drop (fst s) ?b \<noteq> []" by (simp add: min_le_iff_disj)
      with pat fail(2,3) show ?thesis unfolding patient_def by blast
    qed (use I in linarith)
  qed simp
  with len show ?thesis
    by (auto simp: tcp_send_def min_absorb2)
qed

lemma tcp_send_eager:
  assumes "eager os fd" and "len \<le> length buf"
  shows "tcp_send os fd buf len h =
           Some (int len, if len = 0 then h else EvSend fd (take len buf) 0 (int len) # h)"
proof (cases "len = 0")
  case True
  then show ?thesis by (simp add: tcp_send_def iterate_Inr tcp_send_round_def)
next
  case False
  let ?b = "take len buf" and ?h = "EvSend fd (take len buf) 0 (int len) # h"
  have l: "length ?b = len" "?b \<noteq> []" using assms(2) False by auto
  with assms(1) have "int len \<le> fst (os_send os h fd ?b 0)" unfolding eager_def by metis
  with l False have "tcp_send_round os fd ?b (0, h) = Inl (len, ?h)"
    by (auto simp: tcp_send_round_def sys_send_def Let_def min_absorb2 split: prod.split)
  moreover have "tcp_send_round os fd ?b (len, ?h) = Inr (len, ?h)"
    using l by (simp add: tcp_send_round_def)
  ultimately show ?thesis
    using False assms(2) by (simp add: tcp_send_def iterate_Inl iterate_Inr)
qed

lemma eager_patient: "eager os fd \<Longrightarrow> patient os fd 0"
proof -
  assume e: "eager os fd"
  have "\<not> fst (os_send os h fd bs fl) \<le> 0" if "bs \<noteq> []" for h bs fl
    using e [unfolded eager_def, rule_format, OF that, of h fl] that by (cases bs) auto
  then show ?thesis by (simp add: patient_def)
qed

section \<open>Properties\<close>

text \<open>A kernel for the witnesses: every send is refused once with \<open>EAGAIN\<close> and then takes three
  bytes at a time, sockets are numbered from 3, every connection is refused.\<close>

definition slow_os :: os where
  "slow_os = \<lparr>os_socket = (\<lambda>h. 3 + int (length (live h)) + sum_list (map abs (live h))),
     os_getfl = (\<lambda>_ _. 0), os_setfl = (\<lambda>_ _ _. 0),
     os_bind = (\<lambda>_ _ _. 0), os_listen = (\<lambda>_ _ _. 0), os_poll = (\<lambda>_ _. 0), os_accept = (\<lambda>_ _. (- 1, True)),
     os_recv = (\<lambda>_ _ _ _. Some []),
     os_send = (\<lambda>h fd bs fl. if stalls fd h = 0 then (- 1, True) else (3, False)),
     os_connect = (\<lambda>_ _ _. - 1), os_select = (\<lambda>_ _. False), os_clock = (\<lambda>_. (0, 0)),
     os_malloc = (\<lambda>_ n. Some [])\<rparr>"

lemma slow_os_patient: "patient slow_os fd 1"
  by (simp add: patient_def slow_os_def)

lemma abs_le_sum_list: "x \<in> set xs \<Longrightarrow> x \<le> sum_list (map abs (xs :: int list))"
proof (induction xs)
  case (Cons y ys)
  have "0 \<le> sum_list (map abs ys)" by (rule sum_list_nonneg) auto
  with Cons show ?case by fastforce
qed simp

lemma slow_os_fresh: "fresh_sockets slow_os"
  using abs_le_sum_list by (fastforce simp: fresh_sockets_def slow_os_def)

text \<open>C17: When the kernel takes bytes on \<open>fd\<close> sooner or later (it refuses only with \<open>EAGAIN\<close> and only
  finitely often), \<open>tcp_send\<close> returns with the full length, the kernel has received exactly the
  first \<open>len\<close> bytes of the buffer on that socket, in order and once, and nothing on any other.\<close>

theorem tcp_send_delivers:
  assumes "patient os fd k" and "len \<le> length buf"
  shows "\<exists>h'. tcp_send os fd buf len h = Some (int len, h') \<and>
              accepted fd h' = accepted fd h @ take len buf \<and>
              (\<forall>f. f \<noteq> fd \<longrightarrow> accepted f h' = accepted f h)"
proof -
  obtain h' where h': "tcp_send os fd buf len h = Some (int len, h')"
    using tcp_send_complete [OF assms] by blast
  from tcp_send_stream [OF h'] h' show ?thesis by auto
qed

theorem tcp_send_delivers_witness:
  "\<exists>h'. tcp_send slow_os 7 [1, 2, 3, 4, 5] 5 [] = Some (5, h') \<and> accepted 7 h' = [1, 2, 3, 4, 5]"
  using tcp_send_delivers [OF slow_os_patient, of 5 "[1, 2, 3, 4, 5]" 7 "[]"] by auto





end
