(* ===== verification/Directory.thy ===== *)
theory Directory
  imports DSS_Prelude
begin

text \<open>
  The contract both file tables of a node promise: the file store of \<open>fs.c\<close> (an array) and the
  network index of \<open>fni.c\<close> (a linked list on the heap) keep entries in the order they were
  added, hand out a handle for each (an array position, a node address), and find the first
  entry with a given id. The locale states the contract over the list of entries and derives
  from it what the callers in \<open>main.c\<close> and \<open>procedures.c\<close> use: what a lookup returns after an
  insertion, and that a handle once found stays the answer while entries are added.
\<close>

locale directory =
  fixes invar :: "'s \<Rightarrow> bool"
    and entries :: "'s \<Rightarrow> ('k \<times> 'h) list"
    and key :: "'a \<Rightarrow> 'k"
    and add :: "'a \<Rightarrow> 's \<Rightarrow> ('h \<times> 's) option"
    and lookup :: "'s \<Rightarrow> 'k \<Rightarrow> 'h option option"
  assumes add_invar: "invar s \<Longrightarrow> add a s = Some (p, s') \<Longrightarrow> invar s'"
    and add_entries: "invar s \<Longrightarrow> add a s = Some (p, s') \<Longrightarrow> entries s' = entries s @ [(key a, p)]"
    and lookup_entries: "invar s \<Longrightarrow> lookup s k = Some (map_of (entries s) k)"
    and handles_distinct: "invar s \<Longrightarrow> distinct (map snd (entries s))"
begin

text \<open>Insertion: the new entry is found under its id unless an older one has the same id.\<close>

lemma lookup_add:
  assumes "invar s" and "add a s = Some (p, s')"
  shows "lookup s' k =
           (case map_of (entries s) k of
              Some q \<Rightarrow> Some (Some q)
            | None \<Rightarrow> Some (if k = key a then Some p else None))"
  using assms lookup_entries [OF add_invar [OF assms], of k] add_entries [OF assms]
  by (auto simp: map_add_def split: option.splits)

lemma lookup_add_new:
  assumes "invar s" and "add a s = Some (p, s')" and "lookup s (key a) = Some None"
  shows "lookup s' (key a) = Some (Some p)"
  using assms lookup_entries [OF assms(1), of "key a"] by (simp add: lookup_add)

lemma lookup_add_other:
  assumes "invar s" and "add a s = Some (p, s')" and "k \<noteq> key a"
  shows "lookup s' k = lookup s k"
  using assms lookup_entries [OF assms(1), of k] by (simp add: lookup_add split: option.splits)

lemma lookup_stable:
  assumes "invar s" and "add a s = Some (p, s')" and "lookup s k = Some (Some q)"
  shows "lookup s' k = Some (Some q)"
  using assms lookup_entries [OF assms(1), of k] by (simp add: lookup_add)

text \<open>A handle that an insertion returns is new.\<close>

lemma add_fresh_handle:
  assumes "invar s" and "add a s = Some (p, s')"
  shows "p \<notin> snd ` set (entries s)"
  using handles_distinct [OF add_invar [OF assms]] add_entries [OF assms] by auto

text \<open>A lookup returns: it never runs away and never leaves its structure.\<close>

lemma lookup_total: "invar s \<Longrightarrow> \<exists>r. lookup s k = Some r"
  by (simp add: lookup_entries)

end

text \<open>The shape the interpretations share: keys read off a list of handles.\<close>

lemma map_of_keys: "map_of (map (\<lambda>i. (f i, i)) is) k = List.find (\<lambda>i. f i = k) is"
  by (induction "is") auto

lemma find_cong_set: "(\<And>x. x \<in> set xs \<Longrightarrow> P x = Q x) \<Longrightarrow> List.find P xs = List.find Q xs"
  by (induction xs) auto

end
