(* ===== verification/File_Store.thy ===== *)
theory File_Store
  imports Tcp_Lib Directory
begin

text \<open>
  \<open>lib/fileserver/fs.c\<close>: the files a node holds, each with up to two fragments, in an array of
  \<open>FILE_SERVER_MAX_FILES\<close> containers allocated once. The model keeps the initialised prefix of
  the array (the slots below \<open>file_count\<close>); a container pointer is its position. Writing past
  the last slot is undefined behaviour (\<open>None\<close>), which is what the code does with one file too
  many. The debug printer is not modelled.
  The theorems: the store keeps its well-formedness, implements the directory contract, finds
  files by name up to the 199 characters it stores, and keeps fragment contents.
\<close>

section \<open>Data\<close>

record xFileFragment =
  fragment_id :: u8
  fragment_bytes :: "bytes option"
  fragment_size :: u64

record xFileContainer =
  file_name :: bytes
  file_id :: u16
  fc_size :: u64
  fragment_count_total :: u8
  fragments :: "xFileFragment list"

record xFileServer =
  file_count :: u16
  files :: "xFileContainer list option"

datatype eFileAddFragStatus =
    FRAG_OK | FRAG_ERR_INVALID_FILE | FRAG_ERR_INVALID_INDEX | FRAG_ERR_INVALID_BYTES

abbreviation (input) "FILE_SERVER_MAX_FILES \<equiv> (100 :: nat)"
abbreviation (input) "sizeof_xFileContainer \<equiv> (272 :: nat)"
abbreviation (input) "REDUNDANCY \<equiv> (2 :: nat)"

definition zero_fragment :: xFileFragment where
  "zero_fragment = \<lparr>fragment_id = 0, fragment_bytes = None, fragment_size = 0\<rparr>"

definition zero_container :: xFileContainer where
  "zero_container = \<lparr>file_name = replicate 200 0, file_id = 0, fc_size = 0,
     fragment_count_total = 0, fragments = [zero_fragment, zero_fragment]\<rparr>"

text \<open>\<open>strncpy(dst, src, n)\<close> into a zeroed array of \<open>m\<close> bytes.\<close>

definition strncpy_zeroed :: "nat \<Rightarrow> nat \<Rightarrow> bytes \<Rightarrow> bytes" where
  "strncpy_zeroed m n src = fit m (cstr (take n src))"

section \<open>The operations\<close>

definition xfileserver_init :: "os \<Rightarrow> hist \<Rightarrow> (int \<times> xFileServer) \<times> hist" where
  "xfileserver_init os h =
     (let (m, h) = sys_malloc os (sizeof_xFileContainer * FILE_SERVER_MAX_FILES) h
      in ((1, \<lparr>file_count = 0, files = (if m = None then None else Some [])\<rparr>), h))"

definition xfileserver_add_file ::
  "xFileServer \<Rightarrow> bytes \<Rightarrow> u16 \<Rightarrow> u64 \<Rightarrow> u8 \<Rightarrow> (nat option \<times> xFileServer) option" where
  "xfileserver_add_file index name fid total_size count =
     (case files index of
        None \<Rightarrow> Some (None, index)
      | Some fs \<Rightarrow>
          if FILE_SERVER_MAX_FILES \<le> unat (file_count index) then None
          else
            let file = zero_container\<lparr>file_name := strncpy_zeroed 200 199 name, file_id := fid,
                         fc_size := total_size, fragment_count_total := count\<rparr>
            in Some (Some (unat (file_count index)),
                     index\<lparr>file_count := file_count index + 1,
                           files := Some (take (unat (file_count index)) fs @ [file])\<rparr>))"

text \<open>\<open>xfileserver_add_fragment\<close> works on the container it is given a pointer to.\<close>

definition xfileserver_add_fragment ::
  "os \<Rightarrow> xFileContainer option \<Rightarrow> u8 \<Rightarrow> bytes \<Rightarrow> u64 \<Rightarrow> hist \<Rightarrow>
   ((eFileAddFragStatus \<times> xFileContainer option) \<times> hist) option" where
  "xfileserver_add_fragment os file fid data sz h =
     (case file of
        None \<Rightarrow> Some ((FRAG_ERR_INVALID_FILE, None), h)
      | Some f \<Rightarrow> do {
          f0 \<leftarrow> at (fragments f) 0;
          let idx = (if fragment_id f0 = 0 then 0 else 1);
          old \<leftarrow> at (fragments f) (int idx);
          let (m, h) = sys_malloc os (unat sz) h;
          case m of
            None \<Rightarrow>
              Some ((FRAG_ERR_INVALID_BYTES,
                     Some (f\<lparr>fragments := (fragments f)[idx :=
                        old\<lparr>fragment_id := fid, fragment_bytes := None\<rparr>]\<rparr>)), h)
          | Some _ \<Rightarrow> do {
              content \<leftarrow> memcpy_from data 0 (unat sz);
              Some ((FRAG_OK,
                     Some (f\<lparr>fragments := (fragments f)[idx :=
                        \<lparr>fragment_id = fid, fragment_bytes = Some content, fragment_size = sz\<rparr>]\<rparr>)), h)
            }
        })"

definition xfileserver_find_file :: "xFileServer \<Rightarrow> u64 \<Rightarrow> nat option" where
  "xfileserver_find_file idx fid =
     (case files idx of
        None \<Rightarrow> None
      | Some fs \<Rightarrow> List.find (\<lambda>i. ucast (file_id (fs ! i)) = fid) [0..<unat (file_count idx)])"

text \<open>\<open>name[199] = '\\0'\<close> writes into the caller's array, so the name comes back changed.\<close>

definition xfileserver_find_file_by_name :: "xFileServer \<Rightarrow> bytes \<Rightarrow> nat option \<times> bytes" where
  "xfileserver_find_file_by_name idx name =
     (let name = name[199 := 0] in
      (case files idx of
         None \<Rightarrow> None
       | Some fs \<Rightarrow>
           List.find (\<lambda>i. cstr (file_name (fs ! i)) = cstr name) [0..<unat (file_count idx)],
       name))"

text \<open>\<open>free\<close> of every fragment up to \<open>fragment_count_total\<close>: the array has two.\<close>

definition xfileserver_free_file :: "xFileContainer option \<Rightarrow> hist \<Rightarrow> (xFileContainer option \<times> hist) option" where
  "xfileserver_free_file file h =
     (case file of
        None \<Rightarrow> Some (None, h)
      | Some f \<Rightarrow>
          if length (fragments f) < unat (fragment_count_total f) then None
          else Some (Some zero_container, replicate (unat (fragment_count_total f)) EvFree @ h))"

fun xfileserver_free_files :: "xFileContainer list \<Rightarrow> hist \<Rightarrow> (xFileContainer list \<times> hist) option" where
  "xfileserver_free_files [] h = Some ([], h)"
| "xfileserver_free_files (f # fs) h = do {
     (f, h) \<leftarrow> xfileserver_free_file (Some f) h;
     (fs, h) \<leftarrow> xfileserver_free_files fs h;
     Some (the f # fs, h) }"

definition xfileserver_free_fs :: "xFileServer option \<Rightarrow> hist \<Rightarrow> hist option" where
  "xfileserver_free_fs fs h =
     (case fs of
        None \<Rightarrow> Some h
      | Some fs \<Rightarrow> do {
          (_, h) \<leftarrow> xfileserver_free_files
                     (case files fs of None \<Rightarrow> [] | Some xs \<Rightarrow> take (unat (file_count fs)) xs) h;
          Some (EvFree # EvFree # h) })"

section \<open>Well-formedness and observations\<close>

definition container_ok :: "xFileContainer \<Rightarrow> bool" where
  "container_ok c \<longleftrightarrow> length (file_name c) = 200 \<and> file_name c ! 199 = 0 \<and> length (fragments c) = 2"

definition fs_inv :: "xFileServer \<Rightarrow> bool" where
  "fs_inv s \<longleftrightarrow>
     (case files s of
        None \<Rightarrow> file_count s = 0
      | Some xs \<Rightarrow> length xs = unat (file_count s) \<and> length xs \<le> FILE_SERVER_MAX_FILES \<and>
                   list_all container_ok xs)"

definition containers :: "xFileServer \<Rightarrow> xFileContainer list" where
  "containers s = (case files s of None \<Rightarrow> [] | Some xs \<Rightarrow> xs)"

definition fs_entries :: "xFileServer \<Rightarrow> (u64 \<times> nat) list" where
  "fs_entries s = map (\<lambda>i. (ucast (file_id (containers s ! i)), i)) [0..<length (containers s)]"

text \<open>The fragment with a given id as \<open>xprocedure_send_fragment\<close> searches it: the first slot whose
  id matches.\<close>

definition stored_fragment :: "xFileContainer \<Rightarrow> u8 \<Rightarrow> xFileFragment option" where
  "stored_fragment c fid = List.find (\<lambda>f. fragment_id f = fid) (fragments c)"

text \<open>\<open>xfileserver_add_file\<close> as an insertion into a directory: it hands out a position.\<close>

definition fs_add :: "bytes \<times> u16 \<times> u64 \<times> u8 \<Rightarrow> xFileServer \<Rightarrow> (nat \<times> xFileServer) option" where
  "fs_add = (\<lambda>(name, fid, sz, count) s.
     case xfileserver_add_file s name fid sz count of
       Some (Some p, s') \<Rightarrow> Some (p, s')
     | _ \<Rightarrow> None)"

section \<open>Lemmas\<close>

lemma length_strncpy [simp]: "length (strncpy_zeroed m n src) = m"
  by (simp add: strncpy_zeroed_def)

lemma length_cstr_le: "length (cstr xs) \<le> length xs"
  by (simp add: cstr_def length_takeWhile_le)

lemma strncpy_last_zero: "n < m \<Longrightarrow> strncpy_zeroed m n src ! (m - 1) = 0"
  using length_cstr_le [of "take n src"] by (auto simp: strncpy_zeroed_def fit_def nth_append)

lemma cstr_pad: "(\<And>b. b \<in> set xs \<Longrightarrow> b \<noteq> 0) \<Longrightarrow> cstr (xs @ replicate n 0) = xs"
  by (cases n) (simp_all add: cstr_def takeWhile_append2)

lemma cstr_nonzero: "b \<in> set (cstr xs) \<Longrightarrow> b \<noteq> 0"
  by (auto simp: cstr_def dest: set_takeWhileD)

lemma cstr_strncpy: "n \<le> m \<Longrightarrow> cstr (strncpy_zeroed m n src) = cstr (take n src)"
  using length_cstr_le [of "take n src"] cstr_nonzero [of _ "take n src"]
  by (simp add: strncpy_zeroed_def fit_def cstr_pad)

lemma unat_plus_1_u16: "unat (w :: u16) < 100 \<Longrightarrow> unat (w + 1) = unat w + 1"
  by (subst unat_add_lem [THEN iffD1]) auto

lemma add_file_Some:
  assumes "fs_inv s" and "xfileserver_add_file s name fid sz count = Some (Some p, s')"
  shows "fs_inv s'" and "p = length (containers s)"
    and "containers s' = containers s @ [zero_container\<lparr>file_name := strncpy_zeroed 200 199 name,
           file_id := fid, fc_size := sz, fragment_count_total := count\<rparr>]"
  using assms strncpy_last_zero [of 199 200 name]
  by (auto simp: xfileserver_add_file_def fs_inv_def containers_def container_ok_def zero_container_def
      Let_def unat_plus_1_u16 split: option.splits if_splits)

lemma find_file_entries:
  assumes "fs_inv s"
  shows "xfileserver_find_file s k = map_of (fs_entries s) k"
  using assms
  by (auto simp: xfileserver_find_file_def fs_entries_def containers_def fs_inv_def map_of_keys
      split: option.splits)

lemma add_file_room:
  assumes "fs_inv s" and "files s \<noteq> None" and "length (containers s) < FILE_SERVER_MAX_FILES"
  shows "\<exists>s'. xfileserver_add_file s name fid sz count = Some (Some (length (containers s)), s')"
  using assms by (auto simp: xfileserver_add_file_def fs_inv_def containers_def Let_def)

lemma add_file_kept:
  assumes "fs_inv s" and "xfileserver_add_file s name fid sz count = Some (r, s')"
  shows "fs_inv s'"
  using assms add_file_Some(1) [OF assms(1)]
  by (cases r) (auto simp: xfileserver_add_file_def Let_def split: option.splits if_splits)

interpretation fs_dir: directory fs_inv fs_entries "\<lambda>(name, fid, sz, count). ucast fid" fs_add
  "\<lambda>s k. Some (xfileserver_find_file s k)"
proof unfold_locales
  fix s a p s' assume inv: "fs_inv s" and add: "fs_add a s = Some (p, s')"
  obtain name fid sz count where a: "a = (name, fid, sz, count)" by (cases a)
  with add have f: "xfileserver_add_file s name fid sz count = Some (Some p, s')"
    by (auto simp: fs_add_def split: option.splits prod.splits)
  show "fs_inv s'" using inv f by (rule add_file_Some)
  show "fs_entries s' = fs_entries s @ [((case a of (name, fid, sz, count) \<Rightarrow> ucast fid), p)]"
    using add_file_Some [OF inv f] a by (simp add: fs_entries_def nth_append)
qed (auto simp: find_file_entries fs_entries_def o_def)

lemma add_fragment_OK:
  assumes "container_ok c" and "xfileserver_add_fragment os (Some c) fid data sz h = Some ((FRAG_OK, c'), h')"
  shows "c' = Some (c\<lparr>fragments := (fragments c)[if fragment_id (fragments c ! 0) = 0 then 0 else 1 :=
               \<lparr>fragment_id = fid, fragment_bytes = Some (take (unat sz) data), fragment_size = sz\<rparr>]\<rparr>)
         \<and> unat sz \<le> length data"
  using assms
  by (auto simp: xfileserver_add_fragment_def container_ok_def Let_def peek_def
      split: option.splits Option.bind_splits prod.splits if_splits)

lemma add_fragment_total:
  assumes "container_ok c" and "unat sz \<le> length data"
  shows "\<exists>st c' h'. xfileserver_add_fragment os (Some c) fid data sz h = Some ((st, Some c'), h') \<and>
           container_ok c'"
  using assms
  by (auto simp: xfileserver_add_fragment_def container_ok_def Let_def at_def memcpy_from_def
      split: option.splits prod.splits)

lemma cstr_cut: "length name = 200 \<Longrightarrow> cstr (name[199 := 0]) = cstr (take 199 name)"
proof -
  assume len: "length name = 200"
  then have "name[199 := 0] = take 199 name @ [0]"
    by (subst upd_conv_take_nth_drop) simp_all
  then show ?thesis
    by (simp add: cstr_def takeWhile_append takeWhile_eq_all_conv [THEN iffD2])
qed

lemma find_by_name_Some:
  assumes "fs_inv s" and "length name = 200"
  shows "fst (xfileserver_find_file_by_name s name) =
           List.find (\<lambda>i. cstr (file_name (containers s ! i)) = cstr (take 199 name))
             [0..<length (containers s)]"
  using assms
  by (auto simp: xfileserver_find_file_by_name_def fs_inv_def containers_def Let_def cstr_cut
      split: option.splits)

lemma find_snoc: "List.find P (xs @ [x]) = (case List.find P xs of Some y \<Rightarrow> Some y | None \<Rightarrow> if P x then Some x else None)"
  by (induction xs) auto

lemma two_fragments: "container_ok c \<Longrightarrow> \<exists>f0 f1. fragments c = [f0, f1]"
  by (auto simp: container_ok_def length_Suc_conv eval_nat_numeral)

section \<open>Properties\<close>


definition empty_store :: xFileServer where
  "empty_store = \<lparr>file_count = 0, files = Some []\<rparr>"




text \<open>A file added under a name is found by a request for that name (both are 200-byte arrays, and
  only the text before the first NUL within 199 characters counts), unless a file added earlier
  has the same text; then the earlier file is the answer.\<close>

theorem fileserver_find_by_name:
  assumes "fs_inv s" and "length name = 200" and "length req = 200"
    and "cstr (take 199 req) = cstr (take 199 name)"
    and "xfileserver_add_file s name fid sz count = Some (Some p, s')"
  shows "fst (xfileserver_find_file_by_name s' req) =
           (case fst (xfileserver_find_file_by_name s req) of
              Some q \<Rightarrow> Some q
            | None \<Rightarrow> Some p)"
proof -
  have eq: "List.find (\<lambda>i. cstr (file_name (containers s' ! i)) = cstr (take 199 req)) [0..<length (containers s)]
          = List.find (\<lambda>i. cstr (file_name (containers s ! i)) = cstr (take 199 req)) [0..<length (containers s)]"
    using add_file_Some(3) [OF assms(1,5)] by (intro find_cong_set) (simp add: nth_append)
  show ?thesis
    using add_file_Some [OF assms(1,5)] eq assms
    by (simp add: find_by_name_Some find_snoc cstr_strncpy split: option.splits)
qed

theorem fileserver_find_by_name_witness:
  "\<exists>s'. xfileserver_add_file empty_store (fit 200 [97, 98]) 1 10 1 = Some (Some 0, s') \<and>
        fst (xfileserver_find_file_by_name s' (fit 200 [97, 98])) = Some 0"
proof -
  have inv: "fs_inv empty_store" by (simp add: empty_store_def fs_inv_def)
  obtain s' where s': "xfileserver_add_file empty_store (fit 200 [97, 98]) 1 10 1 = Some (Some 0, s')"
    using add_file_room [OF inv, of "fit 200 [97, 98]" 1 10 1] by (auto simp: empty_store_def containers_def)
  moreover have "fst (xfileserver_find_file_by_name empty_store (fit 200 [97, 98])) = None"
    by (simp add: xfileserver_find_file_by_name_def empty_store_def Let_def)
  ultimately show ?thesis
    using fileserver_find_by_name [OF inv _ _ refl s'] by simp
qed

text \<open>When \<open>xfileserver_add_fragment\<close> reports \<open>FRAG_OK\<close> for a fragment with a non-zero id, the
  container is still well formed, the stored copy is the first \<open>size\<close> bytes of the data, a
  search for the id finds it unless the first slot already held that id, and a fragment held
  in the first slot before is kept.\<close>

theorem add_fragment_stored:
  assumes "container_ok c" and "fid \<noteq> 0" and "fragment_id (fragments c ! 0) \<noteq> fid"
    and "xfileserver_add_fragment os (Some c) fid data sz h = Some ((FRAG_OK, Some c'), h')"
  shows "container_ok c' \<and>
         stored_fragment c' fid =
           Some \<lparr>fragment_id = fid, fragment_bytes = Some (take (unat sz) data), fragment_size = sz\<rparr> \<and>
         (fragment_id (fragments c ! 0) \<noteq> 0 \<longrightarrow> fragments c' ! 0 = fragments c ! 0)"
proof -
  obtain f0 f1 where f: "fragments c = [f0, f1]" using two_fragments [OF assms(1)] by blast
  show ?thesis
    using add_fragment_OK [OF assms(1,4)] assms(1-3) f
    by (auto simp: container_ok_def stored_fragment_def split: if_splits)
qed

theorem add_fragment_stored_witness:
  "\<exists>c' h'. xfileserver_add_fragment slow_os (Some zero_container) 3 [10, 20, 30] 2 [] = Some ((FRAG_OK, Some c'), h')
     \<and> stored_fragment c' 3 = Some \<lparr>fragment_id = 3, fragment_bytes = Some [10, 20], fragment_size = 2\<rparr>"
proof -
  obtain c' h' where add: "xfileserver_add_fragment slow_os (Some zero_container) 3 [10, 20, 30] 2 [] = Some ((FRAG_OK, Some c'), h')"
    by (auto simp: xfileserver_add_fragment_def zero_container_def zero_fragment_def at_def memcpy_from_def
        sys_malloc_def slow_os_def)
  have "container_ok zero_container" by (simp add: container_ok_def zero_container_def)
  from add_fragment_stored [OF this _ _ add] add show ?thesis
    by (auto simp: zero_container_def zero_fragment_def)
qed

end
