(* ===== verification/File_Index.thy ===== *)
theory File_Index
  imports Tcp_Lib Directory
begin

text \<open>
  \<open>lib/fileserver/fni.c\<close>: the index node's table of which node holds which fragment, a singly
  linked list of heap nodes with a head and a tail pointer. The nodes live in an explicit heap
  (\<open>fheap\<close>: a partial map from addresses, and the next free address for \<open>calloc\<close>), because the
  list is built by writing the \<open>next\<close> field of the node the tail points to. A lookup follows
  the \<open>next\<close> pointers and might run for ever or into a dangling pointer; \<open>None\<close> stands for both.
  The theorems: under the list invariant the lookup always returns, the heap structure refines
  a plain list of entries (insertion appends, lookup is the first match), and it implements
  the directory contract. The debug printer is not modelled.
\<close>

section \<open>Data\<close>

record xFragmentNetworkPointer =
  np_fragment :: u16
  np_size :: u64
  np_node_id :: u64

record xFileInNetwork =
  fni_file_id :: u16
  total_fragments :: u64
  fni_fragments :: "xFragmentNetworkPointer list option"
  next_file :: "nat option"

record xFileNetworkIndex =
  net_file_count :: u16
  net_files :: "nat option"
  TAIL :: "nat option"

record fheap =
  cells :: "nat \<Rightarrow> xFileInNetwork option"
  brk :: nat

definition zero_pointer :: xFragmentNetworkPointer where
  "zero_pointer = \<lparr>np_fragment = 0, np_size = 0, np_node_id = 0\<rparr>"

abbreviation (input) "sizeof_xFileInNetwork \<equiv> (32 :: nat)"
abbreviation (input) "sizeof_xFragmentNetworkPointer \<equiv> (24 :: nat)"

section \<open>The operations\<close>

definition xfilenetindex_init :: "int \<times> xFileNetworkIndex" where
  "xfilenetindex_init = (1, \<lparr>net_file_count = 0, net_files = None, TAIL = None\<rparr>)"

definition xfilenetindex_new_file ::
  "os \<Rightarrow> u16 \<Rightarrow> u64 \<Rightarrow> fheap \<Rightarrow> hist \<Rightarrow> (nat option \<times> fheap) \<times> hist" where
  "xfilenetindex_new_file os fid fragment_count hp h =
     (let (m, h) = sys_malloc os sizeof_xFileInNetwork h in
      case m of
        None \<Rightarrow> ((None, hp), h)
      | Some _ \<Rightarrow>
          let a = brk hp;
              file = \<lparr>fni_file_id = fid, total_fragments = fragment_count, fni_fragments = None,
                      next_file = None\<rparr> in
          if fragment_count > 0 then
            let (m, h) = sys_malloc os (unat fragment_count * sizeof_xFragmentNetworkPointer) h in
            case m of
              None \<Rightarrow> ((None, hp), EvFree # h)
            | Some _ \<Rightarrow>
                ((Some a,
                  hp\<lparr>cells := (cells hp)(a \<mapsto>
                       file\<lparr>fni_fragments := Some (replicate (unat fragment_count) zero_pointer)\<rparr>),
                     brk := Suc a\<rparr>), h)
          else ((Some a, hp\<lparr>cells := (cells hp)(a \<mapsto> file), brk := Suc a\<rparr>), h))"

definition xfilenetindex_add_file ::
  "xFileNetworkIndex \<Rightarrow> nat option \<Rightarrow> fheap \<Rightarrow> (xFileNetworkIndex \<times> fheap) option" where
  "xfilenetindex_add_file net file hp =
     (case file of
        None \<Rightarrow> Some (net, hp)
      | Some a \<Rightarrow>
          (case net_files net of
             None \<Rightarrow>
               Some (net\<lparr>net_files := Some a, TAIL := Some a, net_file_count := net_file_count net + 1\<rparr>, hp)
           | Some _ \<Rightarrow> do {
               t \<leftarrow> TAIL net;
               node \<leftarrow> cells hp t;
               Some (net\<lparr>TAIL := Some a, net_file_count := net_file_count net + 1\<rparr>,
                     hp\<lparr>cells := (cells hp)(t \<mapsto> node\<lparr>next_file := Some a\<rparr>)\<rparr>) }))"

partial_function (option) xfilenetindex_find_from ::
  "(nat \<Rightarrow> xFileInNetwork option) \<Rightarrow> nat option \<Rightarrow> u16 \<Rightarrow> nat option option" where
  "xfilenetindex_find_from cs cur fid =
     (case cur of
        None \<Rightarrow> Some None
      | Some a \<Rightarrow>
          (case cs a of
             None \<Rightarrow> None
           | Some f \<Rightarrow>
               if fni_file_id f = fid then Some (Some a)
               else xfilenetindex_find_from cs (next_file f) fid))"

definition xfilenetindex_find_file :: "xFileNetworkIndex \<Rightarrow> fheap \<Rightarrow> u16 \<Rightarrow> nat option option" where
  "xfilenetindex_find_file net hp fid = xfilenetindex_find_from (cells hp) (net_files net) fid"

section \<open>The list on the heap\<close>

text \<open>\<open>chain cs p as\<close>: following \<open>next\<close> from \<open>p\<close> visits exactly the addresses \<open>as\<close>.\<close>

primrec chain :: "(nat \<Rightarrow> xFileInNetwork option) \<Rightarrow> nat option \<Rightarrow> nat list \<Rightarrow> bool" where
  "chain cs p [] \<longleftrightarrow> p = None"
| "chain cs p (a # as) \<longleftrightarrow>
     p = Some a \<and> (case cs a of None \<Rightarrow> False | Some f \<Rightarrow> chain cs (next_file f) as)"

text \<open>The addresses reached in at most \<open>n\<close> steps.\<close>

fun walk :: "nat \<Rightarrow> (nat \<Rightarrow> xFileInNetwork option) \<Rightarrow> nat option \<Rightarrow> nat list" where
  "walk (Suc n) cs (Some a) =
     a # (case cs a of None \<Rightarrow> [] | Some f \<Rightarrow> walk n cs (next_file f))"
| "walk _ _ _ = []"

definition index_nodes :: "xFileNetworkIndex \<Rightarrow> fheap \<Rightarrow> nat list" where
  "index_nodes net hp = walk (brk hp) (cells hp) (net_files net)"

definition fni_inv :: "xFileNetworkIndex \<Rightarrow> fheap \<Rightarrow> bool" where
  "fni_inv net hp \<longleftrightarrow>
     (let as = index_nodes net hp in
      chain (cells hp) (net_files net) as \<and> distinct as \<and> (\<forall>a \<in> set as. a < brk hp) \<and>
      TAIL net = (if as = [] then None else Some (last as)) \<and>
      net_file_count net = of_nat (length as))"

text \<open>The abstract table: file id and node address, in list order.\<close>

definition index_entries :: "xFileNetworkIndex \<Rightarrow> fheap \<Rightarrow> (u16 \<times> nat) list" where
  "index_entries net hp = map (\<lambda>a. (fni_file_id (the (cells hp a)), a)) (index_nodes net hp)"

text \<open>Allocation followed by insertion, as \<open>xprocedure_save_file_to_index\<close> and the new-file handler
  do it.\<close>

definition fni_create ::
  "os \<Rightarrow> u16 \<times> u64 \<Rightarrow> xFileNetworkIndex \<times> fheap \<times> hist \<Rightarrow> (nat \<times> xFileNetworkIndex \<times> fheap \<times> hist) option" where
  "fni_create os = (\<lambda>(fid, count) (net, hp, h).
     let ((p, hp), h) = xfilenetindex_new_file os fid count hp h in
     case p of
       None \<Rightarrow> None
     | Some a \<Rightarrow> do { (net, hp) \<leftarrow> xfilenetindex_add_file net (Some a) hp; Some (a, net, hp, h) })"

section \<open>Lemmas\<close>

lemma walk_None [simp]: "walk n cs None = []"
  by (cases n) auto

lemma chain_walk: "chain cs p as \<Longrightarrow> length as \<le> n \<Longrightarrow> walk n cs p = as"
proof (induction as arbitrary: p n)
  case (Cons a as)
  then show ?case by (cases n) (auto split: option.splits)
qed simp

lemma chain_upd [simp]: "a \<notin> set as \<Longrightarrow> chain (cs(a := v)) p as = chain cs p as"
  by (induction as arbitrary: p) (auto split: option.splits)

lemma chain_cells: "chain cs p as \<Longrightarrow> a \<in> set as \<Longrightarrow> \<exists>f. cs a = Some f"
  by (induction as arbitrary: p) (auto split: option.splits)

lemma chain_snoc:
  assumes "chain cs p (as @ [t])" and "t \<notin> set as" and "a \<noteq> t"
    and "cs t = Some node" and "cs a = Some new" and "next_file new = None"
  shows "chain (cs(t \<mapsto> node\<lparr>next_file := Some a\<rparr>)) p (as @ [t, a])"
  using assms by (induction as arbitrary: p) (auto split: option.splits)

lemma distinct_bounded_length:
  assumes "distinct as" and "\<forall>a \<in> set as. a < n"
  shows "length as \<le> (n :: nat)"
proof -
  have "card (set as) \<le> card {..<n}" using assms(2) by (intro card_mono) auto
  with distinct_card [OF assms(1)] show ?thesis by simp
qed

lemma fni_invI:
  assumes "chain (cells hp) (net_files net) as" and "distinct as" and "\<forall>a \<in> set as. a < brk hp"
    and "TAIL net = (if as = [] then None else Some (last as))"
    and "net_file_count net = of_nat (length as)"
  shows "fni_inv net hp" and "index_nodes net hp = as"
proof -
  show "index_nodes net hp = as"
    unfolding index_nodes_def
    using assms(1) distinct_bounded_length [OF assms(2,3)] by (rule chain_walk)
  with assms show "fni_inv net hp"
    by (simp add: fni_inv_def Let_def)
qed

lemma fni_invD:
  assumes "fni_inv net hp"
  shows "chain (cells hp) (net_files net) (index_nodes net hp)" and "distinct (index_nodes net hp)"
    and "\<forall>a \<in> set (index_nodes net hp). a < brk hp"
    and "TAIL net = (if index_nodes net hp = [] then None else Some (last (index_nodes net hp)))"
    and "net_file_count net = of_nat (length (index_nodes net hp))"
  using assms unfolding fni_inv_def Let_def by blast+

lemma find_from_chain:
  "chain cs p as \<Longrightarrow>
   xfilenetindex_find_from cs p fid = Some (List.find (\<lambda>a. fni_file_id (the (cs a)) = fid) as)"
proof (induction as arbitrary: p)
  case Nil
  then show ?case by (simp add: xfilenetindex_find_from.simps)
next
  case (Cons a as)
  then show ?case
    by (subst xfilenetindex_find_from.simps) (auto split: option.splits)
qed

lemma index_find_entries:
  assumes "fni_inv net hp"
  shows "xfilenetindex_find_file net hp fid = Some (map_of (index_entries net hp) fid)"
  using fni_invD(1) [OF assms]
  by (simp add: xfilenetindex_find_file_def find_from_chain index_entries_def map_of_keys)

text \<open>A fresh cell leaves the list alone.\<close>

lemma new_file_result:
  assumes "xfilenetindex_new_file os fid count hp h = ((Some a, hp'), h')"
  shows "a = brk hp" and "brk hp' = Suc a"
    and "cells hp' = (cells hp)(a \<mapsto> \<lparr>fni_file_id = fid, total_fragments = count,
           fni_fragments = (if count > 0 then Some (replicate (unat count) zero_pointer) else None),
           next_file = None\<rparr>)"
  using assms
  by (auto simp: xfilenetindex_new_file_def Let_def split: prod.splits option.splits if_splits)

lemma new_file_inv:
  assumes "fni_inv net hp" and "xfilenetindex_new_file os fid count hp h = ((Some a, hp'), h')"
  shows "fni_inv net hp'" and "index_nodes net hp' = index_nodes net hp"
    and "a \<notin> set (index_nodes net hp)"
proof -
  show new: "a \<notin> set (index_nodes net hp)"
    using new_file_result(1) [OF assms(2)] fni_invD(3) [OF assms(1)] by auto
  have c: "chain (cells hp') (net_files net) (index_nodes net hp)"
    using new_file_result(3) [OF assms(2)] fni_invD(1) [OF assms(1)] new by simp
  have b: "\<forall>a \<in> set (index_nodes net hp). a < brk hp'"
    using new_file_result(1,2) [OF assms(2)] fni_invD(3) [OF assms(1)] by auto
  note 1 = fni_invI [OF c fni_invD(2) [OF assms(1)] b fni_invD(4,5) [OF assms(1)]]
  show "fni_inv net hp'" and "index_nodes net hp' = index_nodes net hp"
    by (fact 1)+
qed

lemma add_file_list:
  assumes inv: "fni_inv net hp" and new: "a \<notin> set (index_nodes net hp)" and lt: "a < brk hp"
    and cell: "cells hp a = Some f" and nxt: "next_file f = None"
  shows "\<exists>net' hp'. xfilenetindex_add_file net (Some a) hp = Some (net', hp') \<and> fni_inv net' hp' \<and>
           index_nodes net' hp' = index_nodes net hp @ [a] \<and> brk hp' = brk hp \<and>
           (\<forall>x. cells hp' x = cells hp x \<or>
                (\<exists>g. cells hp x = Some g \<and> cells hp' x = Some (g\<lparr>next_file := Some a\<rparr>)))"
proof (cases "index_nodes net hp" rule: rev_cases)
  case Nil
  with inv have "net_files net = None" by (auto dest: fni_invD(1))
  with Nil fni_invD(5) [OF inv] cell nxt lt show ?thesis
    by (auto simp: xfilenetindex_add_file_def
        intro!: fni_invI(1) [where as = "[a]"] fni_invI(2) [where as = "[a]"])
next
  case (snoc as t)
  note d = fni_invD [OF inv, unfolded snoc]
  obtain node where node: "cells hp t = Some node" using chain_cells [OF d(1), of t] by auto
  let ?hp = "hp\<lparr>cells := (cells hp)(t \<mapsto> node\<lparr>next_file := Some a\<rparr>)\<rparr>"
  let ?net = "net\<lparr>TAIL := Some a, net_file_count := net_file_count net + 1\<rparr>"
  have add: "xfilenetindex_add_file net (Some a) hp = Some (?net, ?hp)"
    using d(1,4) node by (cases as) (auto simp: xfilenetindex_add_file_def split: option.splits)
  have "chain (cells ?hp) (net_files ?net) (as @ [t, a])"
    using chain_snoc [OF d(1)] d(2) new snoc node cell nxt by simp
  then have "fni_inv ?net ?hp" "index_nodes ?net ?hp = as @ [t, a]"
    using d(2,3,5) new snoc lt by (auto intro!: fni_invI [where as = "as @ [t, a]"])
  with add snoc node show ?thesis by auto
qed

lemma same_ids:
  assumes "\<forall>x. cells hp' x = cells hp x \<or>
             (\<exists>g. cells hp x = Some g \<and> cells hp' x = Some (g\<lparr>next_file := Some a\<rparr>))"
  shows "fni_file_id (the (cells hp' x)) = fni_file_id (the (cells hp x))"
  using assms [rule_format, of x] by auto

lemma fni_create_list:
  assumes "fni_inv net hp" and "fni_create os (fid, count) (net, hp, h) = Some (a, net', hp', h')"
  shows "fni_inv net' hp' \<and> index_entries net' hp' = index_entries net hp @ [(fid, a)]"
proof -
  from assms(2) obtain hp1 where n: "xfilenetindex_new_file os fid count hp h = ((Some a, hp1), h')"
    and ad: "xfilenetindex_add_file net (Some a) hp1 = Some (net', hp')"
    by (auto simp: fni_create_def Let_def split: prod.splits option.splits Option.bind_splits)
  note n1 = new_file_inv [OF assms(1) n] and n2 = new_file_result [OF n]
  from add_file_list [OF n1(1), of a] n1(2,3) n2 ad
  have inv: "fni_inv net' hp'" and nodes: "index_nodes net' hp' = index_nodes net hp @ [a]"
    and ids: "\<forall>x. cells hp' x = cells hp1 x \<or>
             (\<exists>g. cells hp1 x = Some g \<and> cells hp' x = Some (g\<lparr>next_file := Some a\<rparr>))"
    by auto
  have "fni_file_id (the (cells hp' x)) = fni_file_id (the (cells hp x))" if "x \<in> set (index_nodes net hp)" for x
    using same_ids [OF ids, of x] n1(3) n2(3) that by auto
  moreover have "fni_file_id (the (cells hp' a)) = fid"
    using same_ids [OF ids, of a] n2(3) by simp
  ultimately show ?thesis
    using inv nodes by (simp add: index_entries_def)
qed

text \<open>Rewriting the fragment table of a node leaves the list alone.\<close>

lemma chain_cong:
  "(\<And>x. map_option next_file (cs x) = map_option next_file (cs' x)) \<Longrightarrow> chain cs p as = chain cs' p as"
proof (induction as arbitrary: p)
  case (Cons a as)
  have "map_option next_file (cs a) = map_option next_file (cs' a)" by (rule Cons.prems)
  with Cons show ?case by (cases "cs a"; cases "cs' a") auto
qed simp

lemma table_upd:
  fixes T :: "xFragmentNetworkPointer list option"
  assumes inv: "fni_inv net hp" and f: "cells hp a = Some f"
  defines "hp' \<equiv> hp\<lparr>cells := (cells hp)(a \<mapsto> f\<lparr>fni_fragments := T\<rparr>)\<rparr>"
  shows "fni_inv net hp'" and "index_nodes net hp' = index_nodes net hp"
    and "index_entries net hp' = index_entries net hp"
proof -
  have "chain (cells hp') p as = chain (cells hp) p as" for p as
    using f by (intro chain_cong) (simp add: hp'_def)
  with fni_invD [OF inv] have c: "chain (cells hp') (net_files net) (index_nodes net hp)" by simp
  note 1 = fni_invI [OF c fni_invD(2) [OF inv] _ fni_invD(4,5) [OF inv]]
  then show "fni_inv net hp'" and nodes: "index_nodes net hp' = index_nodes net hp"
    using fni_invD(3) [OF inv] by (auto simp: hp'_def)
  show "index_entries net hp' = index_entries net hp"
    unfolding index_entries_def nodes using f by (simp add: hp'_def)
qed

text \<open>A new entry whose table was filled before it was linked in.\<close>

lemma new_entry:
  fixes T :: "xFragmentNetworkPointer list option"
  assumes inv: "fni_inv net hp" and new: "xfilenetindex_new_file os fid count hp h = ((Some a, hp1), h1)"
    and c: "cells hp1 a = Some c"
  shows "\<exists>net' hp' f. xfilenetindex_add_file net (Some a) (hp1\<lparr>cells := (cells hp1)(a \<mapsto> c\<lparr>fni_fragments := T\<rparr>)\<rparr>) =
       Some (net', hp') \<and> fni_inv net' hp' \<and> index_entries net' hp' = index_entries net hp @ [(fid, a)] \<and>
     cells hp' a = Some f \<and> fni_fragments f = T \<and> total_fragments f = count"
proof -
  let ?hp = "hp1\<lparr>cells := (cells hp1)(a \<mapsto> c\<lparr>fni_fragments := T\<rparr>)\<rparr>"
  note n1 = new_file_inv [OF inv new] and n2 = new_file_result [OF new]
  note t = table_upd [OF n1(1) c, of T]
  have cf: "next_file c = None" "fni_file_id c = fid" "total_fragments c = count" using n2(3) c by auto
  have "a \<notin> set (index_nodes net ?hp)" using t(2) n1(2,3) by simp
  moreover have "a < brk ?hp" using n2(2) by simp
  moreover have "cells ?hp a = Some (c\<lparr>fni_fragments := T\<rparr>)" "next_file (c\<lparr>fni_fragments := T\<rparr>) = None"
    using cf by simp_all
  ultimately obtain net' hp' where ad: "xfilenetindex_add_file net (Some a) ?hp = Some (net', hp')" "fni_inv net' hp'"
      "index_nodes net' hp' = index_nodes net ?hp @ [a]"
      "\<forall>x. cells hp' x = cells ?hp x \<or> (\<exists>g. cells ?hp x = Some g \<and> cells hp' x = Some (g\<lparr>next_file := Some a\<rparr>))"
    using add_file_list [OF t(1)] by blast
  have id: "fni_file_id (the (cells hp' x)) = fni_file_id (the (cells hp x))" if "x \<in> set (index_nodes net hp)" for x
    using same_ids [OF ad(4), of x] n1(3) n2(3) that by auto
  have "fni_file_id (the (cells hp' a)) = fid" using same_ids [OF ad(4), of a] cf by simp
  with ad(3) t(2) n1(2) id have "index_entries net' hp' = index_entries net hp @ [(fid, a)]"
    by (simp add: index_entries_def)
  moreover have "\<exists>f. cells hp' a = Some f \<and> fni_fragments f = T \<and> total_fragments f = count"
    using spec [OF ad(4), of a] cf by auto
  ultimately show ?thesis using ad(1,2) by blast
qed

lemma new_file_None: "xfilenetindex_new_file os fid count hp h = ((None, hp'), h') \<Longrightarrow> hp' = hp"
  by (auto simp: xfilenetindex_new_file_def Let_def split: prod.split_asm option.split_asm if_split_asm)

lemma fni_create_total:
  assumes inv: "fni_inv net hp" and mem: "\<And>h k. os_malloc os h k \<noteq> None"
  shows "\<exists>a net' hp' h' f. fni_create os (fid, count) (net, hp, h) = Some (a, net', hp', h') \<and>
     cells hp' a = Some f \<and> fni_file_id f = fid \<and> total_fragments f = count \<and>
     fni_fragments f = (if count > 0 then Some (replicate (unat count) zero_pointer) else None)"
proof -
  obtain m1 m2 where "os_malloc os h 32 = Some m1" "os_malloc os (EvMalloc 32 True # h) (unat count * 24) = Some m2"
    using mem by blast
  then obtain a hp1 h' where n: "xfilenetindex_new_file os fid count hp h = ((Some a, hp1), h')"
    by (cases "count > 0") (auto simp: xfilenetindex_new_file_def sys_malloc_def Let_def)
  note n1 = new_file_inv [OF inv n] and n2 = new_file_result [OF n]
  from add_file_list [OF n1(1), of a] n1(2,3) n2
  obtain net' hp' where ad: "xfilenetindex_add_file net (Some a) hp1 = Some (net', hp')"
    and c: "\<forall>x. cells hp' x = cells hp1 x \<or>
             (\<exists>g. cells hp1 x = Some g \<and> cells hp' x = Some (g\<lparr>next_file := Some a\<rparr>))"
    by auto
  have "fni_create os (fid, count) (net, hp, h) = Some (a, net', hp', h')"
    by (simp add: fni_create_def n ad)
  with spec [OF c, of a] n2(3) show ?thesis by auto
qed

interpretation fni_dir: directory "\<lambda>(net, hp, h). fni_inv net hp" "\<lambda>(net, hp, h). index_entries net hp"
  fst "fni_create os" "\<lambda>(net, hp, h) fid. xfilenetindex_find_file net hp fid" for os
proof unfold_locales
  fix s :: "xFileNetworkIndex \<times> fheap \<times> hist" and a p s'
  assume "case s of (net, hp, h) \<Rightarrow> fni_inv net hp" and "fni_create os a s = Some (p, s')"
  then show "case s' of (net, hp, h) \<Rightarrow> fni_inv net hp"
    and "(case s' of (net, hp, h) \<Rightarrow> index_entries net hp) =
         (case s of (net, hp, h) \<Rightarrow> index_entries net hp) @ [(fst a, p)]"
    using fni_create_list by (cases s; cases s'; cases a; force)+
qed (auto simp: index_find_entries index_entries_def o_def dest: fni_invD(2))

section \<open>Properties\<close>

definition empty_heap :: fheap where
  "empty_heap = \<lparr>cells = (\<lambda>_. None), brk = 0\<rparr>"

lemma init_inv: "fni_inv (snd xfilenetindex_init) empty_heap"
  by (rule fni_invI [where as = "[]"]) (simp_all add: xfilenetindex_init_def empty_heap_def)

text \<open>C30: Registering a file in the network index (\<open>xfilenetindex_new_file\<close> and then
  \<open>xfilenetindex_add_file\<close>) refines appending to a list: the heap list stays well formed, its
  entries are the old ones followed by the new one, and every later lookup returns the first
  entry with the id, so a registration never hides an older one and disturbs no other id.\<close>

theorem index_create_refines:
  assumes "fni_inv net hp" and "fni_create os (fid, count) (net, hp, h) = Some (a, net', hp', h')"
  shows "fni_inv net' hp' \<and> index_entries net' hp' = index_entries net hp @ [(fid, a)] \<and>
         (\<forall>k. xfilenetindex_find_file net' hp' k =
               (case map_of (index_entries net hp) k of
                  Some q \<Rightarrow> Some (Some q)
                | None \<Rightarrow> Some (if k = fid then Some a else None)))"
proof -
  have inv: "case (net, hp, h) of (net, hp, h) \<Rightarrow> fni_inv net hp" using assms(1) by simp
  from fni_dir.lookup_add [OF inv assms(2)] fni_create_list [OF assms] show ?thesis by simp
qed

theorem index_create_refines_witness:
  "\<exists>a net' hp' h'. fni_create slow_os (1, 4) (snd xfilenetindex_init, empty_heap, []) = Some (a, net', hp', h') \<and>
     index_entries net' hp' = [(1, a)] \<and> xfilenetindex_find_file net' hp' 1 = Some (Some a)"
proof -
  obtain a net' hp' h' where c: "fni_create slow_os (1, 4) (snd xfilenetindex_init, empty_heap, []) = Some (a, net', hp', h')"
    by (auto simp: fni_create_def xfilenetindex_new_file_def xfilenetindex_add_file_def xfilenetindex_init_def
        sys_malloc_def slow_os_def Let_def)
  have "index_entries (snd xfilenetindex_init) empty_heap = []"
    by (simp add: index_entries_def index_nodes_def empty_heap_def xfilenetindex_init_def)
  with index_create_refines [OF init_inv c] c show ?thesis by auto
qed

text \<open>C31: A lookup in a well-formed index returns: the walk along the \<open>next\<close> pointers ends, touches
  only allocated nodes, and its answer is NULL exactly when no entry has the id.\<close>

theorem index_find_returns:
  assumes "fni_inv net hp"
  shows "\<exists>r. xfilenetindex_find_file net hp fid = Some r \<and>
           (r = None \<longleftrightarrow> fid \<notin> fst ` set (index_entries net hp)) \<and>
           (\<forall>a. r = Some a \<longrightarrow> (\<exists>f. cells hp a = Some f \<and> fni_file_id f = fid))"
proof -
  have "map_of (index_entries net hp) fid = Some a \<Longrightarrow> \<exists>f. cells hp a = Some f \<and> fni_file_id f = fid" for a
    using chain_cells [OF fni_invD(1) [OF assms], of a]
    by (auto simp: index_entries_def dest!: map_of_SomeD)
  then show ?thesis
    by (auto simp: index_find_entries [OF assms] map_of_eq_None_iff)
qed

theorem index_find_returns_witness:
  "\<exists>r. xfilenetindex_find_file (snd xfilenetindex_init) empty_heap 7 = Some r \<and> r = None"
  using index_find_returns [OF init_inv, of 7]
  by (auto simp: index_entries_def index_nodes_def empty_heap_def xfilenetindex_init_def)

end
