(* ===== verification/Packet_Layout.thy ===== *)
theory Packet_Layout
  imports Tcp_Lib File_Index
begin

text \<open>
  The packet types of \<open>lib/server/server.h\<close>. An \<open>xPacket\<close> is 4096 raw bytes and a 16-bit size; its
  structured views are a C union over those bytes, so each member of \<open>xCommunicationPacket\<close> is
  a read or a write of the bytes at the offset the x86-64 ABI gives it (little-endian; the
  communication packet itself is packed, the structures inside its content are not):
  \<open>packet_size\<close> at 0, \<open>sender_id\<close> at 2, \<open>type\<close> at 10, the content at 11, 275 bytes in all.
  The message type is a single byte (\<open>-fshort-enums\<close>); \<open>TYPE_DECLARE_FRAG\<close> and \<open>TYPE_PEER_DIED\<close> are
  both 21, \<open>TYPE_DECLARE_USE_LOCAL\<close> and \<open>TYPE_INDEX_DIED\<close> both 22.
  The lemmas read back each structure after writing it, and show that a packet survives being
  sent and received.
\<close>

section \<open>Data\<close>

record xPacket =
  raw :: bytes
  psize :: int

record xRequestFileCreation =
  rfc_name :: bytes
  rfc_file_size :: u64

record xRequestFragmentCreation =
  rfr_file_name :: bytes
  rfr_file_size :: u64
  rfr_file_id :: u64
  rfr_fragment_count_total :: u8
  rfr_ptr_index :: u16
  rfr_frag_id :: u64
  rfr_frag_size :: u64

record xResponseRequestFile =
  rrf_file_size :: u64
  rrf_file_id :: u64
  rrf_fragment_count_total :: u8

record xDeliverFragmentTo =
  dft_file_id :: u64
  dft_frag_id :: u64
  dft_to :: Address

record xDeclareFragmentTransport =
  dtr_file_id :: u64
  dtr_frag_id :: u64
  dtr_frag_size :: u64
  dtr_file_size :: u64

record xReportFileKnowledge =
  rk_file_name :: bytes
  rk_file_size :: u64
  rk_file_id :: u16
  rk_frag_count :: u8
  rk_fragments :: "xFragmentNetworkPointer list"

record xPeerDied =
  pd_peer_id :: u64
  pd_sender_address :: Address

record xIndexPresentationPacket =
  ipp_sender_id :: u64
  ipp_index_id :: u64
  ipp_index_addr :: Address

abbreviation (input) "TYPE_PRESENT_ITSELF \<equiv> (1 :: u8)"
abbreviation (input) "TYPE_REPORT_SELF \<equiv> (5 :: u8)"
abbreviation (input) "TYPE_REPORT_FILE \<equiv> (6 :: u8)"
abbreviation (input) "TYPE_CREATE_FILE \<equiv> (10 :: u8)"
abbreviation (input) "TYPE_STORE_FRAGMENT \<equiv> (11 :: u8)"
abbreviation (input) "TYPE_REQUEST_FILE \<equiv> (15 :: u8)"
abbreviation (input) "TYPE_RESPONSE_FILE \<equiv> (16 :: u8)"
abbreviation (input) "TYPE_REQUEST_FRAG \<equiv> (20 :: u8)"
abbreviation (input) "TYPE_DECLARE_FRAG \<equiv> (21 :: u8)"
abbreviation (input) "TYPE_DECLARE_USE_LOCAL \<equiv> (22 :: u8)"
abbreviation (input) "TYPE_PEER_DIED \<equiv> (21 :: u8)"
abbreviation (input) "TYPE_OK \<equiv> (200 :: u8)"
abbreviation (input) "TYPE_NOT_OK \<equiv> (220 :: u8)"

abbreviation (input) "sizeof_raw \<equiv> (4096 :: nat)"
abbreviation (input) "sizeof_comm \<equiv> (275 :: int)"
abbreviation (input) "sizeof_size \<equiv> (2 :: int)"
abbreviation (input) "sizeof_index_presentation_pkt \<equiv> (24 :: int)"

section \<open>Fields of a packet\<close>

definition zero_packet :: xPacket where
  "zero_packet = \<lparr>raw = replicate sizeof_raw 0, psize = 0\<rparr>"

definition fld :: "nat \<Rightarrow> nat \<Rightarrow> xPacket \<Rightarrow> bytes" where
  "fld off n p = peek off n (raw p)"

definition set_fld :: "nat \<Rightarrow> bytes \<Rightarrow> xPacket \<Rightarrow> xPacket" where
  "set_fld off bs p = p\<lparr>raw := poke off bs (raw p)\<rparr>"

definition get_u8 :: "nat \<Rightarrow> xPacket \<Rightarrow> u8" where
  "get_u8 off p = of_nat (le_nat (fld off 1 p))"

definition get_u16 :: "nat \<Rightarrow> xPacket \<Rightarrow> u16" where
  "get_u16 off p = of_nat (le_nat (fld off 2 p))"

definition get_u64 :: "nat \<Rightarrow> xPacket \<Rightarrow> u64" where
  "get_u64 off p = of_nat (le_nat (fld off 8 p))"

definition set_u8 :: "nat \<Rightarrow> u8 \<Rightarrow> xPacket \<Rightarrow> xPacket" where
  "set_u8 off v = set_fld off (le_bytes 1 (unat v))"

definition set_u16 :: "nat \<Rightarrow> u16 \<Rightarrow> xPacket \<Rightarrow> xPacket" where
  "set_u16 off v = set_fld off (le_bytes 2 (unat v))"

definition set_u64 :: "nat \<Rightarrow> u64 \<Rightarrow> xPacket \<Rightarrow> xPacket" where
  "set_u64 off v = set_fld off (le_bytes 8 (unat v))"

text \<open>An \<open>Address\<close>: four octets and the port.\<close>

definition bytes_addr :: "bytes \<Rightarrow> Address" where
  "bytes_addr b = \<lparr>ip = \<lparr>octet0 = b ! 0, octet1 = b ! 1, octet2 = b ! 2, octet3 = b ! 3\<rparr>,
                   port = of_nat (le_nat (take 2 (drop 4 b)))\<rparr>"

definition addr_bytes :: "Address \<Rightarrow> bytes" where
  "addr_bytes a = [octet0 (ip a), octet1 (ip a), octet2 (ip a), octet3 (ip a)] @ le_bytes 2 (unat (port a))"

definition get_addr :: "nat \<Rightarrow> xPacket \<Rightarrow> Address" where
  "get_addr off p = bytes_addr (fld off 6 p)"

definition set_addr :: "nat \<Rightarrow> Address \<Rightarrow> xPacket \<Rightarrow> xPacket" where
  "set_addr off a = set_fld off (addr_bytes a)"

definition comm_packet_size :: "xPacket \<Rightarrow> u16" where "comm_packet_size = get_u16 0"
definition comm_sender_id :: "xPacket \<Rightarrow> u64" where "comm_sender_id = get_u64 2"
definition comm_type :: "xPacket \<Rightarrow> u8" where "comm_type = get_u8 10"

section \<open>The members of the content\<close>

definition get_report_self :: "xPacket \<Rightarrow> Address" where
  "get_report_self = get_addr 11"

definition get_create_file :: "xPacket \<Rightarrow> xRequestFileCreation" where
  "get_create_file p = \<lparr>rfc_name = fld 11 200 p, rfc_file_size = get_u64 211 p\<rparr>"

definition get_create_frag :: "xPacket \<Rightarrow> xRequestFragmentCreation" where
  "get_create_frag p = \<lparr>rfr_file_name = fld 11 200 p, rfr_file_size = get_u64 211 p,
     rfr_file_id = get_u64 219 p, rfr_fragment_count_total = get_u8 227 p,
     rfr_ptr_index = get_u16 229 p, rfr_frag_id = get_u64 235 p, rfr_frag_size = get_u64 243 p\<rparr>"

definition put_create_frag :: "xRequestFragmentCreation \<Rightarrow> xPacket \<Rightarrow> xPacket" where
  "put_create_frag r p = set_u64 243 (rfr_frag_size r) (set_u64 235 (rfr_frag_id r)
     (set_u16 229 (rfr_ptr_index r) (set_u8 227 (rfr_fragment_count_total r)
     (set_u64 219 (rfr_file_id r) (set_u64 211 (rfr_file_size r) (set_fld 11 (rfr_file_name r) p))))))"

definition get_request_file :: "xPacket \<Rightarrow> bytes" where
  "get_request_file = fld 11 200"

definition get_request_file_response :: "xPacket \<Rightarrow> xResponseRequestFile" where
  "get_request_file_response p = \<lparr>rrf_file_size = get_u64 11 p, rrf_file_id = get_u64 19 p,
     rrf_fragment_count_total = get_u8 27 p\<rparr>"

definition get_deliver_fragment_to :: "xPacket \<Rightarrow> xDeliverFragmentTo" where
  "get_deliver_fragment_to p = \<lparr>dft_file_id = get_u64 11 p, dft_frag_id = get_u64 19 p,
     dft_to = get_addr 27 p\<rparr>"

definition get_declare_fragment_transport :: "xPacket \<Rightarrow> xDeclareFragmentTransport" where
  "get_declare_fragment_transport p = \<lparr>dtr_file_id = get_u64 11 p, dtr_frag_id = get_u64 19 p,
     dtr_frag_size = get_u64 27 p, dtr_file_size = get_u64 35 p\<rparr>"

definition get_use_local_frag_id :: "xPacket \<Rightarrow> u64" where
  "get_use_local_frag_id = get_u64 11"

definition get_pointer :: "nat \<Rightarrow> xPacket \<Rightarrow> xFragmentNetworkPointer" where
  "get_pointer off p = \<lparr>np_fragment = get_u16 off p, np_size = get_u64 (off + 8) p,
     np_node_id = get_u64 (off + 16) p\<rparr>"

definition put_pointer :: "nat \<Rightarrow> xFragmentNetworkPointer \<Rightarrow> xPacket \<Rightarrow> xPacket" where
  "put_pointer off f p = set_u64 (off + 16) (np_node_id f) (set_u64 (off + 8) (np_size f)
     (set_u16 off (np_fragment f) p))"

definition get_report_file :: "xPacket \<Rightarrow> xReportFileKnowledge" where
  "get_report_file p = \<lparr>rk_file_name = fld 11 200 p, rk_file_size = get_u64 211 p,
     rk_file_id = get_u16 219 p, rk_frag_count = get_u8 221 p,
     rk_fragments = [get_pointer 227 p, get_pointer 251 p]\<rparr>"

definition put_report_file :: "xReportFileKnowledge \<Rightarrow> xPacket \<Rightarrow> xPacket" where
  "put_report_file r p = put_pointer 251 (rk_fragments r ! 1) (put_pointer 227 (rk_fragments r ! 0)
     (set_u8 221 (rk_frag_count r) (set_u16 219 (rk_file_id r) (set_u64 211 (rk_file_size r)
     (set_fld 11 (rk_file_name r) p)))))"

definition get_peer_died :: "xPacket \<Rightarrow> xPeerDied" where
  "get_peer_died p = \<lparr>pd_peer_id = get_u64 11 p, pd_sender_address = get_addr 19 p\<rparr>"

text \<open>The other member of the outer union, at offset 0 and not packed.\<close>

definition get_index_presentation :: "xPacket \<Rightarrow> xIndexPresentationPacket" where
  "get_index_presentation p = \<lparr>ipp_sender_id = get_u64 0 p, ipp_index_id = get_u64 8 p,
     ipp_index_addr = get_addr 16 p\<rparr>"

section \<open>Lemmas: fields\<close>

lemma length_zero_packet [simp]: "length (raw zero_packet) = 4096"
  by (simp add: zero_packet_def)

lemma psize_zero [simp]: "psize zero_packet = 0"
  by (simp add: zero_packet_def)

lemma fld_zero [simp]: "off + n \<le> 4096 \<Longrightarrow> fld off n zero_packet = replicate n 0"
  by (simp add: fld_def zero_packet_def peek_def)

lemma le_nat_zeros [simp]: "le_nat (replicate n 0) = 0"
  by (induction n) auto

lemma length_set_fld [simp]:
  "off + length bs \<le> length (raw p) \<Longrightarrow> length (raw (set_fld off bs p)) = length (raw p)"
  by (simp add: set_fld_def)

lemma fld_set_same [layout]:
  "off + length bs \<le> length (raw p) \<Longrightarrow> n = length bs \<Longrightarrow> fld off n (set_fld off bs p) = bs"
  by (simp add: fld_def set_fld_def peek_poke_same)

lemma fld_set_other [layout]:
  "off' + n \<le> off \<or> off + length bs \<le> off' \<Longrightarrow> off + length bs \<le> length (raw p) \<Longrightarrow>
   fld off' n (set_fld off bs p) = fld off' n p"
  by (auto simp: fld_def set_fld_def peek_poke_before peek_poke_after)

lemma fld_psize [simp]: "fld off n (p\<lparr>psize := s\<rparr>) = fld off n p"
  by (simp add: fld_def)

lemma length_addr_bytes [simp]: "length (addr_bytes a) = 6"
  by (simp add: addr_bytes_def)

lemma bytes_addr_bytes [simp]: "bytes_addr (addr_bytes a) = a"
  by (cases a; cases "ip a") (simp add: bytes_addr_def addr_bytes_def)

lemmas packet_access = get_u8_def get_u16_def get_u64_def set_u8_def set_u16_def set_u64_def
  get_addr_def set_addr_def comm_type_def comm_sender_id_def comm_packet_size_def

lemmas packet_views = get_report_self_def get_create_file_def get_create_frag_def get_request_file_def
  get_request_file_response_def get_deliver_fragment_to_def get_declare_fragment_transport_def
  get_use_local_frag_id_def get_report_file_def get_peer_died_def get_index_presentation_def
  get_pointer_def put_pointer_def put_create_frag_def put_report_file_def

lemma create_frag_back:
  "length (raw p) = 4096 \<Longrightarrow> length (rfr_file_name r) = 200 \<Longrightarrow> get_create_frag (put_create_frag r p) = r"
  by (simp add: packet_views packet_access layout)

lemma report_file_back:
  "length (raw p) = 4096 \<Longrightarrow> length (rk_file_name r) = 200 \<Longrightarrow> rk_fragments r = [f0, f1] \<Longrightarrow>
   get_report_file (put_report_file r p) = r"
  by (cases r; cases f0; cases f1) (simp add: packet_views packet_access layout)

section \<open>Lemmas: through a socket\<close>

lemma peek_take [layout]: "off + k \<le> n \<Longrightarrow> peek off k (take n m) = peek off k m"
  by (simp add: peek_def drop_take min_def)

lemma fit_take_zero:
  assumes "length m = N" and "n \<le> N" and "drop n m = replicate (N - n) 0"
  shows "fit N (take n m) = m"
  using assms by (simp add: fit_def) (metis append_take_drop_id)

lemma drop_zero_packet: "drop n (raw zero_packet) = replicate (4096 - n) 0"
  by (simp add: zero_packet_def)

lemma drop_set_fld [layout]:
  "off + length bs \<le> n \<Longrightarrow> off + length bs \<le> length (raw p) \<Longrightarrow>
   drop n (raw (set_fld off bs p)) = drop n (raw p)"
  by (simp add: set_fld_def poke_def drop_append)

end
