(* ===== verification/Server_Core.thy ===== *)
theory Server_Core
  imports Cmd_Args File_Store Packet_Layout
begin

text \<open>
  \<open>lib/server/server.h\<close> and \<open>server.c\<close>: the \<open>Server\<close> structure, its initialisation, the ring
  neighbours, sending and waiting for packets, the bucket-wise transfer of large buffers, the
  index's table of peer addresses, and the packet constructors.
  \<open>uMachineState\<close> is a C union; here it is a datatype with one constructor per member that the
  program uses, so a handler that reads a member other than the one last written has no
  result. Members of a structure the code leaves unset on some path are \<open>option\<close>s. The logging
  functions are not modelled; the \<open>NULL\<close> checks on \<open>sv\<close> are dropped because every caller passes
  the address of a variable.
\<close>

section \<open>Data\<close>

datatype eServerState =
    SERVER_BOOTING
  | SERVER_CONNECTING
  | SERVER_BEGIN_OPERATION
  | SERVER_IDLE
  | SERVER_RECEIVED_PACKET
  | SERVER_WAITING_RAW_PACKETS
  | SERVER_RECEIVED_FRAGMENT
  | SERVER_WAIT_REQUEST_FRAGMENTS
  | SERVER_INDEX_PRESENT_ITSELF
  | SERVER_INDEX_WAITING_PEERS_KNOWLEDGE
  | SERVER_INDEX_HANDLE_DEAD_PEER
  | SERVER_INDEX_HANDLE_NEW_FILE
  | SERVER_INDEX_FANOUT_FRAGMENTS
  | SERVER_INDEX_REQUEST_FRAGMENTS
  | SERVER_WAIT_INDEX_GOSSIP
  | SERVER_REPORT_KNOWLEDGE_TO_INDEX
  | SERVER_WAITING_NEW_PEER
  | SERVER_OTHER

record xPeerConnection =
  pc_node_id :: u64
  pc_ip :: Address
  stream_fd :: int
  pc_open :: bool
  pc_tx :: u64
  pc_rx :: u64

record xIndexData =
  peer_ips :: "Address list"
  known_peers :: u64

record StateRawPackets =
  rp_trigger_pkt :: u8
  rp_n_pkts :: u64
  rp_total_size :: u64
  rp_client_fd :: int
  rp_fc :: "xRequestFileCreation option"
  rp_fragc :: "xRequestFragmentCreation option"
  rp_buffer :: "bytes option"

record StateRequestedFile =
  rq_name :: bytes
  rq_from_fd :: int
  rq_file_id :: int
  rq_file_size :: u64
  rq_fragment_count :: int
  rq_fragment_found :: "int option"
  rq_deliver_to :: "u64 option"
  rq_buffer :: "bytes option"

datatype uMachineState =
    MSUnset
  | MSIndexWaitingPeers u64
  | MSReceivedPacket xPacket int
  | MSRawPackets StateRawPackets
  | MSHandleNewFile "nat option" "bytes option"
  | MSRequestedFile StateRequestedFile

record Server =
  me_ip :: Address
  me_node_id :: u64
  peer_f :: xPeerConnection
  peer_b :: xPeerConnection
  sv_state :: eServerState
  state_changed_at :: u64
  machine_state :: uMachineState
  net_size :: u64
  death_count :: u64
  sv_index :: xPeerConnection
  index_data :: "xIndexData option"
  listener_fd :: int
  client_fd :: int

abbreviation (input) "CLIENT_NODE_ID \<equiv> (- 1 :: u64)"
abbreviation (input) "SERVER_BUCKET_SIZE \<equiv> (4096 :: int)"
abbreviation (input) "MINIMAL_SIZE_FOR_SPLIT \<equiv> (100 :: u64)"

section \<open>Initialisation\<close>

text \<open>\<open>sv\<close> is the uninitialised structure on the stack of \<open>main\<close>; the ids are converted from
  \<open>int\<close>. A network size of 0 would divide by zero.\<close>

definition server_init :: "os \<Rightarrow> Server \<Rightarrow> Args \<Rightarrow> hist \<Rightarrow> ((int \<times> Server) \<times> hist) option" where
  "server_init os sv opts h =
     (let sv = sv\<lparr>me_node_id := u64_of_int (arg_id opts)\<rparr>;
          (r, a) = address_from_string (Some (me_ip sv)) (Some (arg_ip opts));
          sv = sv\<lparr>me_ip := the a\<rparr> in
      if r = 0 then Some ((0, sv), h) else
      let sv = sv\<lparr>peer_f := (peer_f sv)\<lparr>pc_node_id := u64_of_int (arg_peer_id opts)\<rparr>\<rparr>;
          (r, a) = address_from_string (Some (pc_ip (peer_f sv))) (Some (arg_peer_ip opts));
          sv = sv\<lparr>peer_f := (peer_f sv)\<lparr>pc_ip := the a\<rparr>\<rparr> in
      if r = 0 then Some ((0, sv), h) else
      let n = u64_of_int (arg_netsize opts) in
      if n = 0 then None else
      let sv = sv\<lparr>peer_f := (peer_f sv)\<lparr>stream_fd := - 1, pc_open := False\<rparr>,
                  peer_b := (peer_b sv)\<lparr>pc_node_id := (me_node_id sv - 2 + n) mod n + 1,
                                        stream_fd := - 1, pc_open := False\<rparr>,
                  sv_state := SERVER_BOOTING\<rparr>;
          (_, h) = sys_malloc os (4 * unat (net_size sv)) h;
          sv = sv\<lparr>net_size := n, death_count := 0, listener_fd := - 1, client_fd := - 1,
                  index_data := None\<rparr>
      in Some ((1, sv), h))"

definition server_open :: "os \<Rightarrow> Server \<Rightarrow> hist \<Rightarrow> (int \<times> Server) \<times> hist" where
  "server_open os sv h =
     (let (fd, h) = tcp_listen os (uint (port (me_ip sv))) h in
      if fd < 0 then ((0, sv), h) else ((1, sv\<lparr>listener_fd := fd\<rparr>), h))"

definition server_close :: "Server \<Rightarrow> hist \<Rightarrow> hist" where
  "server_close sv h =
     (let h = (if 0 < stream_fd (peer_b sv) then tcp_close (stream_fd (peer_b sv)) h else h);
          h = (if 0 < stream_fd (peer_f sv) then tcp_close (stream_fd (peer_f sv)) h else h);
          h = (if 0 < listener_fd sv then tcp_close (listener_fd sv) h else h)
      in EvFree # h)"

definition server_set_state :: "os \<Rightarrow> Server \<Rightarrow> eServerState \<Rightarrow> hist \<Rightarrow> Server \<times> hist" where
  "server_set_state os sv st h =
     (let (now, h) = current_millis os h;
          sv = sv\<lparr>sv_state := st, state_changed_at := now\<rparr>
      in (case st of
            SERVER_INDEX_WAITING_PEERS_KNOWLEDGE \<Rightarrow> sv\<lparr>machine_state := MSIndexWaitingPeers 0\<rparr>
          | _ \<Rightarrow> sv, h))"

definition server_millis_in_state :: "os \<Rightarrow> Server \<Rightarrow> hist \<Rightarrow> u64 \<times> hist" where
  "server_millis_in_state os sv h =
     (let (now, h) = current_millis os h in (now - state_changed_at sv, h))"

definition server_is_peerf_connected :: "Server \<Rightarrow> bool" where
  "server_is_peerf_connected sv = pc_open (peer_f sv)"

definition server_is_peerb_connected :: "Server \<Rightarrow> bool" where
  "server_is_peerb_connected sv = pc_open (peer_b sv)"

definition server_dial :: "os \<Rightarrow> Address \<Rightarrow> hist \<Rightarrow> int \<times> hist" where
  "server_dial os a h = tcp_open os (Some a) h"

definition server_dial_peer :: "os \<Rightarrow> Server \<Rightarrow> hist \<Rightarrow> (int \<times> Server) \<times> hist" where
  "server_dial_peer os sv h =
     (let (fd, h) = tcp_open os (Some (pc_ip (peer_f sv))) h in
      if fd < 0 then ((0, sv), h)
      else ((1, sv\<lparr>peer_f := (peer_f sv)\<lparr>stream_fd := fd, pc_open := True, pc_tx := 0, pc_rx := 0\<rparr>\<rparr>), h))"

definition server_accept :: "os \<Rightarrow> Server \<Rightarrow> hist \<Rightarrow> int \<times> hist" where
  "server_accept os sv h =
     (if listener_fd sv < 0 then (- 1, h) else
      let (fd, h) = tcp_try_accept os (listener_fd sv) h in
      if fd = NO_CONNECTION_WAITING then (NO_CONNECTION_WAITING, h)
      else if fd < 0 then (0, h) else (fd, h))"

definition server_close_socket :: "Server \<Rightarrow> int \<Rightarrow> hist \<Rightarrow> hist" where
  "server_close_socket sv fd h = (if listener_fd sv < 0 then h else tcp_close fd h)"

definition server_dial_index :: "os \<Rightarrow> Server \<Rightarrow> hist \<Rightarrow> (int \<times> Server) \<times> hist" where
  "server_dial_index os sv h =
     (let (fd, h) = tcp_open os (Some (pc_ip (sv_index sv))) h in
      if fd < 0 then ((0, sv), h)
      else ((1, sv\<lparr>sv_index := (sv_index sv)\<lparr>stream_fd := fd, pc_open := True, pc_tx := 0, pc_rx := 0\<rparr>\<rparr>), h))"

section \<open>Sending and waiting\<close>

text \<open>\<open>packet->size\<close> is an \<open>int16_t\<close> converted to \<open>size_t\<close>: a negative one is a huge length.\<close>

definition server_send_to_socket :: "os \<Rightarrow> xPacket \<Rightarrow> int \<Rightarrow> hist \<Rightarrow> (int \<times> hist) option" where
  "server_send_to_socket os p fd h =
     (if psize p < 0 then None else tcp_send os fd (raw p) (nat (psize p)) h)"

definition server_send_to_peer_f :: "os \<Rightarrow> Server \<Rightarrow> xPacket \<Rightarrow> hist \<Rightarrow> (int \<times> hist) option" where
  "server_send_to_peer_f os sv p h = server_send_to_socket os p (stream_fd (peer_f sv)) h"

definition server_send_to_index :: "os \<Rightarrow> Server \<Rightarrow> xPacket \<Rightarrow> hist \<Rightarrow> (int \<times> hist) option" where
  "server_send_to_index os sv p h = server_send_to_socket os p (stream_fd (sv_index sv)) h"

definition server_wait_from_socket :: "os \<Rightarrow> int \<Rightarrow> hist \<Rightarrow> xPacket \<times> hist" where
  "server_wait_from_socket os fd h =
     (let ((r, bs), h) = tcp_recv os fd sizeof_raw h
      in (\<lparr>raw = fit sizeof_raw bs, psize = int16 r\<rparr>, h))"

definition server_wait_from_peer_b :: "os \<Rightarrow> Server \<Rightarrow> hist \<Rightarrow> xPacket \<times> hist" where
  "server_wait_from_peer_b os sv h =
     (let ((r, bs), h) = tcp_recv os (stream_fd (peer_b sv)) sizeof_raw h
      in (\<lparr>raw = fit sizeof_raw bs, psize = int16 r\<rparr>, h))"

text \<open>Number of buckets: \<open>buffer_size / SERVER_BUCKET_SIZE + 1\<close>, with the division of C.\<close>

definition n_buckets :: "int \<Rightarrow> int" where
  "n_buckets sz = sgn sz * (\<bar>sz\<bar> div SERVER_BUCKET_SIZE) + 1"

text \<open>The loop of \<open>server_send_large_buffer_to\<close>: \<open>k\<close> buckets left, the next one is number \<open>i\<close> and
  starts at \<open>curptr\<close>; \<open>x\<close> is the packet that is reused for every bucket. The bounds \<open>st\<close> and
  \<open>end\<close> are \<open>int\<close>s and overflow is undefined.\<close>

fun send_buckets ::
  "os \<Rightarrow> int \<Rightarrow> int \<Rightarrow> bytes \<Rightarrow> nat \<Rightarrow> nat \<Rightarrow> int \<Rightarrow> xPacket \<Rightarrow> hist \<Rightarrow> hist option" where
  "send_buckets os fd buffer_size buffer 0 i curptr x h = Some h"
| "send_buckets os fd buffer_size buffer (Suc k) i curptr x h =
     (let st = int i * SERVER_BUCKET_SIZE;
          en = (if buffer_size < st + SERVER_BUCKET_SIZE then buffer_size else st + SERVER_BUCKET_SIZE);
          sz = en - st in
      if 2 ^ 31 \<le> st + SERVER_BUCKET_SIZE \<or> sz < 0 then None
      else do {
        chunk \<leftarrow> memcpy_from buffer (nat curptr) (nat sz);
        let x = (set_fld 0 chunk x)\<lparr>psize := int16 sz\<rparr>;
        (r, h) \<leftarrow> server_send_to_socket os x fd h;
        send_buckets os fd buffer_size buffer k (Suc i) (curptr + sz) x h })"

definition server_send_large_buffer_to :: "os \<Rightarrow> int \<Rightarrow> int \<Rightarrow> bytes \<Rightarrow> hist \<Rightarrow> (int \<times> hist) option" where
  "server_send_large_buffer_to os fd buffer_size buffer h = do {
     h \<leftarrow> send_buckets os fd buffer_size buffer (nat (n_buckets buffer_size)) 0 0 zero_packet h;
     Some (1, h) }"

text \<open>The loop of \<open>server_wait_large_buffer_from\<close>, with \<open>k\<close> receives to go.\<close>

fun wait_buckets :: "os \<Rightarrow> int \<Rightarrow> nat \<Rightarrow> int \<Rightarrow> bytes \<Rightarrow> hist \<Rightarrow> (bytes \<times> hist) option" where
  "wait_buckets os fd 0 populated buf h = Some (buf, h)"
| "wait_buckets os fd (Suc k) populated buf h =
     (let (p, h) = server_wait_from_socket os fd h in
      if psize p < 0 then None
      else do {
        buf \<leftarrow> memcpy_to buf (nat populated) (take (nat (psize p)) (raw p));
        wait_buckets os fd k (populated + psize p) buf h })"

definition server_wait_large_buffer_from ::
  "os \<Rightarrow> int \<Rightarrow> int \<Rightarrow> bytes \<Rightarrow> hist \<Rightarrow> ((int \<times> bytes) \<times> hist) option" where
  "server_wait_large_buffer_from os fd buffer_size buf h = do {
     (buf, h) \<leftarrow> wait_buckets os fd (nat (n_buckets buffer_size)) 0 buf h;
     Some ((1, buf), h) }"

definition server_is_index :: "Server \<Rightarrow> bool" where
  "server_is_index sv = (pc_node_id (sv_index sv) = me_node_id sv)"

definition server_wait_client_presentation :: "os \<Rightarrow> int \<Rightarrow> hist \<Rightarrow> u64 \<times> hist" where
  "server_wait_client_presentation os c h =
     (let (p, h) = server_wait_from_socket os c h in
      if psize p = 0 then (0, h)
      else if comm_type p \<noteq> TYPE_PRESENT_ITSELF then (0, h)
      else (comm_sender_id p, h))"

section \<open>The table of peers\<close>

definition server_is_valid_node :: "Server \<Rightarrow> u64 \<Rightarrow> bool option" where
  "server_is_valid_node sv n =
     (if n = 0 then Some False
      else if n = me_node_id sv then Some True
      else do {
        d \<leftarrow> index_data sv;
        a \<leftarrow> at (peer_ips d) (int_of_u64 (n - 1));
        Some (port a \<noteq> 0) })"

definition server_index_save_reported_peer :: "Server \<Rightarrow> xPacket \<Rightarrow> (u64 \<times> Server) option" where
  "server_index_save_reported_peer sv p = do {
     d \<leftarrow> index_data sv;
     ips \<leftarrow> put_at (peer_ips d) (int (unat (comm_sender_id p)) - 1) (get_report_self p);
     Some (comm_sender_id p, sv\<lparr>index_data := Some \<lparr>peer_ips = ips, known_peers = known_peers d + 1\<rparr>\<rparr>) }"

section \<open>Packet constructors\<close>

definition xpacket_new :: "Server \<Rightarrow> u8 \<Rightarrow> xPacket" where
  "xpacket_new sv ty = set_u8 10 ty (set_u64 2 (me_node_id sv) zero_packet)"

text \<open>\<open>p.size = sizeof(p.bytes.comm) + sizeof(p.size)\<close>, and the same in the packet's own field.\<close>

definition seal :: "xPacket \<Rightarrow> xPacket" where
  "seal p = set_u16 0 277 (p\<lparr>psize := sizeof_comm + sizeof_size\<rparr>)"

definition xpacket_report_self :: "Server \<Rightarrow> xPacket" where
  "xpacket_report_self sv =
     (set_addr 11 (me_ip sv) (set_u8 10 TYPE_REPORT_SELF (set_u64 2 (me_node_id sv) zero_packet)))
       \<lparr>psize := sizeof_comm\<rparr>"

definition xpacket_ok :: "Server \<Rightarrow> xPacket" where
  "xpacket_ok sv = seal (set_u8 10 TYPE_OK (set_u64 2 (me_node_id sv) zero_packet))"

definition xpacket_not_ok :: "Server \<Rightarrow> xPacket" where
  "xpacket_not_ok sv = seal (set_u8 10 TYPE_NOT_OK (set_u64 2 (me_node_id sv) zero_packet))"

definition xpacket_presentation :: "Server \<Rightarrow> xPacket" where
  "xpacket_presentation sv = seal (set_u8 10 TYPE_PRESENT_ITSELF (set_u64 2 (me_node_id sv) zero_packet))"

definition xpacket_send_fragment :: "Server \<Rightarrow> xRequestFragmentCreation \<Rightarrow> xPacket" where
  "xpacket_send_fragment sv frag =
     seal (put_create_frag frag (set_u8 10 TYPE_STORE_FRAGMENT (set_u64 2 (me_node_id sv) zero_packet)))"

definition xpacket_request_file_response :: "Server \<Rightarrow> int \<Rightarrow> u64 \<Rightarrow> int \<Rightarrow> xPacket" where
  "xpacket_request_file_response sv fid filesize frag_count =
     seal (set_u8 27 (word_of_int frag_count) (set_u64 11 filesize (set_u64 19 (u64_of_int fid)
       (set_u8 10 TYPE_RESPONSE_FILE (set_u64 2 (me_node_id sv) zero_packet)))))"

definition xpacket_peer_dead :: "Server \<Rightarrow> u64 \<Rightarrow> xPacket" where
  "xpacket_peer_dead sv peer =
     set_u16 0 275 ((set_addr 19 (me_ip sv) (set_u64 11 peer (xpacket_new sv TYPE_PEER_DIED)))
       \<lparr>psize := sizeof_comm\<rparr>)"

definition server_send_ok :: "os \<Rightarrow> Server \<Rightarrow> int \<Rightarrow> hist \<Rightarrow> (int \<times> hist) option" where
  "server_send_ok os sv fd h = server_send_to_socket os (xpacket_ok sv) fd h"

definition server_send_not_ok :: "os \<Rightarrow> Server \<Rightarrow> int \<Rightarrow> hist \<Rightarrow> (int \<times> hist) option" where
  "server_send_not_ok os sv fd h = server_send_to_socket os (xpacket_not_ok sv) fd h"

definition server_wait_ok :: "os \<Rightarrow> int \<Rightarrow> hist \<Rightarrow> bool \<times> hist" where
  "server_wait_ok os fd h =
     (let (p, h) = server_wait_from_socket os fd h in (comm_type p = TYPE_OK, h))"

definition xreqfragcreation_new ::
  "xFileContainer \<Rightarrow> xFragmentNetworkPointer \<Rightarrow> int \<Rightarrow> xRequestFragmentCreation" where
  "xreqfragcreation_new fc frag ptr_index =
     \<lparr>rfr_file_name = file_name fc, rfr_file_size = fc_size fc, rfr_file_id = ucast (file_id fc),
      rfr_fragment_count_total = fragment_count_total fc, rfr_ptr_index = word_of_int ptr_index,
      rfr_frag_id = ucast (np_fragment frag), rfr_frag_size = np_size frag\<rparr>"

section \<open>Lemmas: packets on the wire\<close>

text \<open>A packet whose bytes past its size are zero is received as it was sent.\<close>

definition wire_ok :: "xPacket \<Rightarrow> bool" where
  "wire_ok p \<longleftrightarrow> length (raw p) = 4096 \<and> 0 \<le> psize p \<and> psize p \<le> 4096 \<and>
     drop (nat (psize p)) (raw p) = replicate (4096 - nat (psize p)) 0"

lemma wire_back:
  assumes "wire_ok p" and "os_recv os h fd 4096 0 = Some (take (nat (psize p)) (raw p))"
  shows "fst (server_wait_from_socket os fd h) = p"
proof -
  from assms(1) obtain n where n: "psize p = int n" "n \<le> 4096" "length (raw p) = 4096"
      "drop n (raw p) = replicate (4096 - n) 0"
    by (auto simp: wire_ok_def dest: nonneg_int_cases)
  then have "fit 4096 (take n (raw p)) = raw p" by (intro fit_take_zero) auto
  with n assms(2) show ?thesis
    by (cases p) (simp add: server_wait_from_socket_def tcp_recv_def sys_recv_def
        recv_result_def Let_def min_absorb1 min_absorb2)
qed

lemmas xpacket_defs = xpacket_new_def xpacket_report_self_def xpacket_ok_def xpacket_not_ok_def
  xpacket_presentation_def xpacket_send_fragment_def xpacket_request_file_response_def
  xpacket_peer_dead_def seal_def

lemma psize_sets [simp]: "psize (set_fld off bs p) = psize p"
  by (simp add: set_fld_def)

lemma fld_psize_upd [simp]: "set_fld off bs (p\<lparr>psize := n\<rparr>) = (set_fld off bs p)\<lparr>psize := n\<rparr>"
  by (simp add: set_fld_def)

lemma raw_psize_upd [simp]: "raw (p\<lparr>psize := n\<rparr>) = raw p"
  by simp

lemma wire_ok_constructors:
  "wire_ok (xpacket_ok sv)" "wire_ok (xpacket_not_ok sv)" "wire_ok (xpacket_presentation sv)"
  "wire_ok (xpacket_report_self sv)" "wire_ok (xpacket_request_file_response sv fid sz n)"
  "wire_ok (xpacket_peer_dead sv peer)"
  by (simp_all add: wire_ok_def xpacket_defs packet_access layout drop_zero_packet)

lemma wire_ok_send_fragment:
  "length (rfr_file_name r) = 200 \<Longrightarrow> wire_ok (xpacket_send_fragment sv r)"
  by (simp add: wire_ok_def xpacket_defs packet_access packet_views layout drop_zero_packet)

lemma constructor_types [simp]:
  "comm_type (xpacket_ok sv) = TYPE_OK" "comm_type (xpacket_not_ok sv) = TYPE_NOT_OK"
  "comm_type (xpacket_presentation sv) = TYPE_PRESENT_ITSELF"
  "comm_type (xpacket_report_self sv) = TYPE_REPORT_SELF"
  "comm_type (xpacket_request_file_response sv fid sz n) = TYPE_RESPONSE_FILE"
  "comm_type (xpacket_peer_dead sv peer) = TYPE_PEER_DIED"
  by (simp_all add: xpacket_defs packet_access layout)

lemma constructor_senders [simp]:
  "comm_sender_id (xpacket_ok sv) = me_node_id sv" "comm_sender_id (xpacket_not_ok sv) = me_node_id sv"
  "comm_sender_id (xpacket_presentation sv) = me_node_id sv"
  "comm_sender_id (xpacket_report_self sv) = me_node_id sv"
  "comm_sender_id (xpacket_request_file_response sv fid sz n) = me_node_id sv"
  "comm_sender_id (xpacket_peer_dead sv peer) = me_node_id sv"
  by (simp_all add: xpacket_defs packet_access layout)

lemma send_fragment_fields:
  assumes "length (rfr_file_name r) = 200"
  shows "comm_type (xpacket_send_fragment sv r) = TYPE_STORE_FRAGMENT"
    and "comm_sender_id (xpacket_send_fragment sv r) = me_node_id sv"
    and "get_create_frag (xpacket_send_fragment sv r) = r"
  using assms by (simp_all add: xpacket_defs packet_access packet_views layout)

lemma request_file_response_fields:
  "get_request_file_response (xpacket_request_file_response sv fid sz n) =
     \<lparr>rrf_file_size = sz, rrf_file_id = u64_of_int fid, rrf_fragment_count_total = word_of_int n\<rparr>"
  by (simp add: xpacket_defs packet_access packet_views layout)

lemma peer_dead_fields:
  "get_peer_died (xpacket_peer_dead sv peer) = \<lparr>pd_peer_id = peer, pd_sender_address = me_ip sv\<rparr>"
  by (simp add: xpacket_defs packet_access packet_views layout)

lemma report_self_fields: "get_report_self (xpacket_report_self sv) = me_ip sv"
  by (simp add: xpacket_defs packet_access packet_views layout)

section \<open>Lemmas: large buffers\<close>

lemma send_to_socket_complete:
  assumes "patient os fd k" and "length (raw p) = 4096" and "psize p = int n" and "n \<le> 4096"
  shows "\<exists>h'. server_send_to_socket os p fd h = Some (int n, h') \<and>
              accepted fd h' = accepted fd h @ take n (raw p) \<and>
              (\<forall>f. f \<noteq> fd \<longrightarrow> accepted f h' = accepted f h) \<and>
              (eager os fd \<longrightarrow> sends fd h' = sends fd h + (if n = 0 then 0 else 1))"
proof -
  obtain h' where h': "tcp_send os fd (raw p) n h = Some (int n, h')"
    using tcp_send_complete [OF assms(1), of n "raw p" h] assms by auto
  moreover have "sends fd h' = sends fd h + (if n = 0 then 0 else 1)" if "eager os fd"
    using tcp_send_eager [OF that, of n "raw p" h] h' assms by auto
  ultimately show ?thesis
    using tcp_send_stream [OF h'] assms by (auto simp: server_send_to_socket_def)
qed

lemma n_buckets_nat: "n_buckets (int n) = int (n div 4096) + 1"
  by (cases "n = 0") (simp_all add: n_buckets_def zdiv_int)

text \<open>What is left to send after \<open>i\<close> buckets of a buffer of \<open>n\<close> bytes.\<close>

lemma send_buckets_rest:
  assumes pat: "patient os fd c" and "n < 2 ^ 31 - 4096" and "n \<le> length buf"
    and "i + k = n div 4096 + 1" and "length (raw x) = 4096"
  shows "\<exists>h'. send_buckets os fd (int n) buf k i (int (min n (i * 4096))) x h = Some h' \<and>
              accepted fd h' = accepted fd h @ drop (i * 4096) (take n buf) \<and>
              (\<forall>f. f \<noteq> fd \<longrightarrow> accepted f h' = accepted f h) \<and>
              (eager os fd \<longrightarrow> sends fd h' = sends fd h + ((n + 4095) div 4096 - i))"
  using assms(4,5)
proof (induction k arbitrary: i x h)
  case 0
  then have "n \<le> i * 4096" and "(n + 4095) div 4096 - i = 0" by linarith+
  then show ?case by simp
next
  case (Suc k)
  define sz where "sz = min n (Suc i * 4096) - i * 4096"
  have i: "i * 4096 \<le> n" using Suc.prems(1) by linarith
  have sz: "sz \<le> 4096" "i * 4096 + sz = min n (Suc i * 4096)" "i * 4096 + sz \<le> n"
    using i by (auto simp: sz_def)
  let ?chunk = "peek (i * 4096) sz buf"
  let ?x = "(set_fld 0 ?chunk x)\<lparr>psize := int sz\<rparr>"
  have len: "length ?chunk = sz" using sz assms(3) by (intro length_peek) linarith
  then have x: "length (raw ?x) = 4096" "take sz (raw ?x) = ?chunk"
    using Suc.prems(2) sz(1) by (auto simp: set_fld_def poke_def)
  obtain h1 where h1: "server_send_to_socket os ?x fd h = Some (int sz, h1)"
      "accepted fd h1 = accepted fd h @ ?chunk" "\<forall>f. f \<noteq> fd \<longrightarrow> accepted f h1 = accepted f h"
      "eager os fd \<longrightarrow> sends fd h1 = sends fd h + (if sz = 0 then 0 else 1)"
    using send_to_socket_complete [OF pat x(1) _ sz(1), of h] x(2) by auto
  obtain h' where h': "send_buckets os fd (int n) buf k (Suc i) (int (min n (Suc i * 4096))) ?x h1 = Some h'"
      "accepted fd h' = accepted fd h1 @ drop (Suc i * 4096) (take n buf)"
      "\<forall>f. f \<noteq> fd \<longrightarrow> accepted f h' = accepted f h1"
      "eager os fd \<longrightarrow> sends fd h' = sends fd h1 + ((n + 4095) div 4096 - Suc i)"
    using Suc.IH [of "Suc i" ?x h1] Suc.prems(1) x(1) by (auto simp del: mult_Suc)
  have en: "(if int n < int i * 4096 + 4096 then int n else int i * 4096 + 4096) - int i * 4096 = int sz"
    using sz by auto
  have cur: "int (min n (i * 4096)) + int sz = int (min n (Suc i * 4096))" using i sz(2) by linarith
  have st: "\<not> (2 ^ 31 \<le> int i * 4096 + 4096 \<or> int sz < 0)" using i assms(2) by auto
  have "min n (i * 4096) = i * 4096" using i by simp
  then have m: "memcpy_from buf (nat (int (min n (i * 4096)))) (nat (int sz)) = Some ?chunk"
    using sz(3) assms(3) by (simp only: nat_int memcpy_from_Some) simp
  have i16: "int16 (int sz) = int sz" using sz(1) by simp
  have "send_buckets os fd (int n) buf (Suc k) i (int (min n (i * 4096))) x h = Some h'"
    unfolding send_buckets.simps Let_def en if_not_P [OF st] m i16 bind.bind_lunit h1(1) prod.case cur
    by (rule h'(1))
  moreover have "?chunk @ drop (Suc i * 4096) (take n buf) = drop (i * 4096) (take n buf)"
  proof -
    have "drop (Suc i * 4096) (take n buf) = drop (i * 4096 + sz) (take n buf)"
      using sz(2,3) by (cases "n \<le> Suc i * 4096") (auto simp: min_absorb1 min_absorb2 add.commute)
    moreover have "?chunk = take sz (drop (i * 4096) (take n buf))"
      using sz(3) by (simp add: peek_def drop_take min_absorb1)
    ultimately show ?thesis by (simp add: add.commute flip: drop_drop)
  qed
  moreover have "(if sz = 0 then 0 else 1) + ((n + 4095) div 4096 - Suc i) = (n + 4095) div 4096 - i"
    using sz(2) i by (cases "sz = 0") (auto simp: min_def split: if_splits)
  ultimately show ?case using h1 h' by auto
qed

text \<open>A socket on which the next receives deliver the given pieces, one per call.\<close>

fun feeds :: "os \<Rightarrow> int \<Rightarrow> bytes list \<Rightarrow> hist \<Rightarrow> bool" where
  "feeds os fd [] h \<longleftrightarrow> True"
| "feeds os fd (c # cs) h \<longleftrightarrow>
     os_recv os h fd sizeof_raw 0 = Some c \<and> length c \<le> sizeof_raw \<and>
     feeds os fd cs (EvRecv fd sizeof_raw 0 (Some c) # h)"

lemma wait_from_socket_feed:
  assumes "os_recv os h fd 4096 0 = Some c" and "length c \<le> 4096"
  shows "server_wait_from_socket os fd h =
           (\<lparr>raw = fit 4096 c, psize = int (length c)\<rparr>, EvRecv fd 4096 0 (Some c) # h)"
  using assms
  by (simp add: server_wait_from_socket_def tcp_recv_def sys_recv_def recv_result_def Let_def)

lemma wait_buckets_feed:
  assumes "feeds os fd cs h" and "pos + length (concat cs) \<le> length buf"
  shows "\<exists>h'. wait_buckets os fd (length cs) (int pos) buf h =
           Some (take pos buf @ concat cs @ drop (pos + length (concat cs)) buf, h')"
  using assms
proof (induction cs arbitrary: pos buf h)
  case (Cons c cs)
  let ?h = "EvRecv fd 4096 0 (Some c) # h"
  let ?buf = "poke pos c buf"
  have c: "server_wait_from_socket os fd h = (\<lparr>raw = fit 4096 c, psize = int (length c)\<rparr>, ?h)"
    using Cons.prems(1) by (intro wait_from_socket_feed) auto
  have m: "memcpy_to buf pos (take (length c) (fit 4096 c)) = Some ?buf"
    using Cons.prems by simp
  obtain h' where "wait_buckets os fd (length cs) (int (pos + length c)) ?buf ?h =
      Some (take (pos + length c) ?buf @ concat cs @ drop (pos + length c + length (concat cs)) ?buf, h')"
    using Cons.IH [of ?h "pos + length c" ?buf] Cons.prems by (auto simp: add.assoc)
  moreover have "take (pos + length c) ?buf = take pos buf @ c"
    and "drop (pos + length c + n) ?buf = drop (pos + length c + n) buf" for n
    using Cons.prems(2) by (auto simp: poke_def add.commute)
  ultimately show ?case
    using c m by (simp add: add.assoc del: memcpy_to_Some)
qed simp

section \<open>Lemmas: the peer table\<close>

lemma u64_pred_int:
  assumes "n \<noteq> 0" and "unat (n :: u64) \<le> 2 ^ 31"
  shows "int_of_u64 (n - 1) = int (unat n) - 1"
proof -
  have "unat (n - 1) = unat n - 1"
    using assms(1) by (subst unat_sub) (auto simp: word_le_nat_alt unat_gt_0 Suc_le_eq)
  moreover have "0 < unat n" using assms(1) by (simp add: unat_gt_0)
  ultimately show ?thesis using assms(2) by simp
qed

lemma valid_node_iff:
  assumes "index_data sv = Some d" and "length (peer_ips d) \<le> 2 ^ 31"
    and "n \<noteq> 0" and "unat n \<le> length (peer_ips d)"
  shows "server_is_valid_node sv n =
           Some (n = me_node_id sv \<or> port (peer_ips d ! (unat n - 1)) \<noteq> 0)"
proof -
  have pos: "0 < unat n" using assms(3) by (simp add: unat_gt_0)
  then obtain k where k: "unat n = Suc k" by (cases "unat n") auto
  with assms u64_pred_int [of n] have "int_of_u64 (n - 1) = int k"
    by (simp only: k) simp
  with assms k show ?thesis
    by (simp add: server_is_valid_node_def)
qed

lemma set_state_fields [simp, frame]:
  "sv_state (fst (server_set_state os sv st h)) = st"
  "net_size (fst (server_set_state os sv st h)) = net_size sv"
  "death_count (fst (server_set_state os sv st h)) = death_count sv"
  "me_node_id (fst (server_set_state os sv st h)) = me_node_id sv"
  "me_ip (fst (server_set_state os sv st h)) = me_ip sv"
  "peer_f (fst (server_set_state os sv st h)) = peer_f sv"
  "peer_b (fst (server_set_state os sv st h)) = peer_b sv"
  "sv_index (fst (server_set_state os sv st h)) = sv_index sv"
  "index_data (fst (server_set_state os sv st h)) = index_data sv"
  "listener_fd (fst (server_set_state os sv st h)) = listener_fd sv"
  "client_fd (fst (server_set_state os sv st h)) = client_fd sv"
  by (simp_all add: server_set_state_def Let_def split: prod.split eServerState.split)

lemma set_state_machine [simp]:
  "machine_state (fst (server_set_state os sv st h)) =
     (if st = SERVER_INDEX_WAITING_PEERS_KNOWLEDGE then MSIndexWaitingPeers 0 else machine_state sv)"
  by (simp add: server_set_state_def Let_def split: prod.split eServerState.split)

lemma set_state_hist [simp]:
  "accepted fd (snd (server_set_state os sv st h)) = accepted fd h"
  "live (snd (server_set_state os sv st h)) = live h"
  by (simp_all add: server_set_state_def current_millis_def Let_def split: prod.split)

lemma init_predecessor:
  assumes "1 \<le> i" and "i \<le> n" and "n < 2 ^ 31"
  shows "uint ((u64_of_int i - 2 + u64_of_int n) mod u64_of_int n + 1) = (if i = 1 then n else i - 1)"
proof -
  have s: "u64_of_int i - 2 + u64_of_int n = word_of_int (i - 2 + n)"
    by (simp add: u64_of_int_def)
  have u: "uint (word_of_int k :: u64) = k" if "0 \<le> k" "k < 2 ^ 32" for k
    using that by (simp add: unsigned_of_int take_bit_int_eq_self)
  have "uint (word_of_int (i - 2 + n) :: u64) = i - 2 + n" and "uint (word_of_int n :: u64) = n"
    using assms by (auto intro!: u simp del: of_int_add of_int_diff)
  then have "uint ((word_of_int (i - 2 + n) :: u64) mod word_of_int n) = (i - 2 + n) mod n"
    by (simp only: uint_mod_distrib)
  also have m: "(i - 2 + n) mod n = (if i = 1 then n - 1 else i - 2)"
  proof (cases "i = 1")
    case True
    then have "i - 2 + n = n - 1" by simp
    moreover have "(n - 1) mod n = n - 1" using assms by (intro mod_pos_pos_trivial) auto
    ultimately show ?thesis using True by presburger
  next
    case False
    with assms show ?thesis by (simp add: mod_pos_pos_trivial)
  qed
  finally have r: "uint ((word_of_int (i - 2 + n) :: u64) mod word_of_int n) = (if i = 1 then n - 1 else i - 2)" .
  have "(word_of_int (i - 2 + n) :: u64) mod word_of_int n = word_of_int (if i = 1 then n - 1 else i - 2)"
    by (subst r [symmetric]) (rule word_of_int_uint [symmetric])
  then have "u64_of_int i - 2 + u64_of_int n = word_of_int (i - 2 + n)"
    and "(word_of_int (i - 2 + n) :: u64) mod word_of_int n + 1 = word_of_int (if i = 1 then n else i - 1)"
    by (auto simp: s)
  moreover have "uint (word_of_int (if i = 1 then n else i - 1) :: u64) = (if i = 1 then n else i - 1)"
    using assms by (intro u) auto
  ultimately show ?thesis
    by (simp only: u64_of_int_def)
qed

lemma large_buffer_sent:
  assumes "patient os fd c" and "n < 2 ^ 31 - 4096" and "n \<le> length buf"
  shows "\<exists>h'. server_send_large_buffer_to os fd (int n) buf h = Some (1, h') \<and>
              accepted fd h' = accepted fd h @ take n buf \<and>
              (\<forall>f. f \<noteq> fd \<longrightarrow> accepted f h' = accepted f h) \<and>
              (eager os fd \<longrightarrow> sends fd h' = sends fd h + (n + 4095) div 4096)"
proof -
  have k: "nat (n_buckets (int n)) = n div 4096 + 1" by (simp add: n_buckets_nat)
  show ?thesis
    using send_buckets_rest [OF assms, of 0 "n div 4096 + 1" zero_packet h]
    by (auto simp: server_send_large_buffer_to_def k simp del: send_buckets.simps)
qed

lemma server_init_starts:
  assumes "parse_args argv = (1, a)" and "arg_id a \<le> arg_netsize a"
  shows "\<exists>sv' h'. server_init os sv a h = Some ((1, sv'), h') \<and>
     sv_state sv' = SERVER_BOOTING \<and> \<not> pc_open (peer_f sv') \<and> \<not> pc_open (peer_b sv') \<and>
     index_data sv' = None \<and> death_count sv' = 0 \<and>
     me_node_id sv' = u64_of_int (arg_id a) \<and> net_size sv' = u64_of_int (arg_netsize a) \<and>
     pc_node_id (peer_f sv') = u64_of_int (arg_peer_id a) \<and>
     uint (pc_node_id (peer_b sv')) = (if arg_id a = 1 then arg_netsize a else arg_id a - 1)"
proof -
  note acc = parse_args_accepted [OF assms(1)]
  then have n: "u64_of_int (arg_netsize a) \<noteq> 0"
    by (auto simp: u64_of_int_def args_in_range_def word_of_int_eq_0_iff zdvd_not_zless)
  define b where "b = (u64_of_int (arg_id a) - 2 + u64_of_int (arg_netsize a)) mod u64_of_int (arg_netsize a) + 1"
  have "uint b = (if arg_id a = 1 then arg_netsize a else arg_id a - 1)"
    unfolding b_def using acc assms(2) by (intro init_predecessor) (auto simp: args_in_range_def)
  moreover obtain a1 where a1: "address_from_string (Some (me_ip sv)) (Some (arg_ip a)) = (1, Some a1)"
    using address_from_string_one by blast
  moreover obtain a2 where a2: "address_from_string (Some (pc_ip (peer_f sv))) (Some (arg_peer_ip a)) = (1, Some a2)"
    using address_from_string_one by blast
  ultimately show ?thesis
    using n
    by (simp add: server_init_def Let_def flip: b_def split: prod.split del: address_from_string.simps)
qed

text \<open>Concrete values for the witnesses: an address, a server with its fields at rest, and a kernel
  that takes every byte at once and answers every receive with the same bytes.\<close>

definition addr0 :: Address where
  "addr0 = \<lparr>ip = \<lparr>octet0 = 127, octet1 = 0, octet2 = 0, octet3 = 1\<rparr>, port = 52000\<rparr>"

definition peer0 :: xPeerConnection where
  "peer0 = \<lparr>pc_node_id = 0, pc_ip = addr0, stream_fd = - 1, pc_open = False, pc_tx = 0, pc_rx = 0\<rparr>"

definition server0 :: Server where
  "server0 = \<lparr>me_ip = addr0, me_node_id = 3, peer_f = peer0, peer_b = peer0, sv_state = SERVER_IDLE,
     state_changed_at = 0, machine_state = MSUnset, net_size = 4, death_count = 0, sv_index = peer0,
     index_data = None, listener_fd = 3, client_fd = - 1\<rparr>"

definition echo_os :: "bytes \<Rightarrow> os" where
  "echo_os bs = slow_os\<lparr>os_send := \<lambda>h fd bs fl. (int (length bs), False), os_recv := \<lambda>_ _ _ _. Some bs\<rparr>"

lemma echo_os_eager: "eager (echo_os bs) fd"
  by (simp add: eager_def echo_os_def)

section \<open>Properties\<close>

text \<open>C35: With a command line \<open>parse_args\<close> accepted and a node id within the network size,
  \<open>server_init\<close> succeeds whatever the structure held before: the node starts in
  \<open>SERVER_BOOTING\<close> with no connection and no index data, takes its ids and the network size from
  the arguments, and the backward neighbour it expects is its predecessor on the ring.\<close>

theorem server_init_ring:
  assumes "parse_args argv = (1, a)" and "arg_id a \<le> arg_netsize a"
  shows "\<exists>sv' h'. server_init os sv a h = Some ((1, sv'), h') \<and>
     sv_state sv' = SERVER_BOOTING \<and> \<not> pc_open (peer_f sv') \<and> \<not> pc_open (peer_b sv') \<and>
     index_data sv' = None \<and> death_count sv' = 0 \<and>
     me_node_id sv' = u64_of_int (arg_id a) \<and> net_size sv' = u64_of_int (arg_netsize a) \<and>
     pc_node_id (peer_f sv') = u64_of_int (arg_peer_id a) \<and>
     uint (pc_node_id (peer_b sv')) = (if arg_id a = 1 then arg_netsize a else arg_id a - 1)"
  by (rule server_init_starts [OF assms])

theorem server_init_ring_witness:
  "\<exists>sv' h'. server_init slow_os server0 \<lparr>arg_id = 1, arg_ip = ''localhost:52000'', arg_peer_id = 2,
        arg_peer_ip = ''localhost:52001'', arg_netsize = 4\<rparr> [] = Some ((1, sv'), h') \<and>
     sv_state sv' = SERVER_BOOTING \<and> uint (pc_node_id (peer_b sv')) = 4"
proof -
  let ?a = "\<lparr>arg_id = 1, arg_ip = ''localhost:52000'', arg_peer_id = 2,
        arg_peer_ip = ''localhost:52001'', arg_netsize = 4\<rparr>"
  have "parse_args [''./main'', ''-id'', ''1'', ''-ip'', ''localhost:52000'', ''-peer-id'', ''2'',
          ''-peer-ip'', ''localhost:52001'', ''-network-size'', ''4''] = (1, ?a)"
    by (simp add: parse_args_def atoi_def isspace_def is_digit_def digit_val_def)
  from server_init_ring [OF this, of slow_os server0 "[]"] show ?thesis by auto
qed

text \<open>C18: \<open>server_send_large_buffer_to\<close> returns and hands the kernel exactly the first
  \<open>buffer_size\<close> bytes of the buffer, in order, for every size up to the one where its \<open>int\<close>
  arithmetic would overflow, on a socket the kernel keeps draining.\<close>

theorem large_buffer_delivered:
  assumes "patient os fd c" and "n < 2 ^ 31 - 4096" and "n \<le> length buf"
  shows "\<exists>h'. server_send_large_buffer_to os fd (int n) buf h = Some (1, h') \<and>
              accepted fd h' = accepted fd h @ take n buf \<and>
              (\<forall>f. f \<noteq> fd \<longrightarrow> accepted f h' = accepted f h)"
  using large_buffer_sent [OF assms] by blast

theorem large_buffer_delivered_witness:
  "\<exists>h'. server_send_large_buffer_to slow_os 7 3 [1, 2, 3] [] = Some (1, h') \<and> accepted 7 h' = [1, 2, 3]"
  using large_buffer_delivered [OF slow_os_patient, of 3 "[1, 2, 3]" 7 "[]"] by auto

text \<open>C19: \<open>server_wait_large_buffer_from\<close> rebuilds the buffer: when the receives it makes deliver the
  pieces of the data in order, one piece per call and as many pieces as it expects, it returns
  with the data in the buffer.\<close>

theorem large_buffer_received:
  assumes "feeds os fd cs h" and "int (length cs) = n_buckets (int n)"
    and "length (concat cs) = n" and "length buf = n"
  shows "\<exists>h'. server_wait_large_buffer_from os fd (int n) buf h = Some ((1, concat cs), h')"
proof -
  have "nat (n_buckets (int n)) = length cs" using assms(2) by simp
  then show ?thesis
    using wait_buckets_feed [OF assms(1), of 0 buf] assms(3,4)
    by (auto simp: server_wait_large_buffer_from_def)
qed

theorem large_buffer_received_witness:
  "\<exists>h'. server_wait_large_buffer_from (echo_os [5, 6, 7]) 7 3 [0, 0, 0] [] = Some ((1, [5, 6, 7]), h')"
  using large_buffer_received [of "echo_os [5, 6, 7]" 7 "[[5, 6, 7]]" "[]" 3 "[0, 0, 0]"]
  by (simp add: echo_os_def n_buckets_def)



text \<open>C34: A fragment declaration survives the network: a node that receives the bytes of the packet
  \<open>xpacket_send_fragment\<close> built reads back the message type, the sender's id and every field of
  the declaration.\<close>

theorem send_fragment_roundtrip:
  assumes "length (rfr_file_name r) = 200"
    and "os_recv os h fd 4096 0 = Some (take 277 (raw (xpacket_send_fragment sv r)))"
    and "q = fst (server_wait_from_socket os fd h)"
  shows "psize q = 277 \<and> comm_type q = TYPE_STORE_FRAGMENT \<and> comm_sender_id q = me_node_id sv \<and>
         get_create_frag q = r"
proof -
  have p: "psize (xpacket_send_fragment sv r) = 277"
    by (simp add: xpacket_defs packet_access packet_views)
  then have "q = xpacket_send_fragment sv r"
    using wire_back [OF wire_ok_send_fragment [OF assms(1)], of os h fd sv] assms(2,3) by simp
  then show ?thesis using p send_fragment_fields [OF assms(1)] by simp
qed

theorem send_fragment_roundtrip_witness:
  "\<exists>r. get_create_frag (fst (server_wait_from_socket
            (echo_os (take 277 (raw (xpacket_send_fragment server0 r)))) 7 [])) = r \<and> rfr_frag_id r = 2"
proof -
  let ?r = "\<lparr>rfr_file_name = fit 200 [97], rfr_file_size = 10, rfr_file_id = 1,
     rfr_fragment_count_total = 2, rfr_ptr_index = 0, rfr_frag_id = 2, rfr_frag_size = 5\<rparr>"
  have "get_create_frag (fst (server_wait_from_socket
            (echo_os (take 277 (raw (xpacket_send_fragment server0 ?r)))) 7 [])) = ?r"
    using send_fragment_roundtrip [of ?r "echo_os (take 277 (raw (xpacket_send_fragment server0 ?r)))" "[]" 7 server0]
    by (simp add: echo_os_def)
  then show ?thesis by (intro exI [of _ ?r]) simp
qed

end
