(* ===== verification/Procedures.thy ===== *)
theory Procedures
  imports Server_Core
begin

text \<open>
  \<open>lib/machine/procedures.c\<close>: what a node does when a neighbour dies, the identification of a
  connecting client, the three requests that move a fragment (ask a holder to deliver it, tell
  the requester to use its own copy, send it), and the reconstruction of the index from the
  reports of the nodes. Every system call and every early return of the code is kept; the
  message strings are dropped.
\<close>

section \<open>Deaths on the ring\<close>

definition zero_address :: Address where
  "zero_address = \<lparr>ip = \<lparr>octet0 = 0, octet1 = 0, octet2 = 0, octet3 = 0\<rparr>, port = 0\<rparr>"

text \<open>\<open>memset(&sv->index_data->peer_ips[i], 0, sizeof(Address))\<close>\<close>

definition forget_peer :: "Server \<Rightarrow> u64 \<Rightarrow> Server option" where
  "forget_peer sv peer = do {
     d \<leftarrow> index_data sv;
     ips \<leftarrow> put_at (peer_ips d) (int_of_u64 (peer - 1)) zero_address;
     Some (sv\<lparr>index_data := Some (d\<lparr>peer_ips := ips\<rparr>)\<rparr>) }"

definition xprocedure_peer_died_forward :: "os \<Rightarrow> Server \<Rightarrow> xPacket \<Rightarrow> hist \<Rightarrow> hist option" where
  "xprocedure_peer_died_forward os sv p h = do {
     (i, h) \<leftarrow> server_send_to_peer_f os sv (set_u64 2 (me_node_id sv) p) h;
     Some h }"

definition xprocedure_peer_died_notify :: "os \<Rightarrow> Server \<Rightarrow> hist \<Rightarrow> (Server \<times> hist) option" where
  "xprocedure_peer_died_notify os sv h = do {
     h \<leftarrow> xprocedure_peer_died_forward os sv (xpacket_peer_dead sv (pc_node_id (peer_b sv))) h;
     Some (sv\<lparr>net_size := net_size sv - 1\<rparr>, h) }"

text \<open>The case \<open>TYPE_PEER_DIED\<close> of \<open>xprocedure_check_peer_b\<close>.\<close>

definition peer_died_received :: "os \<Rightarrow> Server \<Rightarrow> xPacket \<Rightarrow> hist \<Rightarrow> (Server \<times> hist) option" where
  "peer_died_received os sv p h =
     (let dead_id = pd_peer_id (get_peer_died p);
          widow = pd_sender_address (get_peer_died p);
          sv = sv\<lparr>net_size := net_size sv - 1, death_count := death_count sv + 1\<rparr> in do {
      (sv, h) \<leftarrow>
        (if pc_node_id (peer_f sv) = dead_id then
           (if net_size sv = 0 then None
            else
              let sv = sv\<lparr>peer_f := (peer_f sv)\<lparr>pc_open := False, pc_ip := widow,
                            pc_node_id := (me_node_id sv + 1) mod net_size sv\<rparr>\<rparr>;
                  ((r, sv), h) = server_dial_peer os sv h
              in Some (sv, h))
         else do {
           h \<leftarrow> xprocedure_peer_died_forward os sv p h;
           Some (sv, h) });
      if server_is_index sv then do {
        sv \<leftarrow> forget_peer sv dead_id;
        Some (sv, h) }
      else if dead_id = pc_node_id (sv_index sv) then
        Some (server_set_state os sv SERVER_BEGIN_OPERATION h)
      else Some (sv, h) })"

definition xprocedure_check_peer_b :: "os \<Rightarrow> Server \<Rightarrow> hist \<Rightarrow> (Server \<times> hist) option" where
  "xprocedure_check_peer_b os sv h =
     (let ((n, bs), h) = tcp_recv_u os (stream_fd (peer_b sv)) 4096 h in
      if n \<le> 0 then Some (sv, h)
      else
        let p = \<lparr>raw = fit sizeof_raw bs, psize = int16 n\<rparr> in
        if comm_type p = TYPE_PEER_DIED then peer_died_received os sv p h else Some (sv, h))"

text \<open>The peeked byte goes to an invalid address (\<open>buf\<close> is passed instead of \<open>&buf\<close>), so \<open>recv\<close> fails
  when there is data; its result is 0 at end of file in either case, and only that is tested.\<close>

definition server_healthcheck :: "os \<Rightarrow> Server \<Rightarrow> hist \<Rightarrow> (Server \<times> hist) option" where
  "server_healthcheck os sv h =
     (if server_is_peerb_connected sv then
        let ((n, _), h) = tcp_peek_u os (stream_fd (peer_b sv)) 1 h in
        if n = 0 then do {
          let sv = sv\<lparr>peer_b := (peer_b sv)\<lparr>pc_open := False\<rparr>, net_size := net_size sv - 1,
                      death_count := death_count sv + 1\<rparr>;
          (sv, h) \<leftarrow> xprocedure_peer_died_notify os sv h;
          sv \<leftarrow> (if server_is_index sv then forget_peer sv (pc_node_id (peer_b sv)) else Some sv);
          Some (server_set_state os sv SERVER_WAITING_NEW_PEER h) }
        else Some (sv, h)
      else Some (sv, h))"

section \<open>Identification\<close>

text \<open>The procedure hands \<open>&sv\<close> (the address of its own parameter) to \<open>xpacket_ok\<close>, so the sender id
  in the confirmation is read from the stack: it is the parameter \<open>junk\<close>.\<close>

definition xprocedure_wait_identification ::
  "os \<Rightarrow> Server \<Rightarrow> u64 \<Rightarrow> int \<Rightarrow> hist \<Rightarrow> (u64 \<times> hist) option" where
  "xprocedure_wait_identification os sv junk client h =
     (let (N, h) = server_wait_client_presentation os client h in
      if N = 0 then Some (0, tcp_close client h)
      else do {
        (sent, h) \<leftarrow> server_send_to_socket os (xpacket_ok (sv\<lparr>me_node_id := junk\<rparr>)) client h;
        if sent = 0 then Some (0, tcp_close client h) else Some (N, h) })"

section \<open>Moving fragments\<close>

definition xprocedure_send_request_fragment ::
  "os \<Rightarrow> Server \<Rightarrow> Address \<Rightarrow> int \<Rightarrow> int \<Rightarrow> Address \<Rightarrow> hist \<Rightarrow> (int \<times> hist) option" where
  "xprocedure_send_request_fragment os sv dest fid frag deliver_to h =
     (let (fd, h) = server_dial os dest h in
      if fd \<le> 0 then Some (fd, h)
      else do {
        (_, h) \<leftarrow> server_send_to_socket os (xpacket_presentation sv) fd h;
        let (ok, h) = server_wait_ok os fd h;
        if \<not> ok then Some (- 1, h)
        else do {
          let pkt = (set_addr 27 deliver_to (set_u64 19 (u64_of_int frag) (set_u64 11 (u64_of_int fid)
                      (set_u8 10 TYPE_REQUEST_FRAG (set_u64 2 (me_node_id sv) zero_packet)))))
                      \<lparr>psize := sizeof_comm + sizeof_size\<rparr>;
          (_, h) \<leftarrow> server_send_to_socket os pkt fd h;
          let (ok, h) = server_wait_ok os fd h;
          if \<not> ok then Some (- 2, h)
          else Some (1, server_close_socket sv fd h) } })"

definition xprocedure_send_use_local ::
  "os \<Rightarrow> Server \<Rightarrow> int \<Rightarrow> Address \<Rightarrow> hist \<Rightarrow> (int \<times> hist) option" where
  "xprocedure_send_use_local os sv frag deliver_to h =
     (let p = (set_u64 11 (u64_of_int frag) (xpacket_new sv TYPE_DECLARE_USE_LOCAL))\<lparr>psize := sizeof_comm\<rparr>;
          (c, h) = server_dial os deliver_to h in
      if c \<le> 0 then Some (- 1, h)
      else do {
        (_, h) \<leftarrow> server_send_to_socket os (xpacket_presentation sv) c h;
        let (ok, h) = server_wait_ok os c h;
        if \<not> ok then Some (- 2, h)
        else do {
          (_, h) \<leftarrow> server_send_to_socket os p c h;
          let (ok, h) = server_wait_ok os c h;
          if \<not> ok then Some (- 3, h)
          else Some (1, server_close_socket sv c h) } })"

definition fragment_declaration :: "Server \<Rightarrow> int \<Rightarrow> int \<Rightarrow> xFileFragment \<Rightarrow> xFileContainer \<Rightarrow> xPacket" where
  "fragment_declaration sv fid frag fragment fc =
     (set_u64 35 (fc_size fc) (set_u64 27 (fragment_size fragment) (set_u64 19 (u64_of_int frag)
       (set_u64 11 (u64_of_int fid) (set_u8 10 TYPE_DECLARE_FRAG (set_u64 2 (me_node_id sv) zero_packet))))))
       \<lparr>psize := sizeof_comm + sizeof_size\<rparr>"

definition xprocedure_send_fragment ::
  "os \<Rightarrow> Server \<Rightarrow> xFileServer \<Rightarrow> int \<Rightarrow> int \<Rightarrow> Address \<Rightarrow> hist \<Rightarrow> (int \<times> hist) option" where
  "xprocedure_send_fragment os sv fs fid frag deliver_to h =
     (let (fd, h) = server_dial os deliver_to h in
      if fd \<le> 0 then Some (0, h)
      else case xfileserver_find_file fs (u64_of_int fid) of
        None \<Rightarrow> Some (- 1, h)
      | Some i \<Rightarrow> do {
          fc \<leftarrow> at (containers fs) (int i);
          case List.find (\<lambda>f. uint (fragment_id f) = frag) (take REDUNDANCY (fragments fc)) of
            None \<Rightarrow> Some (- 2, h)
          | Some fragment \<Rightarrow> do {
              (_, h) \<leftarrow> server_send_to_socket os (xpacket_presentation sv) fd h;
              let (ok, h) = server_wait_ok os fd h;
              if \<not> ok then Some (- 3, h)
              else do {
                (_, h) \<leftarrow> server_send_to_socket os (fragment_declaration sv fid frag fragment fc) fd h;
                let (ok, h) = server_wait_ok os fd h;
                if \<not> ok then Some (- 4, h)
                else do {
                  content \<leftarrow> fragment_bytes fragment;
                  (_, h) \<leftarrow> server_send_large_buffer_to os fd (int_of_u64 (fragment_size fragment)) content h;
                  let (ok, h) = server_wait_ok os fd h;
                  if \<not> ok then Some (- 5, h)
                  else Some (1, server_close_socket sv fd h) } } } })"

section \<open>Rebuilding the index\<close>

text \<open>Where a report of two fragments goes in the table of a file: the part of
  \<open>xprocedure_save_file_to_index\<close> that writes \<open>fni->fragments\<close>.\<close>

definition place_report ::
  "xReportFileKnowledge \<Rightarrow> xFragmentNetworkPointer list \<Rightarrow> xFragmentNetworkPointer list option" where
  "place_report r table = do {
     r0 \<leftarrow> at (rk_fragments r) 0;
     r1 \<leftarrow> at (rk_fragments r) 1;
     let frag0 = uint (np_fragment r0);
     let frag1 = uint (np_fragment r1);
     let diff = frag1 - frag0;
     let last = uint (rk_frag_count r) * int REDUNDANCY - 1;
     if rk_frag_count r = 1 then do {
       t0 \<leftarrow> at table 0;
       if np_fragment t0 \<noteq> 0 then
         (if np_node_id t0 < np_node_id r0 then put_at table 1 r0
          else do { table \<leftarrow> put_at table 1 t0; put_at table 0 r0 })
       else put_at table 0 r0 }
     else if 1 < diff then do { table \<leftarrow> put_at table 0 r0; put_at table last r1 }
     else do {
       t0 \<leftarrow> (if rk_frag_count r = 2 then at table 0 else Some zero_pointer);
       if rk_frag_count r = 2 \<and> np_fragment t0 = 0 then do { table \<leftarrow> put_at table 0 r0; put_at table last r1 }
       else do {
         let place = (frag1 - 1) * int REDUNDANCY;
         table \<leftarrow> put_at table (place - 1) r0;
         put_at table place r1 } } }"

definition xprocedure_save_file_to_index ::
  "os \<Rightarrow> xFileServer \<Rightarrow> xFileNetworkIndex \<Rightarrow> fheap \<Rightarrow> xReportFileKnowledge \<Rightarrow> hist \<Rightarrow>
   (xFileServer \<times> xFileNetworkIndex \<times> fheap \<times> hist) option" where
  "xprocedure_save_file_to_index os fs net hp r h = do {
     fni \<leftarrow> xfilenetindex_find_file net hp (rk_file_id r);
     let fc = xfileserver_find_file fs (ucast (rk_file_id r));
     (fni, net, hp, h) \<leftarrow>
       (case fni of
          Some a \<Rightarrow> Some (Some a, net, hp, h)
        | None \<Rightarrow> do {
            let ((fni, hp), h) = xfilenetindex_new_file os (rk_file_id r)
                                   (ucast (rk_frag_count r) * of_nat REDUNDANCY) hp h;
            (net, hp) \<leftarrow> xfilenetindex_add_file net fni hp;
            Some (fni, net, hp, h) });
     (_, fs) \<leftarrow>
       (case fc of
          Some i \<Rightarrow> Some (Some i, fs)
        | None \<Rightarrow> xfileserver_add_file fs (rk_file_name r) (rk_file_id r) (rk_file_size r) (rk_frag_count r));
     a \<leftarrow> fni;
     node \<leftarrow> cells hp a;
     table \<leftarrow> fni_fragments node;
     table \<leftarrow> place_report r table;
     Some (fs, net, hp\<lparr>cells := (cells hp)(a \<mapsto> node\<lparr>fni_fragments := Some table\<rparr>)\<rparr>, h) }"

section \<open>Lemmas: the table of a file spread over the ring\<close>

text \<open>The table the new-file handler makes for a file split over all \<open>n\<close> nodes: fragment \<open>i\<close> (from 1) is
  on node \<open>i\<close> and on its successor; and what node \<open>k\<close> then reports.\<close>

definition ring_table :: "nat \<Rightarrow> (nat \<Rightarrow> u64) \<Rightarrow> xFragmentNetworkPointer list" where
  "ring_table n sz = map (\<lambda>j. \<lparr>np_fragment = of_nat (j div 2 + 1), np_size = sz (j div 2),
     np_node_id = of_nat (if even j then j div 2 + 1 else (j div 2 + 1) mod n + 1)\<rparr>) [0..<2 * n]"

definition ring_slots :: "nat \<Rightarrow> nat \<Rightarrow> nat \<times> nat" where
  "ring_slots n k = (if k = 1 then (0, 2 * n - 1) else (2 * k - 3, 2 * k - 2))"

definition ring_report :: "nat \<Rightarrow> (nat \<Rightarrow> u64) \<Rightarrow> bytes \<Rightarrow> u64 \<Rightarrow> u16 \<Rightarrow> nat \<Rightarrow> xReportFileKnowledge" where
  "ring_report n sz name fsz fid k =
     \<lparr>rk_file_name = name, rk_file_size = fsz, rk_file_id = fid, rk_frag_count = of_nat n,
      rk_fragments = [ring_table n sz ! fst (ring_slots n k), ring_table n sz ! snd (ring_slots n k)]\<rparr>"

fun place_all ::
  "xReportFileKnowledge list \<Rightarrow> xFragmentNetworkPointer list \<Rightarrow> xFragmentNetworkPointer list option" where
  "place_all [] table = Some table"
| "place_all (r # rs) table = do { table \<leftarrow> place_report r table; place_all rs table }"

lemma length_ring_table [simp]: "length (ring_table n sz) = 2 * n"
  by (simp add: ring_table_def)

lemma ring_slots_bound: "1 \<le> k \<Longrightarrow> k \<le> n \<Longrightarrow> fst (ring_slots n k) < 2 * n \<and> snd (ring_slots n k) < 2 * n"
  by (auto simp: ring_slots_def)

lemma ring_fragment:
  "j < 2 * n \<Longrightarrow> n \<le> 255 \<Longrightarrow> uint (np_fragment (ring_table n sz ! j)) = int (j div 2 + 1)"
  by (simp add: ring_table_def unsigned_of_nat take_bit_nat_eq_self flip: of_nat_Suc of_nat_add)

lemma place_ring_report:
  assumes n: "3 \<le> n" "n \<le> 255" and k: "1 \<le> k" "k \<le> n" and len: "length t = 2 * n"
  shows "place_report (ring_report n sz name fsz fid k) t =
     Some (t[fst (ring_slots n k) := ring_table n sz ! fst (ring_slots n k),
             snd (ring_slots n k) := ring_table n sz ! snd (ring_slots n k)])"
proof -
  have cnt: "(of_nat n :: u8) \<noteq> 1" "(of_nat n :: u8) \<noteq> 2" "uint (of_nat n :: u8) = int n"
  proof -
    show u: "uint (of_nat n :: u8) = int n" using n by (simp add: unsigned_of_nat take_bit_nat_eq_self)
    show "(of_nat n :: u8) \<noteq> 1" "(of_nat n :: u8) \<noteq> 2" using u n by (auto dest: arg_cong [where f = uint])
  qed
  show ?thesis
  proof (cases "k = 1")
    case True
    with n len show ?thesis
      using ring_fragment [of 0 n sz] ring_fragment [of "2 * n - 1" n sz]
      by (auto simp: place_report_def ring_report_def ring_slots_def cnt at_def put_at_def Let_def
          nat_diff_distrib nat_mult_distrib mult.commute)
  next
    case False
    then have s: "ring_slots n k = (2 * k - 3, 2 * k - 2)" by (simp add: ring_slots_def)
    have f: "uint (np_fragment (ring_table n sz ! (2 * k - 3))) = int k - 1"
      "uint (np_fragment (ring_table n sz ! (2 * k - 2))) = int k"
      using ring_fragment [of "2 * k - 3" n sz] ring_fragment [of "2 * k - 2" n sz] k n False by auto
    have "nat ((int k - 1) * 2 - 1) = 2 * k - 3" "nat ((int k - 1) * 2) = 2 * k - 2"
      using k False by auto
    with f k False len show ?thesis
      by (auto simp: place_report_def ring_report_def s cnt at_def put_at_def Let_def)
  qed
qed

lemma ring_slots_cover:
  assumes "j < 2 * n" and "2 \<le> n"
  shows "\<exists>k \<in> {1..n}. j = fst (ring_slots n k) \<or> j = snd (ring_slots n k)"
proof (cases "j = 0 \<or> j = 2 * n - 1")
  case True
  with assms show ?thesis by (intro bexI [of _ 1]) (auto simp: ring_slots_def)
next
  case False
  then have "(j + 3) div 2 \<noteq> 1" "(j + 3) div 2 \<in> {1..n}" "j = 2 * ((j + 3) div 2) - 3 \<or> j = 2 * ((j + 3) div 2) - 2"
    using assms by auto
  then show ?thesis by (intro bexI [of _ "(j + 3) div 2"]) (auto simp: ring_slots_def)
qed

lemma place_all_ring:
  assumes "3 \<le> n" "n \<le> 255" and "set ks \<subseteq> {1..n}" and "length t = 2 * n"
  shows "\<exists>t'. place_all (map (ring_report n sz name fsz fid) ks) t = Some t' \<and> length t' = 2 * n \<and>
     (\<forall>j < 2 * n. (\<exists>k \<in> set ks. j = fst (ring_slots n k) \<or> j = snd (ring_slots n k)) \<or> t ! j = ring_table n sz ! j
        \<longrightarrow> t' ! j = ring_table n sz ! j)"
  using assms(3,4)
proof (induction ks arbitrary: t)
  case (Cons k ks)
  let ?t = "t[fst (ring_slots n k) := ring_table n sz ! fst (ring_slots n k),
              snd (ring_slots n k) := ring_table n sz ! snd (ring_slots n k)]"
  have p: "place_report (ring_report n sz name fsz fid k) t = Some ?t"
    using Cons.prems assms(1,2) by (intro place_ring_report) auto
  have b: "fst (ring_slots n k) < 2 * n" "snd (ring_slots n k) < 2 * n"
    using Cons.prems(1) ring_slots_bound [of k n] by auto
  obtain t' where t': "place_all (map (ring_report n sz name fsz fid) ks) ?t = Some t'" "length t' = 2 * n"
     "\<forall>j < 2 * n. (\<exists>k \<in> set ks. j = fst (ring_slots n k) \<or> j = snd (ring_slots n k)) \<or> ?t ! j = ring_table n sz ! j
        \<longrightarrow> t' ! j = ring_table n sz ! j"
    using Cons.IH [of ?t] Cons.prems by auto
  have "?t ! j = ring_table n sz ! j"
    if "j = fst (ring_slots n k) \<or> j = snd (ring_slots n k) \<or> t ! j = ring_table n sz ! j" "j < 2 * n" for j
    using that b Cons.prems(2) by (auto simp: nth_list_update)
  with t' show ?case by (simp add: p)
qed simp

lemma place_all_ring_complete:
  assumes "3 \<le> n" "n \<le> 255" and "set ks = {1..n}" and "length t = 2 * n"
  shows "place_all (map (ring_report n sz name fsz fid) ks) t = Some (ring_table n sz)"
proof -
  have sub: "set ks \<subseteq> {1..n}" using assms(3) by simp
  obtain t' where t': "place_all (map (ring_report n sz name fsz fid) ks) t = Some t'" "length t' = 2 * n"
     "\<forall>j < 2 * n. (\<exists>k \<in> set ks. j = fst (ring_slots n k) \<or> j = snd (ring_slots n k)) \<or> t ! j = ring_table n sz ! j
        \<longrightarrow> t' ! j = ring_table n sz ! j"
    using place_all_ring [OF assms(1,2) sub assms(4)] by blast
  have "t' ! j = ring_table n sz ! j" if "j < 2 * n" for j
    using t'(3) that ring_slots_cover [OF that] assms(1,3) by auto
  with t' show ?thesis by (auto intro: nth_equalityI)
qed

section \<open>Lemmas: saving reports\<close>

fun save_all ::
  "os \<Rightarrow> xFileServer \<Rightarrow> xFileNetworkIndex \<Rightarrow> fheap \<Rightarrow> xReportFileKnowledge list \<Rightarrow> hist \<Rightarrow>
   (xFileServer \<times> xFileNetworkIndex \<times> fheap \<times> hist) option" where
  "save_all os fs net hp [] h = Some (fs, net, hp, h)"
| "save_all os fs net hp (r # rs) h = do {
     (fs, net, hp, h) \<leftarrow> xprocedure_save_file_to_index os fs net hp r h;
     save_all os fs net hp rs h }"

text \<open>What a file looks like in the two tables of the index once a report of it has been saved.\<close>

definition indexed ::
  "xFileServer \<Rightarrow> xFileNetworkIndex \<Rightarrow> fheap \<Rightarrow> u16 \<Rightarrow> nat \<Rightarrow> xFragmentNetworkPointer list \<Rightarrow> bool" where
  "indexed fs net hp fid a t \<longleftrightarrow>
     fs_inv fs \<and> fni_inv net hp \<and> xfileserver_find_file fs (ucast fid) \<noteq> None \<and>
     xfilenetindex_find_file net hp fid = Some (Some a) \<and>
     (\<exists>f. cells hp a = Some f \<and> fni_fragments f = Some t)"

lemma find_after_table_upd:
  assumes "fni_inv net hp" and "cells hp a = Some f"
  shows "xfilenetindex_find_file net (hp\<lparr>cells := (cells hp)(a \<mapsto> f\<lparr>fni_fragments := T\<rparr>)\<rparr>) k =
         xfilenetindex_find_file net hp k"
  using table_upd [OF assms] assms(1) by (simp add: index_find_entries)

lemma save_indexed:
  assumes ix: "indexed fs net hp (rk_file_id r) a t" and p: "place_report r t = Some t'"
  shows "\<exists>hp'. xprocedure_save_file_to_index os fs net hp r h = Some (fs, net, hp', h) \<and>
     indexed fs net hp' (rk_file_id r) a t' \<and> index_entries net hp' = index_entries net hp"
proof -
  from ix obtain f where f: "cells hp a = Some f" "fni_fragments f = Some t"
    and inv: "fs_inv fs" "fni_inv net hp" and find: "xfileserver_find_file fs (ucast (rk_file_id r)) \<noteq> None"
      "xfilenetindex_find_file net hp (rk_file_id r) = Some (Some a)"
    by (auto simp: indexed_def)
  let ?hp = "hp\<lparr>cells := (cells hp)(a \<mapsto> f\<lparr>fni_fragments := Some t'\<rparr>)\<rparr>"
  have "xprocedure_save_file_to_index os fs net hp r h = Some (fs, net, ?hp, h)"
    using f find p by (auto simp: xprocedure_save_file_to_index_def Let_def)
  moreover have "indexed fs net ?hp (rk_file_id r) a t'"
    using find inv table_upd(1) [OF inv(2) f(1)] find_after_table_upd [OF inv(2) f(1)]
    by (simp add: indexed_def)
  moreover have "index_entries net ?hp = index_entries net hp" by (rule table_upd(3) [OF inv(2) f(1)])
  ultimately show ?thesis by blast
qed

text \<open>The first report of a file makes room for it and is then placed like any other.\<close>

lemma save_first:
  assumes inv: "fs_inv fs" "fni_inv net hp" and mem: "\<And>h k. os_malloc os h k \<noteq> None"
    and new: "xfilenetindex_find_file net hp (rk_file_id r) = Some None"
    and room: "files fs \<noteq> None" "length (containers fs) < FILE_SERVER_MAX_FILES"
    and cnt: "rk_frag_count r \<noteq> 0"
  shows "\<exists>fs1 net1 hp1 h1 a. 
     indexed fs1 net1 hp1 (rk_file_id r) a (replicate (2 * unat (rk_frag_count r)) zero_pointer) \<and>
     index_entries net1 hp1 = index_entries net hp @ [(rk_file_id r, a)] \<and>
     xprocedure_save_file_to_index os fs net hp r h = xprocedure_save_file_to_index os fs1 net1 hp1 r h1"
proof -
  let ?n = "ucast (rk_frag_count r) * of_nat REDUNDANCY :: u64"
  have u: "unat ?n = 2 * unat (rk_frag_count r)"
    using unsigned_less [of "rk_frag_count r", where ?'a = nat]
    by (subst unat_mult_lem [THEN iffD1]) (auto simp: unsigned_ucast_eq take_bit_nat_eq_self)
  moreover have "0 < unat (rk_frag_count r)" using cnt by (simp add: unat_gt_0)
  ultimately have n0: "0 < ?n" by (simp add: word_less_nat_alt)
  obtain a net1 hp1 h1 f where c: "fni_create os (rk_file_id r, ?n) (net, hp, h) = Some (a, net1, hp1, h1)"
    and f: "cells hp1 a = Some f" "fni_fragments f = Some (replicate (2 * unat (rk_frag_count r)) zero_pointer)"
    using fni_create_total [OF inv(2) mem, of "rk_file_id r" ?n h] n0 u by auto
  note c1 = fni_create_list [OF inv(2) c]
  have find1: "xfilenetindex_find_file net1 hp1 (rk_file_id r) = Some (Some a)"
    using fni_dir.lookup_add_new [of "(net, hp, h)" os "(rk_file_id r, ?n)" a "(net1, hp1, h1)"] inv c new by simp
  obtain fs1 p where fs1: "(case xfileserver_find_file fs (ucast (rk_file_id r)) of Some i \<Rightarrow> Some (Some i, fs)
      | None \<Rightarrow> xfileserver_add_file fs (rk_file_name r) (rk_file_id r) (rk_file_size r) (rk_frag_count r)) =
      Some (Some p, fs1)"
    using add_file_room [OF inv(1) room, of "rk_file_name r" "rk_file_id r" "rk_file_size r" "rk_frag_count r"]
    by (cases "xfileserver_find_file fs (ucast (rk_file_id r))") auto
  have fsi: "fs_inv fs1 \<and> xfileserver_find_file fs1 (ucast (rk_file_id r)) \<noteq> None"
  proof (cases "xfileserver_find_file fs (ucast (rk_file_id r))")
    case None
    with fs1 have "fs_add (rk_file_name r, rk_file_id r, rk_file_size r, rk_frag_count r) fs = Some (p, fs1)"
      by (simp add: fs_add_def)
    with inv(1) None fs_dir.add_invar [OF inv(1) this] fs_dir.lookup_add_new [OF inv(1) this] show ?thesis by simp
  qed (use inv(1) fs1 in simp)
  have "indexed fs1 net1 hp1 (rk_file_id r) a (replicate (2 * unat (rk_frag_count r)) zero_pointer)"
    using fsi c1 find1 f by (simp add: indexed_def)
  moreover obtain hp0 where
      "xfilenetindex_new_file os (rk_file_id r) ?n hp h = ((Some a, hp0), h1)"
      "xfilenetindex_add_file net (Some a) hp0 = Some (net1, hp1)"
    using c by (auto simp: fni_create_def split: prod.splits option.splits Option.bind_splits)
  then have "xprocedure_save_file_to_index os fs net hp r h = xprocedure_save_file_to_index os fs1 net1 hp1 r h1"
    using new fs1 find1 fsi by (auto simp: xprocedure_save_file_to_index_def Let_def split: option.splits)
  ultimately show ?thesis using c1 by blast
qed

lemma save_all_indexed:
  assumes "indexed fs net hp fid a t" and "\<forall>r \<in> set rs. rk_file_id r = fid"
    and "place_all rs t = Some t'"
  shows "\<exists>hp'. save_all os fs net hp rs h = Some (fs, net, hp', h) \<and> indexed fs net hp' fid a t' \<and>
     index_entries net hp' = index_entries net hp"
  using assms
proof (induction rs arbitrary: hp t)
  case (Cons r rs)
  then obtain t1 where t1: "place_report r t = Some t1" "place_all rs t1 = Some t'"
    by (auto split: Option.bind_splits)
  from Cons.prems obtain hp1 where hp1: "xprocedure_save_file_to_index os fs net hp r h = Some (fs, net, hp1, h)"
      "indexed fs net hp1 fid a t1" "index_entries net hp1 = index_entries net hp"
    using save_indexed [of fs net hp r a t t1 os h] t1(1) by auto
  from Cons.IH [OF hp1(2)] Cons.prems(2) t1(2) hp1(1,3) show ?case by auto
qed simp

section \<open>Lemmas: deaths\<close>

lemma poke_same: "off + length bs \<le> length m \<Longrightarrow> peek off (length bs) m = bs \<Longrightarrow> poke off bs m = m"
  by (simp add: peek_def poke_def) (metis append_take_drop_id add.commute drop_drop)

lemma set_fld_same: "off + length bs \<le> length (raw p) \<Longrightarrow> fld off (length bs) p = bs \<Longrightarrow> set_fld off bs p = p"
  by (simp add: fld_def set_fld_def poke_same)

lemma peer_dead_own: "set_u64 2 (me_node_id sv) (xpacket_peer_dead sv d) = xpacket_peer_dead sv d"
  by (simp add: set_u64_def, rule set_fld_same) (simp_all add: xpacket_defs packet_access layout)

lemma peer_dead_frame [simp, frame]:
  "xpacket_peer_dead (sv\<lparr>net_size := n\<rparr>) d = xpacket_peer_dead sv d"
  "xpacket_peer_dead (sv\<lparr>death_count := m\<rparr>) d = xpacket_peer_dead sv d"
  "xpacket_peer_dead (sv\<lparr>peer_b := b\<rparr>) d = xpacket_peer_dead sv d"
  by (simp_all add: xpacket_defs)

lemma peer_dead_size: "psize (xpacket_peer_dead sv d) = 275" "length (raw (xpacket_peer_dead sv d)) = 4096"
  by (simp_all add: xpacket_defs packet_access layout)

lemma forget_peer_entry:
  assumes "index_data sv = Some d" and "length (peer_ips d) \<le> 2 ^ 31"
    and "n \<noteq> 0" and "unat n \<le> length (peer_ips d)"
  shows "forget_peer sv n =
     Some (sv\<lparr>index_data := Some (d\<lparr>peer_ips := (peer_ips d)[unat n - 1 := zero_address]\<rparr>)\<rparr>)"
proof -
  obtain k where k: "unat n = Suc k" using assms(3) by (cases "unat n") (auto simp: unat_eq_zero)
  with assms u64_pred_int [of n] have "int_of_u64 (n - 1) = int k" by (simp only: k) simp
  with assms k show ?thesis by (simp add: forget_peer_def)
qed

lemma wait_ok_obs [simp]: "accepted fd (snd (server_wait_ok os f h)) = accepted fd h"
  by (simp add: server_wait_ok_def server_wait_from_socket_def Let_def split: prod.split)
    (metis tcp_recv_obs snd_conv)

lemma dial_obs: "server_dial os a h = (fd, h') \<Longrightarrow> accepted f h' = accepted f h"
  by (auto simp: server_dial_def tcp_open_def Let_def split: if_splits)

text \<open>A peer that confirms everything it is asked to confirm on \<open>fd\<close>.\<close>

definition confirms :: "os \<Rightarrow> int \<Rightarrow> bool" where
  "confirms os fd \<longleftrightarrow> (\<forall>h. fst (server_wait_ok os fd h))"

lemma confirmsD: "confirms os fd \<Longrightarrow> \<exists>h'. server_wait_ok os fd h = (True, h') \<and> (\<forall>f. accepted f h' = accepted f h)"
  by (auto simp: confirms_def intro!: exI [of _ "snd (server_wait_ok os fd h)"] prod_eqI)

lemma fragment_declaration_fields:
  "psize (fragment_declaration sv fid frag fr fc) = 277" "length (raw (fragment_declaration sv fid frag fr fc)) = 4096"
  "comm_type (fragment_declaration sv fid frag fr fc) = TYPE_DECLARE_FRAG"
  "get_declare_fragment_transport (fragment_declaration sv fid frag fr fc) =
     \<lparr>dtr_file_id = u64_of_int fid, dtr_frag_id = u64_of_int frag, dtr_frag_size = fragment_size fr,
      dtr_file_size = fc_size fc\<rparr>"
  by (simp_all add: fragment_declaration_def packet_access packet_views layout)

lemma presentation_size: "psize (xpacket_presentation sv) = 277" "length (raw (xpacket_presentation sv)) = 4096"
  by (simp_all add: xpacket_defs packet_access)

lemma check_peer_b_death:
  assumes "os_recv os h (stream_fd (peer_b sv)) 4096 64 = Some (take 275 (raw (xpacket_peer_dead w dead)))"
  shows "xprocedure_check_peer_b os sv h = peer_died_received os sv (xpacket_peer_dead w dead)
     (EvRecv (stream_fd (peer_b sv)) 4096 64 (Some (take 275 (raw (xpacket_peer_dead w dead)))) # h)"
proof -
  let ?p = "xpacket_peer_dead w dead"
  have "drop 275 (raw ?p) = replicate (4096 - 275) 0"
    using wire_ok_constructors(6) [of w dead] peer_dead_size(1) [of w dead] by (simp add: wire_ok_def)
  then have "fit 4096 (take 275 (raw ?p)) = raw ?p"
    using peer_dead_size(2) by (intro fit_take_zero) auto
  then have "\<lparr>raw = fit 4096 (take 275 (raw ?p)), psize = int16 275\<rparr> = ?p"
    using peer_dead_size(1) [of w dead] by (cases ?p) simp
  then show ?thesis
    using assms peer_dead_size [of w dead]
    by (simp add: xprocedure_check_peer_b_def tcp_recv_u_def sys_recv_def recv_result_def min_absorb2 Let_def)
qed

lemma set_u64_size [simp]: "psize (set_u64 off v p) = psize p"
  "off + 8 \<le> length (raw p) \<Longrightarrow> length (raw (set_u64 off v p)) = length (raw p)"
  by (simp_all add: set_u64_def)

lemma healthcheck_counts:
  assumes "pc_open (peer_b sv)" and "os_recv os h (stream_fd (peer_b sv)) 1 66 = Some []"
    and "patient os (stream_fd (peer_f sv)) c" and "\<not> server_is_index sv"
  shows "\<exists>sv' h'. server_healthcheck os sv h = Some (sv', h') \<and>
     net_size sv' = net_size sv - 2 \<and> death_count sv' = death_count sv + 1 \<and>
     sv_state sv' = SERVER_WAITING_NEW_PEER \<and> \<not> pc_open (peer_b sv') \<and>
     accepted (stream_fd (peer_f sv)) h' = accepted (stream_fd (peer_f sv)) h @
       take 275 (raw (xpacket_peer_dead sv (pc_node_id (peer_b sv)))) \<and>
     me_node_id sv' = me_node_id sv \<and> listener_fd sv' = listener_fd sv"
proof -
  let ?h = "EvRecv (stream_fd (peer_b sv)) 1 66 (Some []) # h"
  let ?p = "xpacket_peer_dead sv (pc_node_id (peer_b sv))"
  have fl: "MSG_DONTWAIT OR MSG_PEEK = 66" by simp
  let ?sv = "sv\<lparr>peer_b := (peer_b sv)\<lparr>pc_open := False\<rparr>, net_size := net_size sv - 1,
                      death_count := death_count sv + 1\<rparr>"
  obtain h' where h': "server_send_to_socket os ?p (stream_fd (peer_f sv)) ?h = Some (275, h')"
     "accepted (stream_fd (peer_f sv)) h' = accepted (stream_fd (peer_f sv)) ?h @ take 275 (raw ?p)"
    using send_to_socket_complete [OF assms(3) peer_dead_size(2), where n = 275] peer_dead_size(1) by force
  obtain sv2 h2 where s: "server_set_state os (?sv\<lparr>net_size := net_size sv - 1 - 1\<rparr>) SERVER_WAITING_NEW_PEER h' = (sv2, h2)"
    by fastforce
  have "server_healthcheck os sv h = Some (sv2, h2)"
    using assms(1,2,4) h'(1) s
    by (simp add: server_healthcheck_def server_is_peerb_connected_def tcp_peek_u_def fl sys_recv_def recv_result_def
        xprocedure_peer_died_notify_def xprocedure_peer_died_forward_def server_send_to_peer_f_def
        server_is_index_def peer_dead_own Let_def)
  moreover note set_state_fields [of os "?sv\<lparr>net_size := net_size sv - 1 - 1\<rparr>" SERVER_WAITING_NEW_PEER h', unfolded s fst_conv]
    set_state_hist(1) [of _ os "?sv\<lparr>net_size := net_size sv - 1 - 1\<rparr>" SERVER_WAITING_NEW_PEER h', unfolded s snd_conv]
  ultimately show ?thesis using h'(2) by simp
qed

lemma death_closes_ring:
  assumes "os_recv os h (stream_fd (peer_b sv)) 4096 64 = Some (take 275 (raw (xpacket_peer_dead w dead)))"
    and "dead = pc_node_id (peer_f sv)" and "net_size sv \<noteq> 1" and "\<not> server_is_index sv"
    and "h1 = EvRecv (stream_fd (peer_b sv)) 4096 64 (Some (take 275 (raw (xpacket_peer_dead w dead)))) # h"
    and "tcp_open os (Some (me_ip w)) h1 = (fd, h2)"
  shows "\<exists>sv' h'. xprocedure_check_peer_b os sv h = Some (sv', h') \<and>
     net_size sv' = net_size sv - 1 \<and> death_count sv' = death_count sv + 1 \<and>
     pc_ip (peer_f sv') = me_ip w \<and> (pc_open (peer_f sv') \<longleftrightarrow> 0 \<le> fd) \<and>
     (0 \<le> fd \<longrightarrow> stream_fd (peer_f sv') = fd) \<and> (\<forall>f. accepted f h' = accepted f h) \<and>
     sv_state sv' = (if dead = pc_node_id (sv_index sv) then SERVER_BEGIN_OPERATION else sv_state sv) \<and>
     me_node_id sv' = me_node_id sv \<and> sv_index sv' = sv_index sv"
proof -
  let ?n = "net_size sv - 1"
  let ?sv = "sv\<lparr>net_size := ?n, death_count := death_count sv + 1,
      peer_f := (peer_f sv)\<lparr>pc_open := False, pc_ip := me_ip w, pc_node_id := (me_node_id sv + 1) mod ?n\<rparr>\<rparr>"
  define sv1 where "sv1 = (if fd < 0 then ?sv
     else ?sv\<lparr>peer_f := (peer_f ?sv)\<lparr>stream_fd := fd, pc_open := True, pc_tx := 0, pc_rx := 0\<rparr>\<rparr>)"
  have "\<exists>r. server_dial_peer os ?sv h1 = ((r, sv1), h2)"
    using assms(6) by (auto simp: server_dial_peer_def sv1_def)
  then obtain r where d: "server_dial_peer os ?sv h1 = ((r, sv1), h2)" ..
  have acc: "accepted f h2 = accepted f h" for f
    using assms(5,6) by (auto simp: tcp_open_def Let_def split: if_splits)
  have fr: "sv_index sv1 = sv_index sv" "me_node_id sv1 = me_node_id sv" by (simp_all add: sv1_def)
  have n: "?n \<noteq> 0" using assms(3) by simp
  have "peer_died_received os sv (xpacket_peer_dead w dead) h1 =
     (if dead = pc_node_id (sv_index sv) then Some (server_set_state os sv1 SERVER_BEGIN_OPERATION h2) else Some (sv1, h2))"
    using n d assms(2,4) fr
    by (simp add: peer_died_received_def peer_dead_fields server_is_index_def Let_def)
  then have "xprocedure_check_peer_b os sv h =
     (if dead = pc_node_id (sv_index sv) then Some (server_set_state os sv1 SERVER_BEGIN_OPERATION h2) else Some (sv1, h2))"
    using check_peer_b_death [OF assms(1)] assms(5) by simp
  with acc show ?thesis by (auto simp: ex_pair_eq sv1_def)
qed

section \<open>Properties\<close>

text \<open>C9: The index can be rebuilt. When the nodes \<open>1 \<dots> n\<close> (\<open>3 \<le> n \<le> 255\<close>) each report the two
  fragments they hold of a file spread over the whole ring, in any order and however often, the
  new index ends with the file registered once, found under its id, and with exactly the
  fragment table the previous index had made for it; both tables stay well formed.\<close>

theorem index_rebuild_ring:
  assumes "fs_inv fs" "fni_inv net hp" and mem: "\<forall>h k. os_malloc os h k \<noteq> None"
    and new: "xfilenetindex_find_file net hp fid = Some None"
    and room: "files fs \<noteq> None" "length (containers fs) < FILE_SERVER_MAX_FILES"
    and n: "3 \<le> n" "n \<le> 255" and ks: "set ks = {1..n}"
  shows "\<exists>fs' net' hp' h' a f.
     save_all os fs net hp (map (ring_report n sz name fsz fid) ks) h = Some (fs', net', hp', h') \<and>
     fs_inv fs' \<and> fni_inv net' hp' \<and> index_entries net' hp' = index_entries net hp @ [(fid, a)] \<and>
     xfilenetindex_find_file net' hp' fid = Some (Some a) \<and>
     cells hp' a = Some f \<and> fni_fragments f = Some (ring_table n sz)"
proof -
  let ?r = "ring_report n sz name fsz fid"
  obtain k ks' where ks': "ks = k # ks'" using ks n by (cases ks) auto
  have r: "rk_file_id (?r k) = fid" "unat (rk_frag_count (?r k)) = n" for k
    using n by (simp_all add: ring_report_def unsigned_of_nat take_bit_nat_eq_self)
  have c0: "rk_frag_count (?r k) \<noteq> 0" using r(2) [of k] n(1) by (metis unsigned_0 not_numeral_le_zero)
  obtain fs1 net1 hp1 h1 a where 1: "indexed fs1 net1 hp1 fid a (replicate (2 * n) zero_pointer)"
     "index_entries net1 hp1 = index_entries net hp @ [(fid, a)]"
     "xprocedure_save_file_to_index os fs net hp (?r k) h = xprocedure_save_file_to_index os fs1 net1 hp1 (?r k) h1"
    using save_first [OF assms(1,2) _ _ room c0, of os h] mem new r by auto
  have "place_all (map ?r ks) (replicate (2 * n) zero_pointer) = Some (ring_table n sz)"
    by (rule place_all_ring_complete [OF n ks]) simp
  then obtain hp' where "save_all os fs1 net1 hp1 (map ?r ks) h1 = Some (fs1, net1, hp', h1)"
     "indexed fs1 net1 hp' fid a (ring_table n sz)" "index_entries net1 hp' = index_entries net1 hp1"
    using save_all_indexed [OF 1(1), of "map ?r ks" "ring_table n sz" os h1] r(1) by auto
  with 1(2,3) show ?thesis by (auto simp: ks' indexed_def)
qed

theorem index_rebuild_ring_witness:
  "\<exists>fs' net' hp' h' a f.
     save_all slow_os empty_store (snd xfilenetindex_init) empty_heap
       (map (ring_report 3 (\<lambda>_. 50) [97] 150 1) [2, 1, 3]) [] = Some (fs', net', hp', h') \<and>
     xfilenetindex_find_file net' hp' 1 = Some (Some a) \<and>
     cells hp' a = Some f \<and> fni_fragments f = Some (ring_table 3 (\<lambda>_. 50))"
proof -
  have st: "fs_inv empty_store" "files empty_store \<noteq> None" "length (containers empty_store) < 100"
    by (simp_all add: empty_store_def fs_inv_def containers_def)
  have mem: "\<forall>h k. os_malloc slow_os h k \<noteq> None" by (simp add: slow_os_def)
  have new: "xfilenetindex_find_file (snd xfilenetindex_init) empty_heap 1 = Some None"
    by (simp add: xfilenetindex_find_file_def xfilenetindex_init_def xfilenetindex_find_from.simps)
  have "set [2, 1, 3] = {1..3 :: nat}" by auto
  from index_rebuild_ring [OF st(1) init_inv mem new st(2,3) _ _ this, of "\<lambda>_. 50" "[97]" 150 "[]"]
  show ?thesis by fastforce
qed

text \<open>C23: A node that sees its backward connection closed announces the death of that neighbour to
  its forward neighbour and waits for a new one; but it counts one death and takes two nodes
  off its network size, because both the health check and the notification decrement it.\<close>

theorem healthcheck_double_decrement:
  assumes "pc_open (peer_b sv)" and "os_recv os h (stream_fd (peer_b sv)) 1 66 = Some []"
    and "patient os (stream_fd (peer_f sv)) c" and "\<not> server_is_index sv"
  shows "\<exists>sv' h'. server_healthcheck os sv h = Some (sv', h') \<and>
     net_size sv' = net_size sv - 2 \<and> death_count sv' = death_count sv + 1 \<and>
     sv_state sv' = SERVER_WAITING_NEW_PEER \<and> \<not> pc_open (peer_b sv') \<and>
     accepted (stream_fd (peer_f sv)) h' = accepted (stream_fd (peer_f sv)) h @
       take 275 (raw (xpacket_peer_dead sv (pc_node_id (peer_b sv))))"
  using healthcheck_counts [OF assms] by blast

theorem healthcheck_double_decrement_witness:
  "\<exists>sv' h'. server_healthcheck (echo_os []) (server0\<lparr>peer_b := peer0\<lparr>pc_open := True\<rparr>\<rparr>) [] = Some (sv', h') \<and>
     net_size sv' = 2 \<and> death_count sv' = 1"
  using healthcheck_double_decrement [of "server0\<lparr>peer_b := peer0\<lparr>pc_open := True\<rparr>\<rparr>" "echo_os []" "[]" 0]
    eager_patient [OF echo_os_eager [of "[]"]]
  by (auto simp: server0_def echo_os_def server_is_index_def peer0_def)





text \<open>C10: A node that holds a fragment delivers it: when the destination accepts the connection,
  confirms each step and keeps reading, \<open>xprocedure_send_fragment\<close> returns 1, and what it sent
  on the new connection is its presentation, then the declaration of the fragment, then the
  bytes of the fragment and nothing else; the connection is closed.\<close>

theorem send_fragment_delivers:
  assumes "fs_inv fs" and "xfileserver_find_file fs (u64_of_int fid) = Some i" and "fc = containers fs ! i"
    and "List.find (\<lambda>f. uint (fragment_id f) = frag) (take REDUNDANCY (fragments fc)) = Some fr"
    and "fragment_bytes fr = Some content" and "length content = unat (fragment_size fr)" and "length content < 2 ^ 31 - 4096"
    and "server_dial os a h = (fd, h1)" and "0 < fd" and "patient os fd c" and "confirms os fd" and "0 \<le> listener_fd sv"
  shows "\<exists>h'. xprocedure_send_fragment os sv fs fid frag a h = Some (1, EvClose fd # h') \<and>
     accepted fd h' = accepted fd h @ take 277 (raw (xpacket_presentation sv)) @
       take 277 (raw (fragment_declaration sv fid frag fr fc)) @ content"
proof -
  have i: "at (containers fs) (int i) = Some fc"
    using assms(1-3) by (auto simp: xfileserver_find_file_def fs_inv_def containers_def find_Some_iff split: option.splits)
  obtain h2 where h2: "server_send_to_socket os (xpacket_presentation sv) fd h1 = Some (277, h2)"
     "accepted fd h2 = accepted fd h1 @ take 277 (raw (xpacket_presentation sv))"
    using send_to_socket_complete [OF assms(10), of "xpacket_presentation sv" 277 h1] presentation_size [of sv] by auto
  obtain h3 where h3: "server_wait_ok os fd h2 = (True, h3)" "accepted fd h3 = accepted fd h2"
    using confirmsD [OF assms(11)] by blast
  let ?p = "fragment_declaration sv fid frag fr fc"
  obtain h4 where h4: "server_send_to_socket os ?p fd h3 = Some (277, h4)" "accepted fd h4 = accepted fd h3 @ take 277 (raw ?p)"
    using send_to_socket_complete [OF assms(10), of ?p 277 h3] fragment_declaration_fields(1,2) [of sv fid frag fr fc] by auto
  obtain h5 where h5: "server_wait_ok os fd h4 = (True, h5)" "accepted fd h5 = accepted fd h4"
    using confirmsD [OF assms(11)] by blast
  have sz: "int_of_u64 (fragment_size fr) = int (length content)" using assms(6,7) by simp
  obtain h6 where h6: "server_send_large_buffer_to os fd (int (length content)) content h5 = Some (1, h6)"
     "accepted fd h6 = accepted fd h5 @ content"
    using large_buffer_sent [OF assms(10,7) order_refl, of h5] by auto
  obtain h7 where h7: "server_wait_ok os fd h6 = (True, h7)" "accepted fd h7 = accepted fd h6"
    using confirmsD [OF assms(11)] by blast
  have "xprocedure_send_fragment os sv fs fid frag a h = Some (1, EvClose fd # h7)"
    using assms(2,4,5,8,9,12) i h2(1) h3(1) h4(1) h5(1) h6(1) h7(1) sz
    by (simp add: xprocedure_send_fragment_def server_close_socket_def tcp_close_def)
  with h2(2) h3(2) h4(2) h5(2) h6(2) h7(2) dial_obs [OF assms(8), of fd] show ?thesis by simp
qed

definition one_file_store :: xFileServer where
  "one_file_store = \<lparr>file_count = 1, files = Some [zero_container\<lparr>file_id := 1, fc_size := 4, fragment_count_total := 2,
     fragments := [zero_fragment, \<lparr>fragment_id = 2, fragment_bytes = Some [8, 9], fragment_size = 2\<rparr>]\<rparr>]\<rparr>"

text \<open>A kernel that also lets every connection through.\<close>

definition open_os :: "bytes \<Rightarrow> os" where
  "open_os bs = (echo_os bs)\<lparr>os_connect := \<lambda>_ _ _. 0\<rparr>"

lemma open_os_eager: "eager (open_os bs) fd"
  by (simp add: eager_def open_os_def echo_os_def)

lemma confirms_open: "confirms (open_os (take 277 (raw (xpacket_ok sv)))) fd"
proof -
  have "psize (xpacket_ok sv) = 277" by (simp add: xpacket_defs packet_access)
  then have "fst (server_wait_from_socket (open_os (take 277 (raw (xpacket_ok sv)))) fd h) = xpacket_ok sv" for h
    using wire_back [OF wire_ok_constructors(1), of "open_os (take 277 (raw (xpacket_ok sv)))" h fd sv]
    by (simp add: open_os_def echo_os_def)
  then show ?thesis by (simp add: confirms_def server_wait_ok_def split_def)
qed

theorem send_fragment_delivers_witness:
  "\<exists>h'. xprocedure_send_fragment (open_os (take 277 (raw (xpacket_ok server0)))) server0 one_file_store 1 2 addr0 [] =
          Some (1, EvClose 3 # h') \<and> drop 554 (accepted 3 h') = [8, 9]"
proof -
  let ?os = "open_os (take 277 (raw (xpacket_ok server0)))"
  let ?fr = "\<lparr>fragment_id = 2, fragment_bytes = Some [8, 9], fragment_size = 2\<rparr>"
  let ?fc = "zero_container\<lparr>file_id := 1, fc_size := 4, fragment_count_total := 2, fragments := [zero_fragment, ?fr]\<rparr>"
  have "server_dial ?os addr0 [] = (3, [EvConnect 3 addr0 0, EvSocket 3])"
    by (simp add: server_dial_def tcp_open_def open_os_def echo_os_def slow_os_def)
  moreover have "fs_inv one_file_store" "xfileserver_find_file one_file_store (u64_of_int 1) = Some 0"
    "?fc = containers one_file_store ! 0" "0 \<le> listener_fd server0"
    by (simp_all add: one_file_store_def fs_inv_def container_ok_def zero_container_def containers_def
        xfileserver_find_file_def u64_of_int_def server0_def)
  moreover have "List.find (\<lambda>f. uint (fragment_id f) = 2) (take 2 (fragments ?fc)) = Some ?fr"
    by (simp add: zero_fragment_def)
  moreover have "patient ?os 3 0" by (rule eager_patient [OF open_os_eager])
  ultimately obtain h' where "xprocedure_send_fragment ?os server0 one_file_store 1 2 addr0 [] = Some (1, EvClose 3 # h')"
     "accepted 3 h' = accepted 3 [] @ take 277 (raw (xpacket_presentation server0)) @
        take 277 (raw (fragment_declaration server0 1 2 ?fr ?fc)) @ [8, 9]"
    using send_fragment_delivers [of one_file_store 1 0 ?fc 2 ?fr "[8, 9]" ?os addr0 "[]" 3 _ 0 server0]
      confirms_open [of server0 3] by (simp del: take_append) blast
  then show ?thesis
    using presentation_size(2) [of server0] fragment_declaration_fields(2) [of server0 1 2 ?fr ?fc] by simp
qed

end
