(* ===== verification/Diagnostics.thy ===== *)
theory Diagnostics
  imports Server_Core
begin

text \<open>
  What the program prints about itself: \<open>debug_address\<close>, \<open>debug_args_inline\<close>, \<open>print_state\<close>,
  \<open>xpacket_debug\<close>, \<open>xfileserver_debug\<close> and \<open>xfilenetindex_debug\<close>, each as the text it writes.
  The last two are called from the state machine and walk its tables, so they matter beyond the
  terminal: \<open>None\<close> is an access outside an object or a loop that never ends. The theorems say when
  they return, and that the file store with a file in 255 fragments is never printed to the end,
  because the counter of the loop is as narrow as its bound.
\<close>

section \<open>Formatting\<close>

abbreviation (input) "nl \<equiv> [CHR 0x0A]"
abbreviation (input) "tabc \<equiv> [CHR 0x09]"
abbreviation (input) "dquote \<equiv> [CHR 0x22]"
abbreviation (input) "squote \<equiv> [CHR 0x27]"

text \<open>\<open>%3u\<close> and the like; \<open>%d\<close>; \<open>%02X\<close>; \<open>%s\<close> on a character array, whose NUL must be in the array.\<close>

definition pad :: "nat \<Rightarrow> string \<Rightarrow> string" where
  "pad n s = replicate (n - length s) CHR 0x20 @ s"

definition show_int :: "int \<Rightarrow> string" where
  "show_int i = (if i < 0 then ''-'' @ show_nat (nat (- i)) else show_nat (nat i))"

definition hex_digit :: "nat \<Rightarrow> char" where
  "hex_digit d = char_of (if d < 10 then 48 + d else 55 + d)"

definition show_hex2 :: "u8 \<Rightarrow> string" where
  "show_hex2 b = [hex_digit (unat b div 16), hex_digit (unat b mod 16)]"

definition chars :: "bytes \<Rightarrow> string" where
  "chars bs = map (\<lambda>b. char_of (unat b)) bs"

definition show_str :: "bytes \<Rightarrow> string option" where
  "show_str bs = (if 0 \<in> set bs then Some (chars (cstr bs)) else None)"

definition isprint :: "u8 \<Rightarrow> bool" where
  "isprint c \<longleftrightarrow> 32 \<le> c \<and> c < 127"

section \<open>The printers without loops over tables\<close>

definition debug_address :: "Address option \<Rightarrow> string" where
  "debug_address addr =
     (case addr of
        None \<Rightarrow> ''[Address: (null)]'' @ nl
      | Some a \<Rightarrow> ''[Address '' @ print_ipv4 (ip a) @ '':'' @ show_nat (unat (port a)) @ '']'' @ nl)"

definition debug_args_inline :: "Args \<Rightarrow> string" where
  "debug_args_inline a =
     ''[Args] id='' @ show_int (arg_id a) @ '' ip='' @ arg_ip a @ '' peer_id='' @ show_int (arg_peer_id a) @
     '' peer_ip='' @ arg_peer_ip a @ '' netsize='' @ show_int (arg_netsize a) @ nl"

text \<open>\<open>SERVER_INDEX_HANDLE_DEAD_PEER\<close>, number 10 of the enumeration, has no case of its own.\<close>

fun print_server_state :: "eServerState \<Rightarrow> string" where
  "print_server_state SERVER_BOOTING = ''SERVER_BOOTING''"
| "print_server_state SERVER_CONNECTING = ''SERVER_CONNECTING''"
| "print_server_state SERVER_BEGIN_OPERATION = ''SERVER_BEGIN_OPERATION''"
| "print_server_state SERVER_IDLE = ''SERVER_IDLE''"
| "print_server_state SERVER_RECEIVED_PACKET = ''SERVER_RECEIVED_PACKET''"
| "print_server_state SERVER_WAITING_RAW_PACKETS = ''SERVER_WAITING_RAW_PACKETS''"
| "print_server_state SERVER_RECEIVED_FRAGMENT = ''SERVER_RECEIVED_FRAGMENT''"
| "print_server_state SERVER_INDEX_PRESENT_ITSELF = ''SERVER_INDEX_PRESENT_ITSELF''"
| "print_server_state SERVER_INDEX_WAITING_PEERS_KNOWLEDGE = ''SERVER_INDEX_WAITING_PEERS''"
| "print_server_state SERVER_INDEX_HANDLE_NEW_FILE = ''SERVER_INDEX_HANDLE_NEW_FILE''"
| "print_server_state SERVER_INDEX_FANOUT_FRAGMENTS = ''SERVER_INDEX_FANOUT_FRAGMENTS''"
| "print_server_state SERVER_INDEX_REQUEST_FRAGMENTS = ''SERVER_INDEX_REQUEST_FRAGMENTS''"
| "print_server_state SERVER_WAIT_INDEX_GOSSIP = ''SERVER_WAIT_INDEX_GOSSIP''"
| "print_server_state SERVER_REPORT_KNOWLEDGE_TO_INDEX = ''SERVER_REPORT_KNOWLEDGE_TO_INDEX''"
| "print_server_state SERVER_WAIT_REQUEST_FRAGMENTS = ''SERVER_WAIT_REQUEST_FRAGMENTS''"
| "print_server_state SERVER_WAITING_NEW_PEER = ''SERVER_WAITING_NEW_PEER''"
| "print_server_state SERVER_OTHER = ''SERVER_OTHER''"
| "print_server_state SERVER_INDEX_HANDLE_DEAD_PEER = ''UNKNOWN_STATE (10)''"

definition xpacket_debug :: "xPacket option \<Rightarrow> string" where
  "xpacket_debug p =
     (case p of
        None \<Rightarrow> ''xPacket: (null)'' @ nl
      | Some p \<Rightarrow> ''xPacket raw[0:'' @ show_int (psize p) @ '']: '' @ dquote @
          concat (map (\<lambda>i. CHR 0x5C # ''x'' @ show_hex2 (raw p ! i)) [0..<min (nat (psize p)) 4096]) @ dquote @ nl)"

section \<open>The file store\<close>

text \<open>The first bytes of a fragment.\<close>

definition preview :: "xFileFragment \<Rightarrow> string option" where
  "preview frag =
     (let preview_len = min 10 (unat (fragment_size frag)) in
      if preview_len = 0 then Some []
      else do {
        content \<leftarrow> fragment_bytes frag;
        first \<leftarrow> memcpy_from content 0 preview_len;
        Some (chars (map (\<lambda>c. if isprint c then c else 46) first)) })"

text \<open>One line for fragment \<open>f\<close>: the last of the two slots with that number.\<close>

definition debug_fragment :: "xFileContainer \<Rightarrow> u8 \<Rightarrow> string option" where
  "debug_fragment fc f = do {
     f0 \<leftarrow> at (fragments fc) 0;
     f1 \<leftarrow> at (fragments fc) 1;
     let frag = (if fragment_id f1 = f then Some f1 else if fragment_id f0 = f then Some f0 else None);
     case frag of
       None \<Rightarrow> Some (''    Fragment #'' @ pad 3 (show_nat (unat f)) @ '' | [fragment elsewhere]'' @ nl)
     | Some frag \<Rightarrow> do {
         text \<leftarrow> preview frag;
         Some (''    Fragment #'' @ pad 3 (show_nat (unat (fragment_id frag))) @ '' | size: '' @
           pad 8 (show_nat (unat (fragment_size frag))) @ '' bytes '' @ tabc @ ''| preview: '' @ dquote @
           text @ dquote @ ''...'' @ nl) } }"

text \<open>The loop \<open>for (uint8_t f = 1; f <= file->fragment_count_total; f++)\<close>: \<open>f\<close> wraps after 255.\<close>

partial_function (option) debug_fragments :: "xFileContainer \<Rightarrow> u8 \<Rightarrow> string option" where
  "debug_fragments fc f =
     (if f \<le> fragment_count_total fc then do {
        line \<leftarrow> debug_fragment fc f;
        rest \<leftarrow> debug_fragments fc (f + 1);
        Some (line @ rest) }
      else Some [])"

fun debug_files :: "nat \<Rightarrow> xFileContainer list \<Rightarrow> string option" where
  "debug_files i [] = Some []"
| "debug_files i (fc # fcs) = do {
     name \<leftarrow> show_str (file_name fc);
     frags \<leftarrow> debug_fragments fc 1;
     rest \<leftarrow> debug_files (Suc i) fcs;
     Some (''File #'' @ show_nat i @ '': '' @ squote @ name @ squote @ nl @
       ''  ID: '' @ show_nat (unat (file_id fc)) @ '' | Total size: '' @ show_nat (unat (fc_size fc)) @
       '' bytes | Fragments: '' @ show_nat (unat (fragment_count_total fc)) @ nl @ frags @ nl @ rest) }"

definition xfileserver_debug :: "xFileServer option \<Rightarrow> string option" where
  "xfileserver_debug fs =
     (case fs of
        None \<Rightarrow> Some (''[xfileserver] Index is NULL'' @ nl)
      | Some fs \<Rightarrow>
          if length (containers fs) < unat (file_count fs) then None
          else do {
            body \<leftarrow> debug_files 0 (take (unat (file_count fs)) (containers fs));
            Some (nl @ ''=== FILE STORAGE Debug ==='' @ nl @ ''Total files: '' @ show_nat (unat (file_count fs)) @ nl @ nl @
              body) })"

section \<open>The network index\<close>

text \<open>How \<open>%p\<close> writes an address is up to the C library: the parameter \<open>ptr\<close>.\<close>

definition debug_pointer :: "nat \<Rightarrow> xFragmentNetworkPointer \<Rightarrow> string" where
  "debug_pointer i p =
     ''    Fragment #'' @ pad 3 (show_nat i) @ '' | fragment_id: '' @ pad 5 (show_nat (unat (np_fragment p))) @
     '' | node_id: '' @ pad 10 (show_nat (unat (np_node_id p))) @ nl"

definition debug_table :: "xFileInNetwork \<Rightarrow> string option" where
  "debug_table f =
     (case fni_fragments f of
        None \<Rightarrow> Some (''    [no fragments allocated]'' @ nl)
      | Some t \<Rightarrow>
          if length t < unat (total_fragments f) then None
          else Some (concat (map (\<lambda>i. debug_pointer i (t ! i)) [0..<unat (total_fragments f)])))"

partial_function (option) debug_entries ::
  "(nat \<Rightarrow> string) \<Rightarrow> (nat \<Rightarrow> xFileInNetwork option) \<Rightarrow> nat option \<Rightarrow> u16 \<Rightarrow> string option" where
  "debug_entries ptr cs cur index =
     (case cur of
        None \<Rightarrow> Some []
      | Some a \<Rightarrow> do {
          f \<leftarrow> cs a;
          table \<leftarrow> debug_table f;
          rest \<leftarrow> debug_entries ptr cs (next_file f) (index + 1);
          Some (''I: '' @ ptr a @ nl @ ''File #'' @ show_nat (unat index) @ '': ID: '' @ show_nat (unat (fni_file_id f)) @ nl @
            ''  Total fragments: '' @ show_nat (unat (total_fragments f)) @ nl @ table @ nl @ rest) })"

definition xfilenetindex_debug :: "(nat \<Rightarrow> string) \<Rightarrow> xFileNetworkIndex option \<Rightarrow> fheap \<Rightarrow> string option" where
  "xfilenetindex_debug ptr net hp =
     (case net of
        None \<Rightarrow> Some (''[xfilenetindex] Network index is NULL'' @ nl)
      | Some net \<Rightarrow> do {
          let top = nl @ ''=== FILE INDEX Debug ==='' @ nl @ ''Total files: '' @ show_nat (unat (net_file_count net)) @ nl @ nl;
          if net_files net = None then Some (top @ ''  [xfilenetindex] No files registered.'' @ nl @ nl)
          else do {
            body \<leftarrow> debug_entries ptr (cells hp) (net_files net) 0;
            Some (top @ body) } })"

section \<open>Lemmas\<close>

text \<open>What printing relies on: a numbered fragment has the bytes that are shown of it.\<close>

definition fragment_shown :: "xFileFragment \<Rightarrow> bool" where
  "fragment_shown f \<longleftrightarrow> fragment_id f = 0 \<or> preview f \<noteq> None"

definition fragments_shown :: "xFileServer \<Rightarrow> bool" where
  "fragments_shown fs \<longleftrightarrow> list_all (\<lambda>fc. list_all fragment_shown (fragments fc)) (containers fs)"

definition store_shown :: "xFileServer \<Rightarrow> bool" where
  "store_shown fs \<longleftrightarrow> fragments_shown fs \<and> list_all (\<lambda>fc. fragment_count_total fc \<noteq> 255) (containers fs)"

lemma preview_full: "fragment_bytes f = Some bs \<Longrightarrow> length bs = unat (fragment_size f) \<Longrightarrow> fragment_shown f"
  by (auto simp: fragment_shown_def preview_def Let_def memcpy_from_def)

lemma debug_fragment_shown:
  assumes "container_ok fc" and "list_all fragment_shown (fragments fc)" and "f \<noteq> 0"
  shows "\<exists>s. debug_fragment fc f = Some s"
proof -
  obtain f0 f1 where f01: "fragments fc = [f0, f1]"
    using assms(1) by (auto simp: container_ok_def length_Suc_conv numeral_2_eq_2)
  with assms(2,3) show ?thesis by (auto simp: debug_fragment_def fragment_shown_def at_def)
qed

lemma debug_fragments_returns:
  assumes "container_ok fc" and "list_all fragment_shown (fragments fc)" and "fragment_count_total fc \<noteq> 255"
  shows "f \<noteq> 0 \<Longrightarrow> \<exists>s. debug_fragments fc f = Some s"
proof (induction "Suc (unat (fragment_count_total fc)) - unat f" arbitrary: f)
  case 0
  then have "\<not> f \<le> fragment_count_total fc" by (simp add: word_le_nat_alt)
  then show ?case by (subst debug_fragments.simps) simp
next
  case (Suc n)
  then have le: "f \<le> fragment_count_total fc" by (simp add: word_le_nat_alt)
  have c: "unat (fragment_count_total fc) < 255"
  proof -
    have "unat (fragment_count_total fc) < 256" using unsigned_less [of "fragment_count_total fc", where ?'a = nat] by simp
    moreover have "unat (fragment_count_total fc) \<noteq> 255" using assms(3) by (auto simp: word_unat_eq_iff)
    ultimately show ?thesis by simp
  qed
  have u: "unat (f + 1) = unat f + 1"
    using le c by (subst unat_add_lem [THEN iffD1]) (auto simp: word_le_nat_alt)
  then have nz: "f + 1 \<noteq> 0" by auto
  obtain l where l: "debug_fragment fc f = Some l" using debug_fragment_shown [OF assms(1,2) Suc.prems] by blast
  have "n = Suc (unat (fragment_count_total fc)) - unat (f + 1)" using Suc.hyps(2) u by linarith
  then obtain r where "debug_fragments fc (f + 1) = Some r" using Suc.hyps(1) [OF _ nz] by blast
  with l le show ?case by (subst debug_fragments.simps) simp
qed

text \<open>A byte is never greater than 255, so the loop cannot stop.\<close>

lemma debug_fragments_255:
  assumes "debug_fragments fc f = Some s"
  shows "fragment_count_total fc \<noteq> 255"
proof (rule debug_fragments.raw_induct [where P = "\<lambda>fc f s. fragment_count_total fc \<noteq> 255", OF _ assms])
  fix dbg :: "xFileContainer \<Rightarrow> u8 \<Rightarrow> string option" and fc f s
  assume IH: "\<And>fc f s. dbg fc f = Some s \<Longrightarrow> fragment_count_total fc \<noteq> 255"
    and ret: "(if f \<le> fragment_count_total fc then do {
        line \<leftarrow> debug_fragment fc f; rest \<leftarrow> dbg fc (f + 1); Some (line @ rest) } else Some []) = Some s"
  have "f \<le> 255" using unsigned_less [of f, where ?'a = nat] by (simp add: word_le_nat_alt)
  with IH ret show "fragment_count_total fc \<noteq> 255" by (auto split: Option.bind_split_asm)
qed

lemma debug_files_iff:
  assumes "list_all container_ok fcs" and "list_all (\<lambda>fc. list_all fragment_shown (fragments fc)) fcs"
  shows "(\<exists>s. debug_files i fcs = Some s) \<longleftrightarrow> list_all (\<lambda>fc. fragment_count_total fc \<noteq> 255) fcs"
  using assms
proof (induction fcs arbitrary: i)
  case (Cons fc fcs)
  have nul: "\<exists>n. show_str (file_name fc) = Some n"
    using Cons.prems(1) nth_mem [of 199 "file_name fc"] by (auto simp: container_ok_def show_str_def)
  moreover have "(\<exists>s. debug_fragments fc 1 = Some s) \<longleftrightarrow> fragment_count_total fc \<noteq> 255"
    using debug_fragments_returns [of fc 1] debug_fragments_255 [of fc 1] Cons.prems by auto
  moreover have "(\<exists>s. debug_files (Suc i) fcs = Some s) \<longleftrightarrow> list_all (\<lambda>fc. fragment_count_total fc \<noteq> 255) fcs"
    using Cons.IH [of "Suc i"] Cons.prems by simp
  ultimately show ?case by (auto split: Option.bind_split)
qed simp

text \<open>Every table is as long as the entry says.\<close>

definition tables_full :: "fheap \<Rightarrow> bool" where
  "tables_full hp \<longleftrightarrow> (\<forall>a f t. cells hp a = Some f \<longrightarrow> fni_fragments f = Some t \<longrightarrow> unat (total_fragments f) \<le> length t)"

lemma new_file_full:
  assumes "tables_full hp" and "xfilenetindex_new_file os fid n hp h = ((p, hp'), h')"
  shows "tables_full hp'"
  using assms by (auto simp: xfilenetindex_new_file_def tables_full_def Let_def split: prod.splits option.splits if_splits)

lemma add_file_full:
  assumes "tables_full hp" and "xfilenetindex_add_file net p hp = Some (net', hp')"
  shows "tables_full hp'"
  using assms by (fastforce simp: xfilenetindex_add_file_def tables_full_def split: option.splits Option.bind_splits if_splits)

lemma full_upd:
  assumes "tables_full hp" and "cells hp a = Some f" and "unat (total_fragments f) \<le> length t"
  shows "tables_full (hp\<lparr>cells := (cells hp)(a \<mapsto> f\<lparr>fni_fragments := Some t\<rparr>)\<rparr>)"
  using assms by (auto simp: tables_full_def)

lemma full_at:
  "tables_full hp \<Longrightarrow> cells hp a = Some f \<Longrightarrow> fni_fragments f = Some t \<Longrightarrow> unat (total_fragments f) \<le> length t"
  by (simp add: tables_full_def)

lemma debug_entries_chain:
  assumes "chain cs p as" and "\<forall>a f t. cs a = Some f \<longrightarrow> fni_fragments f = Some t \<longrightarrow> unat (total_fragments f) \<le> length t"
  shows "\<exists>s. debug_entries ptr cs p i = Some s"
  using assms(1)
proof (induction as arbitrary: p i)
  case (Cons a as)
  then obtain f where f: "p = Some a" "cs a = Some f" "chain cs (next_file f) as" by (auto split: option.splits)
  obtain r where "debug_entries ptr cs (next_file f) (i + 1) = Some r" using Cons.IH [OF f(3)] by blast
  moreover have "\<exists>t. debug_table f = Some t" using assms(2) f(2) by (force simp: debug_table_def split: option.splits)
  ultimately show ?case using f(1,2) by (subst debug_entries.simps) auto
qed (simp add: debug_entries.simps)

lemma index_debug:
  "fni_inv net hp \<Longrightarrow> tables_full hp \<Longrightarrow> \<exists>s. xfilenetindex_debug ptr (Some net) hp = Some s"
  using debug_entries_chain [OF fni_invD(1), of net hp ptr 0] by (auto simp: xfilenetindex_debug_def tables_full_def Let_def)

lemma store_debug:
  assumes "fs_inv fs" and "fragments_shown fs"
  shows "(\<exists>s. xfileserver_debug (Some fs) = Some s) \<longleftrightarrow> store_shown fs"
proof -
  have "unat (file_count fs) = length (containers fs)" "list_all container_ok (containers fs)"
    using assms(1) by (auto simp: fs_inv_def containers_def split: option.splits)
  then show ?thesis
    using debug_files_iff [of "containers fs" 0] assms(2)
    by (auto simp: xfileserver_debug_def store_shown_def fragments_shown_def split: Option.bind_split)
qed

lemma add_file_containers:
  assumes "fs_inv fs" and "xfileserver_add_file fs name fid sz count = Some (Some p, fs')"
  shows "containers fs' = containers fs @ [zero_container\<lparr>file_name := strncpy_zeroed 200 199 name, file_id := fid,
     fc_size := sz, fragment_count_total := count\<rparr>]"
  using assms by (auto simp: xfileserver_add_file_def fs_inv_def containers_def Let_def split: option.splits if_splits)

lemma add_file_fragments_shown:
  assumes "fs_inv fs" and "xfileserver_add_file fs name fid sz count = Some (Some p, fs')" and "fragments_shown fs"
  shows "fragments_shown fs'"
  using assms(3)
  by (simp add: fragments_shown_def add_file_containers [OF assms(1,2)] zero_container_def zero_fragment_def fragment_shown_def)

lemma add_file_shown:
  assumes "fs_inv fs" and "xfileserver_add_file fs name fid sz count = Some (Some p, fs')" and "store_shown fs"
  shows "store_shown fs' \<longleftrightarrow> count \<noteq> 255"
  using assms(3) add_file_fragments_shown [OF assms(1,2)]
  by (simp add: store_shown_def add_file_containers [OF assms(1,2)])

section \<open>Properties\<close>

text \<open>C24: Printing the file store ends exactly when no file has 255 fragments: the byte that counts the
  fragments then never passes its bound. Everything else about the store is safe to print as
  long as each numbered fragment has the bytes that are shown of it.\<close>

theorem store_debug_ends_iff:
  assumes "fs_inv fs" and "fragments_shown fs"
  shows "xfileserver_debug (Some fs) \<noteq> None \<longleftrightarrow> (\<forall>fc \<in> set (containers fs). fragment_count_total fc \<noteq> 255)"
  using store_debug [OF assms] assms(2) by (auto simp: store_shown_def list_all_iff)

definition wide_store :: xFileServer where
  "wide_store = \<lparr>file_count = 1, files = Some [zero_container\<lparr>file_id := 1, fragment_count_total := 255\<rparr>]\<rparr>"

theorem store_debug_ends_iff_witness:
  "xfileserver_debug (Some wide_store) = None \<and> xfileserver_debug (Some empty_store) \<noteq> None"
proof -
  have "fs_inv wide_store" "fragments_shown wide_store" "fs_inv empty_store" "fragments_shown empty_store"
    by (simp_all add: wide_store_def empty_store_def fs_inv_def container_ok_def zero_container_def fragments_shown_def
        containers_def fragment_shown_def zero_fragment_def)
  from store_debug_ends_iff [OF this(1,2)] store_debug_ends_iff [OF this(3,4)] show ?thesis
    by (auto simp: wide_store_def empty_store_def containers_def)
qed

end
