(* ===== verification/Node_Ring.thy ===== *)
theory Node_Ring
  imports Procedures Diagnostics
begin

text \<open>
  The first half of the state machine in \<open>main.c\<close>: one definition per \<open>case\<close> of the \<open>switch\<close>
  from \<open>SERVER_BOOTING\<close> to \<open>SERVER_REPORT_KNOWLEDGE_TO_INDEX\<close> (booting, joining the ring, the
  take-over of the index role, the gossip of the index address, the collection of what the
  nodes know). A handler takes the node and the history and ends either with \<open>Continue\<close> (the
  \<open>break\<close> that leads to the next round of the main loop) or with \<open>Return\<close> (\<open>return\<close> from \<open>main\<close>);
  \<open>None\<close> is undefined behaviour or a loop that never ends, as everywhere.
\<close>

section \<open>The node\<close>

record Node =
  nd_sv :: Server
  nd_fs :: xFileServer
  nd_net :: xFileNetworkIndex
  nd_hp :: fheap

datatype outcome = Continue Node | Return int

section \<open>Joining the ring\<close>

definition handle_booting :: "os \<Rightarrow> Node \<Rightarrow> hist \<Rightarrow> (outcome \<times> hist) option" where
  "handle_booting os nd h =
     (let ((r, sv), h) = server_open os (nd_sv nd) h in
      if r = 0 then Some (Return 1, h)
      else let (sv, h) = server_set_state os sv SERVER_CONNECTING h
           in Some (Continue (nd\<lparr>nd_sv := sv\<rparr>), h))"

definition handle_connecting :: "os \<Rightarrow> Node \<Rightarrow> hist \<Rightarrow> (outcome \<times> hist) option" where
  "handle_connecting os nd h =
     (let sv = nd_sv nd;
          (sv, h) = (if server_is_peerb_connected sv then (sv, h)
                     else let (client, h) = server_accept os sv h in
                       if 0 < client then (sv\<lparr>peer_b := (peer_b sv)\<lparr>pc_open := True, stream_fd := client\<rparr>\<rparr>, h)
                       else (sv, h));
          ((r, sv), h) = (if server_is_peerf_connected sv then ((1, sv), h) else server_dial_peer os sv h) in
      if r = 0 then Some (Continue (nd\<lparr>nd_sv := sv\<rparr>), h)
      else if server_is_peerf_connected sv \<and> server_is_peerb_connected sv then
        let (sv, h) = server_set_state os sv SERVER_BEGIN_OPERATION h
        in Some (Continue (nd\<lparr>nd_sv := sv\<rparr>), h)
      else Some (Continue (nd\<lparr>nd_sv := sv\<rparr>), h))"

definition handle_waiting_new_peer :: "os \<Rightarrow> Node \<Rightarrow> hist \<Rightarrow> (outcome \<times> hist) option" where
  "handle_waiting_new_peer os nd h =
     (let sv = nd_sv nd in
      if server_is_peerb_connected sv then Some (Continue nd, h)
      else
        let (client, h) = server_accept os sv h in
        if 0 < client then
          let sv = sv\<lparr>peer_b := (peer_b sv)\<lparr>pc_open := True, stream_fd := client\<rparr>\<rparr>;
              (sv, h) = server_set_state os sv
                          (if me_node_id sv = 1 then SERVER_BEGIN_OPERATION else SERVER_IDLE) h
          in Some (Continue (nd\<lparr>nd_sv := sv\<rparr>), h)
        else Some (Continue nd, h))"

section \<open>Becoming the index\<close>

text \<open>What a node says about a file it holds: the body of the loops at 160--186 and 414--441.\<close>

definition fragment_report :: "u64 \<Rightarrow> xFileFragment \<Rightarrow> xFragmentNetworkPointer" where
  "fragment_report me f =
     (if fragment_id f \<noteq> 0
      then \<lparr>np_fragment = ucast (fragment_id f), np_size = fragment_size f, np_node_id = me\<rparr>
      else zero_pointer)"

definition file_report :: "u64 \<Rightarrow> xFileContainer \<Rightarrow> xReportFileKnowledge" where
  "file_report me f =
     \<lparr>rk_file_name = file_name f, rk_file_size = fc_size f, rk_file_id = file_id f,
      rk_frag_count = fragment_count_total f, rk_fragments = map (fragment_report me) (take 2 (fragments f))\<rparr>"

partial_function (option) index_own_files ::
  "os \<Rightarrow> u64 \<Rightarrow> nat \<Rightarrow> xFileServer \<Rightarrow> xFileNetworkIndex \<Rightarrow> fheap \<Rightarrow> hist \<Rightarrow>
   (xFileServer \<times> xFileNetworkIndex \<times> fheap \<times> hist) option" where
  "index_own_files os me i fs net hp h =
     (if i < unat (file_count fs) then do {
        f \<leftarrow> at (containers fs) (int i);
        (fs, net, hp, h) \<leftarrow> xprocedure_save_file_to_index os fs net hp (file_report me f) h;
        index_own_files os me (Suc i) fs net hp h }
      else Some (fs, net, hp, h))"

text \<open>The index structures are allocated with \<open>malloc\<close> and not initialised: the table and the number
  of known peers are read out of whatever the fresh blocks hold (a NULL table has no entries).\<close>

definition address_table :: "bytes \<Rightarrow> Address list" where
  "address_table b = map (\<lambda>i. bytes_addr (peek (6 * i) 6 b)) [0..<length b div 6]"

definition fresh_index_data :: "os \<Rightarrow> Server \<Rightarrow> hist \<Rightarrow> (xIndexData \<times> hist) option" where
  "fresh_index_data os sv h =
     (let (m, h) = sys_malloc os 16 h in
      case m of
        None \<Rightarrow> None
      | Some b \<Rightarrow>
          let (t, h) = sys_malloc os (unat (net_size sv * 6)) h
          in Some (\<lparr>peer_ips = (case t of None \<Rightarrow> [] | Some tb \<Rightarrow> address_table tb),
                    known_peers = of_nat (le_nat (peek 8 8 b))\<rparr>, h))"

definition handle_begin_operation :: "os \<Rightarrow> Node \<Rightarrow> hist \<Rightarrow> (outcome \<times> hist) option" where
  "handle_begin_operation os nd h =
     (let sv = nd_sv nd in
      if net_size sv = me_node_id sv then do {
        (d, h) \<leftarrow> fresh_index_data os sv h;
        let sv = sv\<lparr>index_data := Some d\<rparr>;
        (fs, net, hp, h) \<leftarrow>
          (if 0 < file_count (nd_fs nd)
           then index_own_files os (me_node_id sv) 0 (nd_fs nd) (nd_net nd) (nd_hp nd) h
           else Some (nd_fs nd, nd_net nd, nd_hp nd, h));
        let (sv, h) = server_set_state os sv SERVER_INDEX_PRESENT_ITSELF h;
        Some (Continue \<lparr>nd_sv = sv, nd_fs = fs, nd_net = net, nd_hp = hp\<rparr>, h) }
      else
        let (sv, h) = server_set_state os sv SERVER_WAIT_INDEX_GOSSIP h
        in Some (Continue (nd\<lparr>nd_sv := sv\<rparr>), h))"

definition index_presentation :: "Server \<Rightarrow> xPacket" where
  "index_presentation sv =
     (set_addr 16 (me_ip sv) (set_u64 8 (me_node_id sv) (set_u64 0 (me_node_id sv) zero_packet)))
       \<lparr>psize := sizeof_index_presentation_pkt\<rparr>"

definition handle_index_present_itself :: "os \<Rightarrow> Node \<Rightarrow> hist \<Rightarrow> (outcome \<times> hist) option" where
  "handle_index_present_itself os nd h = (
     let sv = nd_sv nd;
         sv = sv\<lparr>sv_index := (sv_index sv)\<lparr>pc_node_id := me_node_id sv\<rparr>\<rparr> in do {
     (w, h) \<leftarrow> server_send_to_peer_f os sv (index_presentation sv) h;
     if w \<le> 0 then Some (Return 1, h)
     else
       let (sv, h) = server_set_state os sv SERVER_INDEX_WAITING_PEERS_KNOWLEDGE h
       in Some (Continue (nd\<lparr>nd_sv := sv\<rparr>), h) })"

text \<open>One \<open>TYPE_REPORT_SELF\<close>: save the address and count the node. When the last one has reported,
  the code prints the first \<open>net_size - 1\<close> entries of the table.\<close>

definition report_self_received :: "Server \<Rightarrow> xPacket \<Rightarrow> Server option" where
  "report_self_received sv p = do {
     (_, sv) \<leftarrow> server_index_save_reported_peer sv p;
     case machine_state sv of
       MSIndexWaitingPeers connected \<Rightarrow>
         (if connected + 1 = net_size sv - 1 \<and>
             (case index_data sv of None \<Rightarrow> True | Some d \<Rightarrow> length (peer_ips d) < unat (net_size sv - 1))
          then None
          else Some (sv\<lparr>machine_state := MSIndexWaitingPeers (connected + 1)\<rparr>))
     | _ \<Rightarrow> None }"

text \<open>The \<open>while(1)\<close> that serves one reporting node until it sends \<open>TYPE_OK\<close>. Where a handler prints
  one of its tables, the call stands for whether the printing returns; how an address is
  written does not matter (\<open>show_nat\<close>).\<close>

partial_function (option) collect_knowledge :: "os \<Rightarrow> int \<Rightarrow> Node \<Rightarrow> hist \<Rightarrow> (Node \<times> hist) option" where
  "collect_knowledge os c nd h =
     (case server_wait_from_socket os c h of (p, h) \<Rightarrow>
        if psize p < 0 then Some (nd, h)
        else if comm_type p = TYPE_REPORT_SELF then do {
          sv \<leftarrow> report_self_received (nd_sv nd) p;
          collect_knowledge os c (nd\<lparr>nd_sv := sv\<rparr>) h }
        else if comm_type p = TYPE_REPORT_FILE then do {
          (fs, net, hp, h) \<leftarrow>
            xprocedure_save_file_to_index os (nd_fs nd) (nd_net nd) (nd_hp nd) (get_report_file p) h;
          (_, h) \<leftarrow> server_send_ok os (nd_sv nd) c h;
          collect_knowledge os c (nd\<lparr>nd_fs := fs, nd_net := net, nd_hp := hp\<rparr>) h }
        else if comm_type p = TYPE_OK then do {
          _ \<leftarrow> xfilenetindex_debug show_nat (Some (nd_net nd)) (nd_hp nd);
          Some (nd, h) }
        else collect_knowledge os c nd h)"

definition handle_index_waiting_peers :: "os \<Rightarrow> (hist \<Rightarrow> u64) \<Rightarrow> Node \<Rightarrow> hist \<Rightarrow> (outcome \<times> hist) option" where
  "handle_index_waiting_peers os junk nd h =
     (if index_data (nd_sv nd) = None then Some (Continue nd, h)
      else
        let (c, h) = server_accept os (nd_sv nd) h in
        if c \<le> 0 then Some (Continue nd, h)
        else do {
          (client_node, h) \<leftarrow> xprocedure_wait_identification os (nd_sv nd) (junk h) c h;
          if client_node = 0 then Some (Continue nd, h)
          else do {
            (nd, h) \<leftarrow> collect_knowledge os c nd h;
            let h = server_close_socket (nd_sv nd) c h;
            case machine_state (nd_sv nd) of
              MSIndexWaitingPeers connected \<Rightarrow>
                (if connected = net_size (nd_sv nd) - 1 then
                   let (sv, h) = server_set_state os (nd_sv nd) SERVER_IDLE h
                   in Some (Continue (nd\<lparr>nd_sv := sv\<rparr>), h)
                 else Some (Continue nd, h))
            | _ \<Rightarrow> None } })"

section \<open>Following an index\<close>

definition handle_wait_index_gossip :: "os \<Rightarrow> Node \<Rightarrow> hist \<Rightarrow> (outcome \<times> hist) option" where
  "handle_wait_index_gossip os nd h =
     (let sv = nd_sv nd;
          (p, h) = server_wait_from_peer_b os sv h;
          p2 = get_index_presentation p;
          sv = sv\<lparr>sv_index := (sv_index sv)\<lparr>pc_ip := ipp_index_addr p2, pc_node_id := ipp_index_id p2\<rparr>\<rparr> in do {
     (w, h) \<leftarrow> (if ipp_index_id p2 \<noteq> pc_node_id (peer_f sv)
               then server_send_to_peer_f os sv (set_u64 0 (me_node_id sv) p) h
               else Some (1, h));
     if w \<le> 0 then Some (Return 1, h)
     else
       let (sv, h) = server_set_state os sv SERVER_REPORT_KNOWLEDGE_TO_INDEX h
       in Some (Continue (nd\<lparr>nd_sv := sv\<rparr>), h) })"

definition report_file_packet :: "Server \<Rightarrow> xFileContainer \<Rightarrow> xPacket" where
  "report_file_packet sv f =
     (put_report_file (file_report (me_node_id sv) f) (xpacket_new sv TYPE_REPORT_FILE))\<lparr>psize := sizeof_comm\<rparr>"

fun report_files :: "os \<Rightarrow> Server \<Rightarrow> xFileContainer list \<Rightarrow> hist \<Rightarrow> hist option" where
  "report_files os sv [] h = Some h"
| "report_files os sv (f # fs) h = do {
     (R, h) \<leftarrow> server_send_to_index os sv (report_file_packet sv f) h;
     if R \<le> 0 then report_files os sv fs h
     else let (_, h) = server_wait_ok os (stream_fd (sv_index sv)) h in report_files os sv fs h }"

definition handle_report_knowledge :: "os \<Rightarrow> Node \<Rightarrow> hist \<Rightarrow> (outcome \<times> hist) option" where
  "handle_report_knowledge os nd h =
     (let ((r, sv), h) = server_dial_index os (nd_sv nd) h;
          nd = nd\<lparr>nd_sv := sv\<rparr> in
      if r = 0 then Some (Continue nd, h)
      else do {
        (r, h) \<leftarrow> server_send_to_index os sv (xpacket_presentation sv) h;
        if r = 0 then Some (Continue nd, h)
        else
          let (ok, h) = server_wait_ok os (stream_fd (sv_index sv)) h in
          if \<not> ok then Some (Continue nd, h)
          else do {
            (r, h) \<leftarrow> server_send_to_index os sv (xpacket_report_self sv) h;
            if r \<le> 0 then Some (Continue nd, h)
            else if unat (file_count (nd_fs nd)) \<le> length (containers (nd_fs nd)) then do {
              h \<leftarrow> report_files os sv (take (unat (file_count (nd_fs nd))) (containers (nd_fs nd))) h;
              (_, h) \<leftarrow> server_send_ok os sv (stream_fd (sv_index sv)) h;
              let (sv, h) = server_set_state os sv SERVER_IDLE h;
              Some (Continue (nd\<lparr>nd_sv := sv\<rparr>), h) }
            else None } })"

end
