(* ===== verification/Node_Files.thy ===== *)
theory Node_Files
  imports Node_Ring
begin

text \<open>
  The second half of the state machine in \<open>main.c\<close>: the idle loop that takes in connections, the
  dispatch on a received packet, and the handlers that move files: receiving raw data,
  fragmenting a new file, fanning the fragments out, collecting the fragments of a requested
  file and handing it to the client. One definition per \<open>case\<close>, loops as functions of their own.
  The \<open>printf\<close>s are dropped. \<open>from_fd\<close> of \<open>StateReceivedPacket\<close> lies behind the 4104 bytes of the
  packet, beyond every other member of the union, so it is still readable after \<open>StateRawPackets\<close>
  was written over the packet.
\<close>

section \<open>Idle\<close>

text \<open>What follows the two checks on the neighbours: data from the connected client first, then a new
  connection.\<close>

definition serve_connections :: "os \<Rightarrow> Node \<Rightarrow> Server \<Rightarrow> hist \<Rightarrow> (outcome \<times> hist) option" where
  "serve_connections os nd sv h = do {
     (has_data, h) \<leftarrow> (if 0 < client_fd sv then FD_tcp_has_data os (client_fd sv) h else Some (0, h));
     if has_data \<noteq> 0 then
       let (p, h) = server_wait_from_socket os (client_fd sv) h in
       if psize p = 0 then Some (Continue (nd\<lparr>nd_sv := sv\<lparr>client_fd := 0\<rparr>\<rparr>), h)
       else
         let (sv, h) = server_set_state os sv SERVER_RECEIVED_PACKET h
         in Some (Continue (nd\<lparr>nd_sv := sv\<lparr>machine_state := MSReceivedPacket p (client_fd sv)\<rparr>\<rparr>), h)
     else
       let (c, h) = server_accept os sv h in
       if 0 < c then
         let (N, h) = server_wait_client_presentation os c h in
         if N = 0 then Some (Continue (nd\<lparr>nd_sv := sv\<rparr>), tcp_close c h)
         else do {
           (_, h) \<leftarrow> server_send_to_socket os (xpacket_ok sv) c h;
           if N = CLIENT_NODE_ID then Some (Continue (nd\<lparr>nd_sv := sv\<lparr>client_fd := c\<rparr>\<rparr>), h)
           else
             let (p, h) = server_wait_from_socket os c h in
             if psize p = 0 then Some (Continue (nd\<lparr>nd_sv := sv\<rparr>), h)
             else
               let (sv, h) = server_set_state os sv SERVER_RECEIVED_PACKET h
               in Some (Continue (nd\<lparr>nd_sv := sv\<lparr>machine_state := MSReceivedPacket p c\<rparr>\<rparr>), h) }
       else Some (Continue (nd\<lparr>nd_sv := sv\<rparr>), h) }"

definition handle_idle :: "os \<Rightarrow> Node \<Rightarrow> hist \<Rightarrow> (outcome \<times> hist) option" where
  "handle_idle os nd h = do {
     (sv, h) \<leftarrow> server_healthcheck os (nd_sv nd) h;
     (sv, h) \<leftarrow> (if pc_open (peer_b sv) then xprocedure_check_peer_b os sv h else Some (sv, h));
     serve_connections os nd sv h }"

section \<open>A received packet\<close>

text \<open>\<open>while (server_dial_index(&sv) == 0) usleep(10 * 1000)\<close>\<close>

definition dial_index_round :: "os \<Rightarrow> Server \<times> hist \<Rightarrow> Server \<times> hist + Server \<times> hist" where
  "dial_index_round os = (\<lambda>(sv, h).
     let ((r, sv), h) = server_dial_index os sv h in
     if r = 0 then Inl (sv, usleep 10000 h) else Inr (sv, h))"

definition received_create_file :: "os \<Rightarrow> Node \<Rightarrow> xPacket \<Rightarrow> int \<Rightarrow> hist \<Rightarrow> (outcome \<times> hist) option" where
  "received_create_file os nd p fd h = (
     let fc = get_create_file p; sv = nd_sv nd in do {
     (sv, h) \<leftarrow>
       (if pc_node_id (sv_index sv) \<noteq> me_node_id sv then do {
          (sv, h) \<leftarrow> iterate (dial_index_round os) (sv, h);
          (_, h) \<leftarrow> server_send_to_index os sv (xpacket_presentation sv) h;
          (_, h) \<leftarrow> server_send_to_index os sv p h;
          Some (sv, h) }
        else Some (sv, h));
     let sv = sv\<lparr>machine_state := MSRawPackets \<lparr>rp_trigger_pkt = TYPE_CREATE_FILE,
                  rp_n_pkts = rfc_file_size fc div 4096 + 1, rp_total_size = rfc_file_size fc,
                  rp_client_fd = fd, rp_fc = Some fc, rp_fragc = None, rp_buffer = None\<rparr>\<rparr>;
     let (sv, h) = server_set_state os sv SERVER_WAITING_RAW_PACKETS h;
     Some (Continue (nd\<lparr>nd_sv := sv\<rparr>), h) })"

definition received_store_fragment :: "os \<Rightarrow> Node \<Rightarrow> xPacket \<Rightarrow> int \<Rightarrow> hist \<Rightarrow> (outcome \<times> hist) option" where
  "received_store_fragment os nd p fd h = (
     let fragc = get_create_frag p; sv = nd_sv nd in do {
     fs \<leftarrow> (case xfileserver_find_file (nd_fs nd) (rfr_file_id fragc) of
              Some _ \<Rightarrow> Some (nd_fs nd)
            | None \<Rightarrow> map_option snd (xfileserver_add_file (nd_fs nd) (rfr_file_name fragc)
                        (ucast (rfr_file_id fragc)) (rfr_file_size fragc) (rfr_fragment_count_total fragc)));
     let sv = sv\<lparr>machine_state := MSRawPackets \<lparr>rp_trigger_pkt = TYPE_STORE_FRAGMENT,
                  rp_n_pkts = rfr_frag_size fragc div 4096 + 1, rp_total_size = rfr_frag_size fragc,
                  rp_client_fd = fd, rp_fc = None, rp_fragc = Some fragc, rp_buffer = None\<rparr>\<rparr>;
     let (sv, h) = server_set_state os sv SERVER_WAITING_RAW_PACKETS h;
     (_, h) \<leftarrow> server_send_to_socket os (xpacket_ok sv) fd h;
     Some (Continue (nd\<lparr>nd_sv := sv, nd_fs := fs\<rparr>), h) })"

text \<open>\<open>TYPE_REQUEST_FILE\<close> at the index: answer with the size of the file and go on to collect it.\<close>

definition request_file_at_index :: "os \<Rightarrow> Node \<Rightarrow> xPacket \<Rightarrow> int \<Rightarrow> hist \<Rightarrow> (outcome \<times> hist) option" where
  "request_file_at_index os nd p fd h = (
     let sv = nd_sv nd;
         (r, name) = xfileserver_find_file_by_name (nd_fs nd) (get_request_file p) in
     case r of
       None \<Rightarrow> do {
         (_, h) \<leftarrow> server_send_not_ok os sv fd h;
         let h = server_close_socket sv fd h;
         let (sv, h) = server_set_state os sv SERVER_IDLE h;
         Some (Continue (nd\<lparr>nd_sv := sv\<rparr>), h) }
     | Some i \<Rightarrow> do {
         fc \<leftarrow> at (containers (nd_fs nd)) (int i);
         (_, h) \<leftarrow> server_send_to_socket os (xpacket_request_file_response sv (uint (file_id fc)) (fc_size fc)
                     (uint (fragment_count_total fc))) fd h;
         let sv = sv\<lparr>machine_state := MSRequestedFile \<lparr>rq_name = name, rq_from_fd = fd,
                      rq_file_id = uint (file_id fc), rq_file_size = fc_size fc,
                      rq_fragment_count = uint (fragment_count_total fc), rq_fragment_found = None,
                      rq_deliver_to = Some (comm_sender_id p), rq_buffer = None\<rparr>\<rparr>;
         let (sv, h) = server_set_state os sv SERVER_INDEX_REQUEST_FRAGMENTS h;
         Some (Continue (nd\<lparr>nd_sv := sv\<rparr>), h) })"

text \<open>\<open>TYPE_REQUEST_FILE\<close> at any other node: ask the index and prepare a buffer for the fragments.\<close>

definition request_file_via_index :: "os \<Rightarrow> Node \<Rightarrow> xPacket \<Rightarrow> int \<Rightarrow> hist \<Rightarrow> (outcome \<times> hist) option" where
  "request_file_via_index os nd p fd h = (
     let ((r, sv), h) = server_dial_index os (nd_sv nd) h in
     if r = 0 then
       let (sv, h) = server_set_state os sv SERVER_IDLE h in Some (Continue (nd\<lparr>nd_sv := sv\<rparr>), h)
     else do {
       (_, h) \<leftarrow> server_send_to_index os sv (xpacket_presentation sv) h;
       let (_, h) = server_wait_ok os (stream_fd (sv_index sv)) h;
       (_, h) \<leftarrow> server_send_to_index os sv (set_u64 2 (me_node_id sv) p) h;
       let (res, h) = server_wait_from_socket os (stream_fd (sv_index sv)) h;
       let h = usleep 100000 h;
       if comm_type res = TYPE_NOT_OK then do {
         (_, h) \<leftarrow> server_send_not_ok os sv fd h;
         let h = server_close_socket sv (stream_fd (sv_index sv)) h;
         let (sv, h) = server_set_state os sv SERVER_IDLE h;
         Some (Continue (nd\<lparr>nd_sv := sv\<rparr>), h) }
       else
         let rr = get_request_file_response res;
             fid = int_of_u64 (rrf_file_id rr);
             n = uint (rrf_fragment_count_total rr);
             (m, h) = sys_malloc os (unat (rrf_file_size rr)) h in
         case m of
           None \<Rightarrow> None
         | Some _ \<Rightarrow> do {
             let sv = sv\<lparr>machine_state := MSRequestedFile \<lparr>rq_name = get_request_file p, rq_from_fd = fd,
                          rq_file_id = fid, rq_file_size = rrf_file_size rr, rq_fragment_count = n,
                          rq_fragment_found = Some 0, rq_deliver_to = None,
                          rq_buffer = Some (replicate (unat (rrf_file_size rr)) 46)\<rparr>\<rparr>;
             (_, h) \<leftarrow> server_send_to_socket os (xpacket_request_file_response sv fid (rrf_file_size rr) n) fd h;
             let (sv, h) = server_set_state os sv SERVER_WAIT_REQUEST_FRAGMENTS h;
             Some (Continue (nd\<lparr>nd_sv := sv\<rparr>), h) } })"

definition received_request_file :: "os \<Rightarrow> Node \<Rightarrow> xPacket \<Rightarrow> int \<Rightarrow> hist \<Rightarrow> (outcome \<times> hist) option" where
  "received_request_file os nd p fd h =
     (if server_is_index (nd_sv nd) then request_file_at_index os nd p fd h
      else request_file_via_index os nd p fd h)"

definition received_request_frag :: "os \<Rightarrow> Node \<Rightarrow> xPacket \<Rightarrow> int \<Rightarrow> hist \<Rightarrow> (outcome \<times> hist) option" where
  "received_request_frag os nd p fd h = (
     let d = get_deliver_fragment_to p; sv = nd_sv nd in do {
     (_, h) \<leftarrow> server_send_ok os sv fd h;
     (_, h) \<leftarrow> xprocedure_send_fragment os sv (nd_fs nd) (int_of_u64 (dft_file_id d)) (int_of_u64 (dft_frag_id d))
                 (dft_to d) h;
     let (sv, h) = server_set_state os sv SERVER_IDLE h;
     Some (Continue (nd\<lparr>nd_sv := sv\<rparr>), h) })"

definition handle_received_packet :: "os \<Rightarrow> Node \<Rightarrow> hist \<Rightarrow> (outcome \<times> hist) option" where
  "handle_received_packet os nd h =
     (case machine_state (nd_sv nd) of
        MSReceivedPacket p fd \<Rightarrow>
          if comm_type p = TYPE_CREATE_FILE then received_create_file os nd p fd h
          else if comm_type p = TYPE_STORE_FRAGMENT then received_store_fragment os nd p fd h
          else if comm_type p = TYPE_REQUEST_FILE then received_request_file os nd p fd h
          else if comm_type p = TYPE_REQUEST_FRAG then received_request_frag os nd p fd h
          else let (sv, h) = server_set_state os (nd_sv nd) SERVER_IDLE h
               in Some (Continue (nd\<lparr>nd_sv := sv\<rparr>), h)
      | _ \<Rightarrow> None)"

section \<open>Raw data\<close>

text \<open>The loop of \<open>SERVER_WAITING_RAW_PACKETS\<close>, \<open>k\<close> packets to go; \<open>relay\<close> says whether each packet
  is passed on to the index.\<close>

fun receive_raw ::
  "os \<Rightarrow> Server \<Rightarrow> bool \<Rightarrow> int \<Rightarrow> nat \<Rightarrow> int \<Rightarrow> bytes option \<Rightarrow> hist \<Rightarrow> (bytes option \<times> hist) option" where
  "receive_raw os sv relay c 0 populated buf h = Some (buf, h)"
| "receive_raw os sv relay c (Suc k) populated buf h =
     (let (p, h) = server_wait_from_socket os c h in
      if psize p < 0 then None
      else do {
        b \<leftarrow> buf;
        b \<leftarrow> memcpy_to b (nat populated) (take (nat (psize p)) (raw p));
        (_, h) \<leftarrow> (if relay then server_send_to_index os sv p h else Some (0, h));
        receive_raw os sv relay c k (populated + psize p) (Some b) h })"

definition handle_waiting_raw_packets :: "os \<Rightarrow> Node \<Rightarrow> hist \<Rightarrow> (outcome \<times> hist) option" where
  "handle_waiting_raw_packets os nd h =
     (case machine_state (nd_sv nd) of
        MSRawPackets s \<Rightarrow> (
          let sv = nd_sv nd;
              size = int_of_u64 (rp_total_size s);
              trigger = rp_trigger_pkt s;
              relay = (trigger = TYPE_CREATE_FILE \<and> pc_node_id (sv_index sv) \<noteq> me_node_id sv);
              (m, h) = sys_malloc os (unat (u64_of_int size)) h;
              h = usleep 1000 h in do {
          (buf, h) \<leftarrow> receive_raw os sv relay (rp_client_fd s) (nat (int_of_u64 (rp_n_pkts s))) 0 m h;
          let sv = sv\<lparr>machine_state := MSRawPackets (s\<lparr>rp_buffer := buf\<rparr>)\<rparr>;
          let (sv, h) =
            (if trigger = TYPE_CREATE_FILE then
               server_set_state os sv (if pc_node_id (sv_index sv) = me_node_id sv
                                       then SERVER_INDEX_HANDLE_NEW_FILE else SERVER_IDLE) h
             else if trigger = TYPE_STORE_FRAGMENT then server_set_state os sv SERVER_RECEIVED_FRAGMENT h
             else (sv, h));
          Some (Continue (nd\<lparr>nd_sv := sv\<rparr>), h) })
      | _ \<Rightarrow> None)"

section \<open>Fragmenting a new file\<close>

text \<open>The first inner loop: from position \<open>k\<close> of the peer table (\<open>i + internaloffset\<close>) to the next
  peer with a port, or to the end of the known peers.\<close>

function next_live :: "Address list \<Rightarrow> u64 \<Rightarrow> nat \<Rightarrow> nat option" where
  "next_live ips known k =
     (if unat known \<le> k then Some k
      else if length ips \<le> k then None
      else if port (ips ! k) = 0 then next_live ips known (Suc k)
      else Some k)"
  by pat_completeness auto
termination by (relation "measure (\<lambda>(ips, known, k). length ips - k)") auto

declare next_live.simps [simp del]

text \<open>The second inner loop: try the nodes from \<open>node\<close> on until \<open>REDUNDANCY\<close> valid ones have taken
  fragment \<open>i\<close>. \<open>net_size + death_count\<close> is meant to be the original size of the network; \<open>tries\<close>
  is an \<open>int\<close> whose overflow is undefined.\<close>

function place_copies ::
  "Server \<Rightarrow> u64 \<Rightarrow> nat \<Rightarrow> u64 \<Rightarrow> nat \<Rightarrow> nat \<Rightarrow> nat \<Rightarrow> xFragmentNetworkPointer list \<Rightarrow>
   xFragmentNetworkPointer list option" where
  "place_copies sv known i fragmentsz node j tries table =
     (if j < REDUNDANCY \<and> of_nat tries < known + 1 then
        if 2 ^ 31 \<le> tries + 1 \<or> net_size sv + death_count sv = 0 then None
        else do {
          let nid = of_nat (node + tries) mod (net_size sv + death_count sv) + 1;
          valid \<leftarrow> server_is_valid_node sv nid;
          if \<not> valid then place_copies sv known i fragmentsz node j (Suc tries) table
          else do {
            table \<leftarrow> put_at table (int (i * REDUNDANCY + j))
                      \<lparr>np_fragment = of_nat (i + 1), np_size = fragmentsz, np_node_id = nid\<rparr>;
            place_copies sv known i fragmentsz node (Suc j) (Suc tries) table } }
      else Some table)"
  by pat_completeness auto
termination
  by (relation "measure (\<lambda>(sv, known, i, fragmentsz, node, j, tries, table). 2 ^ 31 - tries)") auto

declare place_copies.simps [simp del]

text \<open>The outer loop over the fragments, \<open>k\<close> to go.\<close>

fun place_fragments ::
  "Server \<Rightarrow> xIndexData \<Rightarrow> int \<Rightarrow> int \<Rightarrow> int \<Rightarrow> nat \<Rightarrow> nat \<Rightarrow> nat \<Rightarrow> xFragmentNetworkPointer list \<Rightarrow>
   xFragmentNetworkPointer list option" where
  "place_fragments sv d fragcount fragsz remain 0 i internaloffset table = Some table"
| "place_fragments sv d fragcount fragsz remain (Suc k) i internaloffset table = do {
     let fragmentsz = (if int i + 1 = fragcount then fragsz + remain else fragsz);
     if fragmentsz < - (2 ^ 31) \<or> 2 ^ 31 \<le> fragmentsz then None
     else do {
     node \<leftarrow> next_live (peer_ips d) (known_peers d) (i + internaloffset);
     table \<leftarrow> place_copies sv (known_peers d) i (u64_of_int fragmentsz) node 0 0 table;
     place_fragments sv d fragcount fragsz remain k (Suc i) (node - i) table } }"

definition fragment_count :: "Server \<Rightarrow> u64 \<Rightarrow> int" where
  "fragment_count sv sz =
     (if sz \<le> net_size sv \<or> sz \<le> MINIMAL_SIZE_FOR_SPLIT then 1 else int_of_u64 (net_size sv))"

text \<open>The table of a file of \<open>sz\<close> bytes in \<open>fragcount\<close> fragments, written into the zeroed table \<open>t\<close>.\<close>

definition fragment_table ::
  "Server \<Rightarrow> u64 \<Rightarrow> int \<Rightarrow> xFragmentNetworkPointer list \<Rightarrow> xFragmentNetworkPointer list option" where
  "fragment_table sv sz fragcount t = do {
     let fragsz = int_of_u64 (sz div u64_of_int fragcount);
     let remain = int_of_u64 (sz mod u64_of_int fragcount);
     d \<leftarrow> index_data sv;
     place_fragments sv d fragcount fragsz remain (nat fragcount) 0 0 t }"

text \<open>Allocate the index entry, fill its table, link it in. A NULL entry has no table to write to.\<close>

definition register_file ::
  "os \<Rightarrow> Server \<Rightarrow> u16 \<Rightarrow> u64 \<Rightarrow> int \<Rightarrow> xFileNetworkIndex \<Rightarrow> fheap \<Rightarrow> hist \<Rightarrow>
   (xFileNetworkIndex \<times> fheap \<times> hist) option" where
  "register_file os sv fid sz fragcount net hp h = (
     case xfilenetindex_new_file os fid (u64_of_int (fragcount * 2)) hp h of ((f, hp), h) \<Rightarrow>
       (case f of
          None \<Rightarrow> do {
            _ \<leftarrow> fragment_table sv sz fragcount [];
            (net, hp) \<leftarrow> xfilenetindex_add_file net None hp;
            Some (net, hp, h) }
        | Some a \<Rightarrow> do {
            c \<leftarrow> cells hp a;
            table \<leftarrow> fragment_table sv sz fragcount (case fni_fragments c of None \<Rightarrow> [] | Some t \<Rightarrow> t);
            (net, hp) \<leftarrow> xfilenetindex_add_file net (Some a)
                           (hp\<lparr>cells := (cells hp)(a \<mapsto> c\<lparr>fni_fragments := Some table\<rparr>)\<rparr>);
            Some (net, hp, h) }))"

definition handle_new_file :: "os \<Rightarrow> Node \<Rightarrow> hist \<Rightarrow> (outcome \<times> hist) option" where
  "handle_new_file os nd h =
     (case machine_state (nd_sv nd) of
        MSRawPackets s \<Rightarrow> do {
          let sv = nd_sv nd;
          fc \<leftarrow> rp_fc s;
          let sz = rp_total_size s;
          let fragcount = fragment_count sv sz;
          let fid = word_of_int (uint (file_count (nd_fs nd)) + 1);
          (file, fs) \<leftarrow> xfileserver_add_file (nd_fs nd) (rfc_name fc) fid sz (word_of_int fragcount);
          if fragcount = 0 \<or> 2 ^ 31 \<le> fragcount * 2 then None
          else do {
            (net, hp, h) \<leftarrow> register_file os sv fid sz fragcount (nd_net nd) (nd_hp nd) h;
            _ \<leftarrow> xfileserver_debug (Some fs);
            let (sv, h) = server_set_state os sv SERVER_INDEX_FANOUT_FRAGMENTS h;
            Some (Continue \<lparr>nd_sv = sv\<lparr>machine_state := MSHandleNewFile file (rp_buffer s)\<rparr>, nd_fs = fs,
                            nd_net = net, nd_hp = hp\<rparr>, h) } }
      | _ \<Rightarrow> None)"

section \<open>Fanning fragments out\<close>

text \<open>A fragment the index keeps itself goes into the first free of the two slots, or the second.\<close>

definition keep_fragment :: "xFragmentNetworkPointer \<Rightarrow> bytes \<Rightarrow> xFileContainer \<Rightarrow> xFileContainer option" where
  "keep_fragment frag content fc = do {
     f0 \<leftarrow> at (fragments fc) 0;
     frs \<leftarrow> put_at (fragments fc) (if fragment_id f0 = 0 then 0 else 1)
             \<lparr>fragment_id = ucast (np_fragment frag), fragment_bytes = Some content, fragment_size = np_size frag\<rparr>;
     Some (fc\<lparr>fragments := frs\<rparr>) }"

definition put_container :: "xFileServer \<Rightarrow> nat \<Rightarrow> xFileContainer \<Rightarrow> xFileServer" where
  "put_container fs i fc = fs\<lparr>files := map_option (\<lambda>xs. xs[i := fc]) (files fs)\<rparr>"

text \<open>One fragment: keep it, or dial its node, present oneself, declare the fragment and send it.\<close>

definition fanout_one ::
  "os \<Rightarrow> Server \<Rightarrow> bytes \<Rightarrow> int \<Rightarrow> nat \<Rightarrow> xFileServer \<Rightarrow> nat \<Rightarrow> xFragmentNetworkPointer \<Rightarrow> hist \<Rightarrow>
   (xFileServer \<times> hist) option" where
  "fanout_one os sv buffer baseoffset fci fs i frag h = do {
     fc \<leftarrow> at (containers fs) (int fci);
     let offset = baseoffset * (uint (np_fragment frag) - 1);
     if offset < 0 \<or> 2 ^ 31 \<le> offset then None
     else if np_node_id frag = me_node_id sv then
       let (m, h) = sys_malloc os (unat (np_size frag)) h in
       case m of
         None \<Rightarrow> None
       | Some _ \<Rightarrow> do {
           content \<leftarrow> memcpy_from buffer (nat offset) (unat (np_size frag));
           fc \<leftarrow> keep_fragment frag content fc;
           Some (put_container fs fci fc, h) }
     else do {
       d \<leftarrow> index_data sv;
       a \<leftarrow> at (peer_ips d) (uint (np_node_id frag) - 1);
       let (fd, h) = server_dial os a h;
       (_, h) \<leftarrow> server_send_to_socket os (xpacket_presentation sv) fd h;
       let (_, h) = server_wait_from_socket os fd h;
       (_, h) \<leftarrow> server_send_to_socket os (xpacket_send_fragment sv (xreqfragcreation_new fc frag (int i))) fd h;
       let (_, h) = server_wait_from_socket os fd h;
       if length buffer < nat offset then None
       else do {
         (_, h) \<leftarrow> server_send_large_buffer_to os fd (int_of_u64 (np_size frag)) (drop (nat offset) buffer) h;
         Some (fs, h) } } }"

fun fanout_all ::
  "os \<Rightarrow> Server \<Rightarrow> bytes \<Rightarrow> int \<Rightarrow> nat \<Rightarrow> xFileServer \<Rightarrow> nat \<Rightarrow> xFragmentNetworkPointer list \<Rightarrow> hist \<Rightarrow>
   (xFileServer \<times> hist) option" where
  "fanout_all os sv buffer baseoffset fci fs i [] h = Some (fs, h)"
| "fanout_all os sv buffer baseoffset fci fs i (frag # frags) h = do {
     (fs, h) \<leftarrow> fanout_one os sv buffer baseoffset fci fs i frag h;
     fanout_all os sv buffer baseoffset fci fs (Suc i) frags h }"

definition handle_fanout_fragments :: "os \<Rightarrow> Node \<Rightarrow> hist \<Rightarrow> (outcome \<times> hist) option" where
  "handle_fanout_fragments os nd h =
     (case machine_state (nd_sv nd) of
        MSHandleNewFile file buf \<Rightarrow> do {
          let sv = nd_sv nd;
          _ \<leftarrow> xfilenetindex_debug show_nat (Some (nd_net nd)) (nd_hp nd);
          fci \<leftarrow> file;
          buffer \<leftarrow> buf;
          fc \<leftarrow> at (containers (nd_fs nd)) (int fci);
          r \<leftarrow> xfilenetindex_find_file (nd_net nd) (nd_hp nd) (file_id fc);
          a \<leftarrow> r;
          f \<leftarrow> cells (nd_hp nd) a;
          if total_fragments f div of_nat REDUNDANCY = 0 then None
          else do {
            let baseoffset = int_of_u64 (fc_size fc div (total_fragments f div of_nat REDUNDANCY));
            table \<leftarrow> fni_fragments f;
            if length table < unat (total_fragments f) then None
            else do {
              (fs, h) \<leftarrow> fanout_all os sv buffer baseoffset fci (nd_fs nd) 0 (take (unat (total_fragments f)) table) h;
              _ \<leftarrow> xfileserver_debug (Some fs);
              let (sv, h) = server_set_state os sv SERVER_IDLE h;
              Some (Continue (nd\<lparr>nd_sv := sv, nd_fs := fs\<rparr>), h) } } }
      | _ \<Rightarrow> None)"

section \<open>Collecting the fragments of a requested file\<close>

text \<open>The holder to ask for fragment \<open>i\<close>: the first copy, or the second when nodes have died and the
  first holder is not valid.\<close>

definition choose_copy :: "Server \<Rightarrow> int \<Rightarrow> xFragmentNetworkPointer list \<Rightarrow> nat \<Rightarrow> xFragmentNetworkPointer option" where
  "choose_copy sv frag_count table i = do {
     n \<leftarrow> at table (int (i * REDUNDANCY));
     if 0 < death_count sv \<and> u64_of_int frag_count \<noteq> net_size sv * of_nat REDUNDANCY then do {
       valid \<leftarrow> server_is_valid_node sv (np_node_id n);
       if valid then Some n else at table (int (i * REDUNDANCY) + 1) }
     else Some n }"

definition request_one ::
  "os \<Rightarrow> Server \<Rightarrow> xFileServer \<Rightarrow> int \<Rightarrow> int \<Rightarrow> xFragmentNetworkPointer \<Rightarrow> hist \<Rightarrow> hist option" where
  "request_one os sv fs fid deliver_to frag h = do {
     d \<leftarrow> index_data sv;
     deliver_to_addr \<leftarrow> at (peer_ips d) (deliver_to - 1);
     if np_node_id frag = u64_of_int deliver_to then do {
       (_, h) \<leftarrow> xprocedure_send_use_local os sv (uint (np_fragment frag)) deliver_to_addr h;
       Some h }
     else if np_node_id frag = me_node_id sv then do {
       (_, h) \<leftarrow> xprocedure_send_fragment os sv fs fid (uint (np_fragment frag)) deliver_to_addr h;
       Some h }
     else do {
       addr \<leftarrow> at (peer_ips d) (int_of_u64 (np_node_id frag - 1));
       (_, h) \<leftarrow> xprocedure_send_request_fragment os sv addr fid (uint (np_fragment frag)) deliver_to_addr h;
       Some h } }"

fun request_all ::
  "os \<Rightarrow> Server \<Rightarrow> xFileServer \<Rightarrow> int \<Rightarrow> int \<Rightarrow> xFragmentNetworkPointer list \<Rightarrow> hist \<Rightarrow> hist option" where
  "request_all os sv fs fid deliver_to [] h = Some h"
| "request_all os sv fs fid deliver_to (frag # frags) h = do {
     h \<leftarrow> request_one os sv fs fid deliver_to frag h;
     request_all os sv fs fid deliver_to frags h }"

fun choose_all :: "Server \<Rightarrow> int \<Rightarrow> xFragmentNetworkPointer list \<Rightarrow> nat list \<Rightarrow> xFragmentNetworkPointer list option" where
  "choose_all sv frag_count table [] = Some []"
| "choose_all sv frag_count table (i # is) = do {
     f \<leftarrow> choose_copy sv frag_count table i;
     fs \<leftarrow> choose_all sv frag_count table is;
     Some (f # fs) }"

text \<open>A file the index does not know is reported and then dereferenced all the same (there is no
  \<open>break\<close>), which has no result here.\<close>

definition handle_request_fragments :: "os \<Rightarrow> Node \<Rightarrow> hist \<Rightarrow> (outcome \<times> hist) option" where
  "handle_request_fragments os nd h =
     (case machine_state (nd_sv nd) of
        MSRequestedFile s \<Rightarrow> do {
          let sv = nd_sv nd;
          let frag_count = rq_fragment_count s;
          deliver \<leftarrow> rq_deliver_to s;
          r \<leftarrow> xfilenetindex_find_file (nd_net nd) (nd_hp nd) (word_of_int (rq_file_id s));
          a \<leftarrow> r;
          f \<leftarrow> cells (nd_hp nd) a;
          let table = (case fni_fragments f of None \<Rightarrow> [] | Some t \<Rightarrow> t);
          let (m, h) = sys_malloc os (unat (u64_of_int frag_count * 8)) h;
          if m = None \<and> 0 < frag_count then None
          else do {
            frags \<leftarrow> choose_all sv frag_count table [0..<nat frag_count];
            h \<leftarrow> request_all os sv (nd_fs nd) (rq_file_id s) (int_of_u64 deliver) frags h;
            let h = EvFree # h;
            let (sv, h) = server_set_state os sv SERVER_IDLE h;
            Some (Continue (nd\<lparr>nd_sv := sv\<rparr>), h) } }
      | _ \<Rightarrow> None)"

section \<open>Storing a fragment\<close>

definition handle_received_fragment :: "os \<Rightarrow> Node \<Rightarrow> hist \<Rightarrow> (outcome \<times> hist) option" where
  "handle_received_fragment os nd h =
     (case machine_state (nd_sv nd) of
        MSRawPackets s \<Rightarrow> do {
          c \<leftarrow> rp_fragc s;
          case xfileserver_find_file (nd_fs nd) (rfr_file_id c) of
            None \<Rightarrow>
              let (sv, h) = server_set_state os (nd_sv nd) SERVER_IDLE h
              in Some (Continue (nd\<lparr>nd_sv := sv\<rparr>), h)
          | Some i \<Rightarrow> do {
              fc \<leftarrow> at (containers (nd_fs nd)) (int i);
              buffer \<leftarrow> rp_buffer s;
              ((_, fc'), h) \<leftarrow> xfileserver_add_fragment os (Some fc) (ucast (rfr_frag_id c)) buffer (rfr_frag_size c) h;
              let fs = put_container (nd_fs nd) i (the fc');
              _ \<leftarrow> xfileserver_debug (Some fs);
              let h = EvFree # h;
              let (sv, h) = server_set_state os (nd_sv nd) SERVER_IDLE h;
              Some (Continue (nd\<lparr>nd_sv := sv, nd_fs := fs\<rparr>), h) } }
      | _ \<Rightarrow> None)"

section \<open>Assembling a requested file\<close>

text \<open>Where a fragment goes in the assembled file; \<open>w\<close> is the number of fragments.\<close>

definition fragment_offset :: "u64 \<Rightarrow> int \<Rightarrow> int \<Rightarrow> int option" where
  "fragment_offset file_size w frag_id =
     (if w = 0 then None
      else let offset = int_of_u64 (file_size div u64_of_int w) * (frag_id - 1) in
        if offset < 0 \<or> 2 ^ 31 \<le> offset then None else Some offset)"

text \<open>Copy a fragment to its place in the buffer of the whole file.\<close>

definition put_piece :: "u64 \<Rightarrow> int \<Rightarrow> int \<Rightarrow> bytes \<Rightarrow> bytes \<Rightarrow> bytes option" where
  "put_piece file_size w frag_id piece buf = do {
     offset \<leftarrow> fragment_offset file_size w frag_id;
     memcpy_to buf (nat offset) piece }"

definition use_local_copy :: "StateRequestedFile \<Rightarrow> xFileServer \<Rightarrow> u64 \<Rightarrow> bytes \<Rightarrow> bytes option option" where
  "use_local_copy s fs frag_id buf =
     (case xfileserver_find_file fs (u64_of_int (rq_file_id s)) of
        None \<Rightarrow> Some None
      | Some i \<Rightarrow> do {
          fc \<leftarrow> at (containers fs) (int i);
          f0 \<leftarrow> at (fragments fc) 0;
          fp \<leftarrow> (if ucast (fragment_id f0) \<noteq> frag_id then at (fragments fc) 1 else Some f0);
          content \<leftarrow> fragment_bytes fp;
          piece \<leftarrow> memcpy_from content 0 (unat (fragment_size fp));
          buf \<leftarrow> put_piece (fc_size fc) (rq_fragment_count s) (uint (fragment_id fp)) piece buf;
          Some (Some buf) })"

definition take_delivery ::
  "os \<Rightarrow> Server \<Rightarrow> StateRequestedFile \<Rightarrow> xDeclareFragmentTransport \<Rightarrow> int \<Rightarrow> bytes \<Rightarrow> hist \<Rightarrow> (bytes \<times> hist) option" where
  "take_delivery os sv s d c buf h = (
     let frag_size = int_of_u64 (dtr_frag_size d);
         frag_id = int_of_u64 (dtr_frag_id d);
         (m, h) = sys_malloc os (unat (u64_of_int frag_size)) h in do {
     buffer \<leftarrow> m;
     ((_, buffer), h) \<leftarrow> server_wait_large_buffer_from os c frag_size buffer h;
     (_, h) \<leftarrow> server_send_ok os sv c h;
     let h = server_close_socket sv c h;
     piece \<leftarrow> memcpy_from buffer 0 (unat (u64_of_int frag_size));
     buf \<leftarrow> put_piece (rq_file_size s) (rq_fragment_count s) frag_id piece buf;
     Some (buf, EvFree # h) })"

text \<open>One incoming connection while fragments are missing.\<close>

definition collect_fragment ::
  "os \<Rightarrow> Node \<Rightarrow> StateRequestedFile \<Rightarrow> int \<Rightarrow> bytes \<Rightarrow> hist \<Rightarrow> (StateRequestedFile \<times> hist) option" where
  "collect_fragment os nd s found buf h =
     (let sv = nd_sv nd; (c, h) = server_accept os sv h in
      if c \<le> 0 then Some (s, h)
      else
        let (N, h) = server_wait_client_presentation os c h in
        if N = 0 then Some (s, h)
        else do {
          (_, h) \<leftarrow> server_send_to_socket os (xpacket_ok sv) c h;
          let (p, h) = server_wait_from_socket os c h;
          if psize p = 0 then Some (s, h)
          else do {
            (_, h) \<leftarrow> server_send_ok os sv c h;
            if comm_type p = TYPE_DECLARE_USE_LOCAL then do {
              r \<leftarrow> use_local_copy s (nd_fs nd) (get_use_local_frag_id p) buf;
              case r of
                None \<Rightarrow> Some (s, h)
              | Some buf \<Rightarrow> Some (s\<lparr>rq_buffer := Some buf, rq_fragment_found := Some (found + 1)\<rparr>, h) }
            else do {
              (buf, h) \<leftarrow> take_delivery os sv s (get_declare_fragment_transport p) c buf h;
              Some (s\<lparr>rq_buffer := Some buf, rq_fragment_found := Some (found + 1)\<rparr>, h) } } })"

definition handle_wait_request_fragments :: "os \<Rightarrow> Node \<Rightarrow> hist \<Rightarrow> (outcome \<times> hist) option" where
  "handle_wait_request_fragments os nd h =
     (case machine_state (nd_sv nd) of
        MSRequestedFile s \<Rightarrow> do {
          let sv = nd_sv nd;
          found \<leftarrow> rq_fragment_found s;
          buf \<leftarrow> rq_buffer s;
          if rq_fragment_count s \<noteq> found then do {
            (s, h) \<leftarrow> collect_fragment os nd s found buf h;
            Some (Continue (nd\<lparr>nd_sv := sv\<lparr>machine_state := MSRequestedFile s\<rparr>\<rparr>), h) }
          else do {
            let client = rq_from_fd s;
            let (_, h) = server_wait_ok os client h;
            (_, h) \<leftarrow> server_send_large_buffer_to os client (int_of_u64 (rq_file_size s)) buf h;
            let (sv, h) = server_set_state os sv SERVER_IDLE h;
            Some (Continue (nd\<lparr>nd_sv := sv\<rparr>), h) } }
      | _ \<Rightarrow> None)"

end
