(* ===== verification/Node_Machine.thy ===== *)
theory Node_Machine
  imports Node_Files
begin

text \<open>
  \<open>main\<close>: start-up, the \<open>switch\<close> over the state, and the loop around it as a step relation. The
  parameter \<open>junk\<close> of the machine is the sender id \<open>xprocedure_wait_identification\<close> reads off the
  stack; the uninitialised \<open>Server\<close> of \<open>main\<close> is a parameter of the start-up.
  The lemmas give the invariant of the machine: the two file tables stay well formed, and the
  member of the union \<open>machine_state\<close> that a state's handler reads is the one written last. The
  contract every handler fulfils is the locale \<open>handler\<close>, interpreted once per \<open>case\<close>.
\<close>

section \<open>Start-up and the main loop\<close>

definition main_init :: "os \<Rightarrow> Server \<Rightarrow> string list \<Rightarrow> hist \<Rightarrow> (outcome \<times> hist) option" where
  "main_init os sv0 argv h =
     (let (ok, args) = parse_args argv in
      if ok = 0 then Some (Return 1, h)
      else if fst (address_from_string (Some (me_ip sv0)) (Some (arg_ip args))) = 0 then Some (Return 1, h)
      else do {
        ((ok, sv), h) \<leftarrow> server_init os sv0 args h;
        if ok = 0 then Some (Return 1, h)
        else
          let ((ok, fs), h) = xfileserver_init os h in
          if ok = 0 then Some (Return 1, h)
          else
            let (ok, net) = xfilenetindex_init in
            if ok = 0 then Some (Return 1, h)
            else Some (Continue \<lparr>nd_sv = sv, nd_fs = fs, nd_net = net, nd_hp = empty_heap\<rparr>, h) })"

definition main_switch :: "os \<Rightarrow> (hist \<Rightarrow> u64) \<Rightarrow> Node \<Rightarrow> hist \<Rightarrow> (outcome \<times> hist) option" where
  "main_switch os junk nd h =
     (case sv_state (nd_sv nd) of
        SERVER_BOOTING \<Rightarrow> handle_booting os nd h
      | SERVER_CONNECTING \<Rightarrow> handle_connecting os nd h
      | SERVER_WAITING_NEW_PEER \<Rightarrow> handle_waiting_new_peer os nd h
      | SERVER_BEGIN_OPERATION \<Rightarrow> handle_begin_operation os nd h
      | SERVER_INDEX_PRESENT_ITSELF \<Rightarrow> handle_index_present_itself os nd h
      | SERVER_INDEX_WAITING_PEERS_KNOWLEDGE \<Rightarrow> handle_index_waiting_peers os junk nd h
      | SERVER_WAIT_INDEX_GOSSIP \<Rightarrow> handle_wait_index_gossip os nd h
      | SERVER_REPORT_KNOWLEDGE_TO_INDEX \<Rightarrow> handle_report_knowledge os nd h
      | SERVER_IDLE \<Rightarrow> handle_idle os nd h
      | SERVER_RECEIVED_PACKET \<Rightarrow> handle_received_packet os nd h
      | SERVER_WAITING_RAW_PACKETS \<Rightarrow> handle_waiting_raw_packets os nd h
      | SERVER_INDEX_HANDLE_NEW_FILE \<Rightarrow> handle_new_file os nd h
      | SERVER_INDEX_FANOUT_FRAGMENTS \<Rightarrow> handle_fanout_fragments os nd h
      | SERVER_INDEX_REQUEST_FRAGMENTS \<Rightarrow> handle_request_fragments os nd h
      | SERVER_RECEIVED_FRAGMENT \<Rightarrow> handle_received_fragment os nd h
      | SERVER_WAIT_REQUEST_FRAGMENTS \<Rightarrow> handle_wait_request_fragments os nd h
      | SERVER_INDEX_HANDLE_DEAD_PEER \<Rightarrow> Some (Continue nd, h)
      | SERVER_OTHER \<Rightarrow> Some (Continue nd, h))"

definition main_round :: "os \<Rightarrow> (hist \<Rightarrow> u64) \<Rightarrow> Node \<Rightarrow> hist \<Rightarrow> (outcome \<times> hist) option" where
  "main_round os junk nd h = do {
     (r, h) \<leftarrow> main_switch os junk nd h;
     case r of
       Continue nd \<Rightarrow> Some (Continue nd, usleep 1000 h)
     | Return code \<Rightarrow> Some (Return code, h) }"

inductive node_step :: "os \<Rightarrow> (hist \<Rightarrow> u64) \<Rightarrow> Node \<times> hist \<Rightarrow> Node \<times> hist \<Rightarrow> bool" for os junk where
  round: "main_round os junk nd h = Some (Continue nd', h') \<Longrightarrow> node_step os junk (nd, h) (nd', h')"

inductive reachable :: "os \<Rightarrow> (hist \<Rightarrow> u64) \<Rightarrow> Server \<Rightarrow> string list \<Rightarrow> Node \<times> hist \<Rightarrow> bool" for os junk sv0 argv where
  init: "main_init os sv0 argv [] = Some (Continue nd, h) \<Longrightarrow> reachable os junk sv0 argv (nd, h)"
| step: "reachable os junk sv0 argv s \<Longrightarrow> node_step os junk s s' \<Longrightarrow> reachable os junk sv0 argv s'"

inductive_simps node_step_iff: "node_step os junk (nd, h) (nd', h')"

section \<open>The invariant\<close>

text \<open>The member of the union a state reads, with the parts of it the handler uses.\<close>

definition member_ok :: "eServerState \<Rightarrow> uMachineState \<Rightarrow> nat \<Rightarrow> bool" where
  "member_ok st ms nfiles \<longleftrightarrow>
     (case st of
        SERVER_INDEX_WAITING_PEERS_KNOWLEDGE \<Rightarrow> (case ms of MSIndexWaitingPeers _ \<Rightarrow> True | _ \<Rightarrow> False)
      | SERVER_RECEIVED_PACKET \<Rightarrow> (case ms of MSReceivedPacket _ _ \<Rightarrow> True | _ \<Rightarrow> False)
      | SERVER_WAITING_RAW_PACKETS \<Rightarrow>
          (case ms of MSRawPackets s \<Rightarrow> rp_trigger_pkt s = TYPE_CREATE_FILE \<and> rp_fc s \<noteq> None \<or>
                                      rp_trigger_pkt s = TYPE_STORE_FRAGMENT \<and> rp_fragc s \<noteq> None
           | _ \<Rightarrow> False)
      | SERVER_INDEX_HANDLE_NEW_FILE \<Rightarrow> (case ms of MSRawPackets s \<Rightarrow> rp_fc s \<noteq> None | _ \<Rightarrow> False)
      | SERVER_RECEIVED_FRAGMENT \<Rightarrow> (case ms of MSRawPackets s \<Rightarrow> rp_fragc s \<noteq> None | _ \<Rightarrow> False)
      | SERVER_INDEX_FANOUT_FRAGMENTS \<Rightarrow>
          (case ms of MSHandleNewFile f _ \<Rightarrow> (case f of None \<Rightarrow> True | Some i \<Rightarrow> i < nfiles) | _ \<Rightarrow> False)
      | SERVER_INDEX_REQUEST_FRAGMENTS \<Rightarrow> (case ms of MSRequestedFile s \<Rightarrow> rq_deliver_to s \<noteq> None | _ \<Rightarrow> False)
      | SERVER_WAIT_REQUEST_FRAGMENTS \<Rightarrow>
          (case ms of
             MSRequestedFile s \<Rightarrow> rq_fragment_found s \<noteq> None \<and>
               (case rq_buffer s of None \<Rightarrow> False | Some b \<Rightarrow> length b = unat (rq_file_size s))
           | _ \<Rightarrow> False)
      | _ \<Rightarrow> True)"

definition tables_ok :: "Node \<Rightarrow> bool" where
  "tables_ok nd \<longleftrightarrow> fs_inv (nd_fs nd) \<and> fni_inv (nd_net nd) (nd_hp nd) \<and> tables_full (nd_hp nd)"

definition node_ok :: "Node \<Rightarrow> bool" where
  "node_ok nd \<longleftrightarrow> tables_ok nd \<and>
     member_ok (sv_state (nd_sv nd)) (machine_state (nd_sv nd)) (length (containers (nd_fs nd)))"

text \<open>The contract of a handler: from a good node in its state it leads to a good node.\<close>

locale handler =
  fixes st :: eServerState
    and run :: "Node \<Rightarrow> hist \<Rightarrow> (outcome \<times> hist) option"
  assumes keeps: "node_ok nd \<Longrightarrow> sv_state (nd_sv nd) = st \<Longrightarrow> run nd h = Some (Continue nd', h') \<Longrightarrow> node_ok nd'"
    and exits: "run nd h = Some (Return r, h') \<Longrightarrow> r = 1"
begin

lemma round_keeps:
  assumes "node_ok nd" and "sv_state (nd_sv nd) = st" and "run nd h = main_switch os junk nd h"
    and "main_round os junk nd h = Some (Continue nd', h')"
  shows "node_ok nd'"
  using assms keeps [of nd h] by (auto simp: main_round_def split: Option.bind_splits outcome.splits)

lemma round_exits:
  assumes "run nd h = main_switch os junk nd h" and "main_round os junk nd h = Some (Return r, h')"
  shows "r = 1"
  using assms exits [of nd h] by (auto simp: main_round_def split: Option.bind_splits outcome.splits)

end

section \<open>Lemmas: what the operations keep\<close>

lemma set_stateD:
  assumes "server_set_state os sv st h = (sv', h')"
  shows "sv_state sv' = st" and "st \<noteq> SERVER_INDEX_WAITING_PEERS_KNOWLEDGE \<Longrightarrow> machine_state sv' = machine_state sv"
    and "st = SERVER_INDEX_WAITING_PEERS_KNOWLEDGE \<Longrightarrow> machine_state sv' = MSIndexWaitingPeers 0"
proof -
  have m: "machine_state sv' = (if st = SERVER_INDEX_WAITING_PEERS_KNOWLEDGE then MSIndexWaitingPeers 0 else machine_state sv)"
    using set_state_machine [of os sv st h] assms by simp
  show "sv_state sv' = st" using set_state_fields(1) [of os sv st h] assms by simp
  show "st \<noteq> SERVER_INDEX_WAITING_PEERS_KNOWLEDGE \<Longrightarrow> machine_state sv' = machine_state sv"
    "st = SERVER_INDEX_WAITING_PEERS_KNOWLEDGE \<Longrightarrow> machine_state sv' = MSIndexWaitingPeers 0"
    by (simp_all add: m)
qed

lemma place_report_length: "place_report r t = Some t' \<Longrightarrow> length t' = length t"
  by (auto simp: place_report_def Let_def simp del: at_Some split: Option.bind_split_asm if_split_asm)

lemma save_keeps:
  assumes "xprocedure_save_file_to_index os fs net hp r h = Some (fs', net', hp', h')"
    and "fs_inv fs" and "fni_inv net hp" and "tables_full hp"
  shows "fs_inv fs' \<and> fni_inv net' hp' \<and> tables_full hp'"
proof -
  from assms(1) obtain fni a net1 hp1 p f t0 table where
      find: "xfilenetindex_find_file net hp (rk_file_id r) = Some fni"
    and new: "(case fni of Some a \<Rightarrow> Some (Some a, net, hp, h)
        | None \<Rightarrow> do {
            let ((fni, hp), h) = xfilenetindex_new_file os (rk_file_id r)
                                   (ucast (rk_frag_count r) * of_nat REDUNDANCY) hp h;
            (net, hp) \<leftarrow> xfilenetindex_add_file net fni hp;
            Some (fni, net, hp, h) }) =
        Some (Some a, net1, hp1, h')"
    and fs': "(case xfileserver_find_file fs (ucast (rk_file_id r)) of Some i \<Rightarrow> Some (Some i, fs)
        | None \<Rightarrow> xfileserver_add_file fs (rk_file_name r) (rk_file_id r) (rk_file_size r) (rk_frag_count r)) = Some (p, fs')"
    and f: "cells hp1 a = Some f" "fni_fragments f = Some t0" "place_report r t0 = Some table" "hp' = hp1\<lparr>cells := (cells hp1)(a \<mapsto> f\<lparr>fni_fragments := Some table\<rparr>)\<rparr>" "net' = net1"
    by (auto simp: xprocedure_save_file_to_index_def split: Option.bind_splits)
  have "fs_inv fs'"
    using fs' assms(2) add_file_kept [OF assms(2)] by (auto split: option.splits)
  moreover have "fni_inv net1 hp1 \<and> tables_full hp1"
  proof (cases fni)
    case None
    with new obtain hp0 where n: "xfilenetindex_new_file os (rk_file_id r) (ucast (rk_frag_count r) * of_nat REDUNDANCY) hp h =
          ((Some a, hp0), h')" "xfilenetindex_add_file net (Some a) hp0 = Some (net1, hp1)"
      by (auto split: prod.splits Option.bind_splits)
    then have "fni_create os (rk_file_id r, ucast (rk_frag_count r) * of_nat REDUNDANCY) (net, hp, h) = Some (a, net1, hp1, h')"
      by (simp add: fni_create_def)
    then have "fni_inv net1 hp1" using assms(3) fni_create_list by blast
    with add_file_full [OF new_file_full [OF assms(4) n(1)] n(2)] show ?thesis by blast
  qed (use new assms(3,4) in simp)
  ultimately show ?thesis
    using table_upd(1) [of net1 hp1 a f "Some table"] full_upd [of hp1 a f table] full_at [of hp1 a f t0]
      place_report_length [of r t0 table] f by simp
qed

lemma index_own_files_keeps:
  assumes "index_own_files os me i fs net hp h = Some (fs', net', hp', h')" and "fs_inv fs" and "fni_inv net hp" and "tables_full hp"
  shows "fs_inv fs' \<and> fni_inv net' hp' \<and> tables_full hp'"
proof -
  have "fs_inv fs \<longrightarrow> fni_inv net hp \<and> tables_full hp \<longrightarrow> (case (fs', net', hp', h') of (fs', net', hp', h') \<Rightarrow> fs_inv fs' \<and> fni_inv net' hp' \<and> tables_full hp')"
  proof (rule index_own_files.raw_induct [OF _ assms(1)])
    fix own :: "os \<Rightarrow> u64 \<Rightarrow> nat \<Rightarrow> xFileServer \<Rightarrow> xFileNetworkIndex \<Rightarrow> fheap \<Rightarrow> hist \<Rightarrow>
        (xFileServer \<times> xFileNetworkIndex \<times> fheap \<times> hist) option" and os me i fs net hp h r
    assume IH: "\<And>os me i fs net hp h r. own os me i fs net hp h = Some r \<Longrightarrow>
        fs_inv fs \<longrightarrow> fni_inv net hp \<and> tables_full hp \<longrightarrow> (case r of (fs', net', hp', h') \<Rightarrow> fs_inv fs' \<and> fni_inv net' hp' \<and> tables_full hp')"
      and eq: "(if i < unat (file_count fs) then do {
        f \<leftarrow> at (containers fs) (int i);
        (fs, net, hp, h) \<leftarrow> xprocedure_save_file_to_index os fs net hp (file_report me f) h;
        own os me (Suc i) fs net hp h }
      else Some (fs, net, hp, h)) = Some r"
    show "fs_inv fs \<longrightarrow> fni_inv net hp \<and> tables_full hp \<longrightarrow> (case r of (fs', net', hp', h') \<Rightarrow> fs_inv fs' \<and> fni_inv net' hp' \<and> tables_full hp')"
      using eq save_keeps IH by (fastforce split: if_splits Option.bind_splits)
  qed
  with assms(2-4) show ?thesis by simp
qed

lemma report_self_member:
  "report_self_received sv p = Some sv' \<Longrightarrow> sv_state sv' = sv_state sv \<and> (\<exists>n. machine_state sv' = MSIndexWaitingPeers n)"
  by (auto simp: report_self_received_def server_index_save_reported_peer_def
      split: Option.bind_splits uMachineState.splits if_splits)

definition collecting :: "Node \<Rightarrow> bool" where
  "collecting nd \<longleftrightarrow> tables_ok nd \<and> sv_state (nd_sv nd) = SERVER_INDEX_WAITING_PEERS_KNOWLEDGE \<and>
     (\<exists>n. machine_state (nd_sv nd) = MSIndexWaitingPeers n)"

lemma collect_knowledge_keeps:
  assumes "collect_knowledge os c nd h = Some (nd', h')" and "collecting nd"
  shows "collecting nd'"
proof -
  have "collecting nd \<longrightarrow> collecting (fst (nd', h'))"
  proof (rule collect_knowledge.raw_induct [OF _ assms(1)])
    fix coll :: "os \<Rightarrow> int \<Rightarrow> Node \<Rightarrow> hist \<Rightarrow> (Node \<times> hist) option" and os c nd h r
    assume IH: "\<And>os c nd h r. coll os c nd h = Some r \<Longrightarrow> collecting nd \<longrightarrow> collecting (fst r)"
      and eq: "(case server_wait_from_socket os c h of (p, h) \<Rightarrow>
        if psize p < 0 then Some (nd, h)
        else if comm_type p = TYPE_REPORT_SELF then do {
          sv \<leftarrow> report_self_received (nd_sv nd) p;
          coll os c (nd\<lparr>nd_sv := sv\<rparr>) h }
        else if comm_type p = TYPE_REPORT_FILE then do {
          (fs, net, hp, h) \<leftarrow>
            xprocedure_save_file_to_index os (nd_fs nd) (nd_net nd) (nd_hp nd) (get_report_file p) h;
          (_, h) \<leftarrow> server_send_ok os (nd_sv nd) c h;
          coll os c (nd\<lparr>nd_fs := fs, nd_net := net, nd_hp := hp\<rparr>) h }
        else if comm_type p = TYPE_OK then do {
          _ \<leftarrow> xfilenetindex_debug show_nat (Some (nd_net nd)) (nd_hp nd);
          Some (nd, h) }
        else coll os c nd h) = Some r"
    have 1: "collecting (nd\<lparr>nd_sv := sv\<rparr>)" if "collecting nd" "report_self_received (nd_sv nd) p = Some sv" for sv p
      using that report_self_member [OF that(2)] by (auto simp: collecting_def tables_ok_def)
    have 2: "collecting (nd\<lparr>nd_fs := fs, nd_net := net, nd_hp := hp\<rparr>)"
      if "collecting nd" "xprocedure_save_file_to_index os (nd_fs nd) (nd_net nd) (nd_hp nd) q h = Some (fs, net, hp, h1)"
      for fs net hp q h h1
      using that save_keeps [OF that(2)] by (auto simp: collecting_def tables_ok_def)
    obtain p h1 where w: "server_wait_from_socket os c h = (p, h1)" by fastforce
    note eq = eq [unfolded w prod.case]
    show "collecting nd \<longrightarrow> collecting (fst r)"
    proof (cases "psize p < 0 \<or> comm_type p = TYPE_OK")
      case True
      with eq show ?thesis by (auto split: if_splits Option.bind_splits)
    next
      case False
      show ?thesis
      proof (cases "comm_type p = TYPE_REPORT_SELF")
        case True
        with False eq obtain sv where "report_self_received (nd_sv nd) p = Some sv" "coll os c (nd\<lparr>nd_sv := sv\<rparr>) h1 = Some r"
          by (auto split: Option.bind_splits)
        with 1 IH show ?thesis by blast
      next
        case nself: False
        show ?thesis
        proof (cases "comm_type p = TYPE_REPORT_FILE")
          case True
          with False nself eq obtain fs net hp h2 h3 where
              "xprocedure_save_file_to_index os (nd_fs nd) (nd_net nd) (nd_hp nd) (get_report_file p) h1 = Some (fs, net, hp, h2)"
              "coll os c (nd\<lparr>nd_fs := fs, nd_net := net, nd_hp := hp\<rparr>) h3 = Some r"
            by (auto split: Option.bind_splits)
          with 2 IH show ?thesis by blast
        next
          case nfile: False
          with False nself eq have "coll os c nd h1 = Some r" by simp
          with IH show ?thesis by blast
        qed
      qed
    qed
  qed
  with assms(2) show ?thesis by simp
qed

lemma healthcheck_state:
  "server_healthcheck os sv h = Some (sv', h') \<Longrightarrow> sv_state sv' = sv_state sv \<or> sv_state sv' = SERVER_WAITING_NEW_PEER"
  by (auto simp: server_healthcheck_def split_def Let_def split: if_splits Option.bind_splits
      dest: set_stateD(1))

lemma check_peer_b_state:
  "xprocedure_check_peer_b os sv h = Some (sv', h') \<Longrightarrow>
   sv_state sv' = sv_state sv \<or> sv_state sv' = SERVER_BEGIN_OPERATION"
proof -
  have d: "sv_state (snd (fst (server_dial_peer os sv h))) = sv_state sv" for sv h
    by (simp add: server_dial_peer_def split_def Let_def)
  have f: "forget_peer sv n = Some sv' \<Longrightarrow> sv_state sv' = sv_state sv" for sv sv' n
    by (auto simp: forget_peer_def split: Option.bind_splits)
  show "xprocedure_check_peer_b os sv h = Some (sv', h') \<Longrightarrow> ?thesis"
    by (auto simp: xprocedure_check_peer_b_def peer_died_received_def split_def Let_def d
        split: if_splits Option.bind_splits dest: set_stateD(1) dest!: f)
qed

lemma put_container_inv:
  assumes "fs_inv fs" and "container_ok fc"
  shows "fs_inv (put_container fs i fc) \<and> length (containers (put_container fs i fc)) = length (containers fs)"
proof (cases "files fs")
  case (Some xs)
  have "list_all container_ok (xs[i := fc])" if "list_all container_ok xs"
    using that assms(2) set_update_subset_insert [of xs i fc] by (auto simp: list_all_iff)
  with assms(1) Some show ?thesis by (simp add: put_container_def fs_inv_def containers_def)
qed (use assms in \<open>simp add: put_container_def fs_inv_def containers_def\<close>)

lemma container_at:
  assumes "fs_inv fs" and "at (containers fs) i = Some fc"
  shows "container_ok fc"
  using assms by (auto simp: fs_inv_def containers_def list_all_length split: option.splits)

lemma keep_fragment_ok: "keep_fragment frag b fc = Some fc' \<Longrightarrow> container_ok fc \<Longrightarrow> container_ok fc'"
  by (auto simp: keep_fragment_def container_ok_def split: Option.bind_splits)

lemma add_fragment_ok:
  "xfileserver_add_fragment os (Some fc) fid b n h = Some ((r, fc'), h') \<Longrightarrow> container_ok fc \<Longrightarrow>
   \<exists>c. fc' = Some c \<and> container_ok c"
  by (auto simp: xfileserver_add_fragment_def container_ok_def Let_def split_def
      split: Option.bind_splits option.splits)

lemma fanout_one_store:
  assumes "fanout_one os sv b off fci fs i frag h = Some (fs', h')"
  shows "fs' = fs \<or> (\<exists>fc fc' content. at (containers fs) (int fci) = Some fc \<and>
           keep_fragment frag content fc = Some fc' \<and> fs' = put_container fs fci fc')"
proof (cases "np_node_id frag = me_node_id sv")
  case True
  with assms show ?thesis
    by (auto simp: fanout_one_def Let_def split_def simp del: at_Some at_int memcpy_from_Some
        split: Option.bind_split_asm if_split_asm option.split_asm)
next
  case False
  with assms show ?thesis
    by (auto simp: fanout_one_def Let_def split_def simp del: at_Some at_int
        split: Option.bind_split_asm if_split_asm)
qed

lemma fanout_one_keeps:
  "fanout_one os sv b off fci fs i frag h = Some (fs', h') \<Longrightarrow> fs_inv fs \<Longrightarrow> fs_inv fs'"
  using fanout_one_store [of os sv b off fci fs i frag h fs' h'] keep_fragment_ok container_at put_container_inv
  by blast

lemma fanout_all_keeps:
  "fanout_all os sv b off fci fs i frags h = Some (fs', h') \<Longrightarrow> fs_inv fs \<Longrightarrow> fs_inv fs'"
  by (induction frags arbitrary: fs i h) (auto split: Option.bind_splits dest: fanout_one_keeps)

section \<open>Every handler fulfils the contract\<close>

lemmas ok_defs = node_ok_def tables_ok_def member_ok_def

interpretation booting: handler SERVER_BOOTING "handle_booting os" for os
  by unfold_locales
    (auto simp: handle_booting_def ok_defs split_def Let_def split: if_split_asm)

interpretation connecting: handler SERVER_CONNECTING "handle_connecting os" for os
proof unfold_locales
  have d: "sv_state (snd (fst (server_dial_peer os sv h))) = sv_state sv" for sv h
    by (simp add: server_dial_peer_def split_def Let_def)
  show "node_ok nd'" if "node_ok nd" "sv_state (nd_sv nd) = SERVER_CONNECTING"
      "handle_connecting os nd h = Some (Continue nd', h')" for nd h nd' h'
    using that by (auto simp: handle_connecting_def ok_defs split_def Let_def d split: if_split_asm)
  show "r = 1" if "handle_connecting os nd h = Some (Return r, h')" for nd h r h'
    using that by (auto simp: handle_connecting_def split_def Let_def split: if_split_asm)
qed

interpretation new_peer: handler SERVER_WAITING_NEW_PEER "handle_waiting_new_peer os" for os
  by unfold_locales
    (auto simp: handle_waiting_new_peer_def ok_defs split_def Let_def split: if_split_asm)

interpretation begin_op: handler SERVER_BEGIN_OPERATION "handle_begin_operation os" for os
  by unfold_locales
    (auto simp: handle_begin_operation_def ok_defs split_def Let_def
      split: if_split_asm Option.bind_split_asm dest!: index_own_files_keeps)

interpretation present: handler SERVER_INDEX_PRESENT_ITSELF "handle_index_present_itself os" for os
  by unfold_locales
    (auto simp: handle_index_present_itself_def ok_defs split_def Let_def split: if_split_asm Option.bind_split_asm)

interpretation gossip: handler SERVER_WAIT_INDEX_GOSSIP "handle_wait_index_gossip os" for os
  by unfold_locales
    (auto simp: handle_wait_index_gossip_def ok_defs split_def Let_def split: if_split_asm Option.bind_split_asm)

interpretation report: handler SERVER_REPORT_KNOWLEDGE_TO_INDEX "handle_report_knowledge os" for os
proof unfold_locales
  have d: "sv_state (snd (fst (server_dial_index os sv h))) = sv_state sv" for sv h
    by (simp add: server_dial_index_def split_def Let_def)
  show "node_ok nd'" if "node_ok nd" "sv_state (nd_sv nd) = SERVER_REPORT_KNOWLEDGE_TO_INDEX"
      "handle_report_knowledge os nd h = Some (Continue nd', h')" for nd h nd' h'
    using that by (auto simp: handle_report_knowledge_def ok_defs split_def Let_def d split: if_split_asm Option.bind_split_asm)
  show "r = 1" if "handle_report_knowledge os nd h = Some (Return r, h')" for nd h r h'
    using that by (auto simp: handle_report_knowledge_def split_def Let_def split: if_split_asm Option.bind_split_asm)
qed

lemma collecting_ok: "collecting nd \<Longrightarrow> node_ok nd"
  by (auto simp: collecting_def ok_defs)

lemma collecting_idle: "collecting nd \<Longrightarrow> node_ok (nd\<lparr>nd_sv := fst (server_set_state os (nd_sv nd) SERVER_IDLE h)\<rparr>)"
  by (simp add: collecting_def ok_defs)

interpretation waiting_peers: handler SERVER_INDEX_WAITING_PEERS_KNOWLEDGE "handle_index_waiting_peers os junk" for os junk
proof unfold_locales
  show "node_ok nd'" if ok: "node_ok nd" "sv_state (nd_sv nd) = SERVER_INDEX_WAITING_PEERS_KNOWLEDGE"
      and run: "handle_index_waiting_peers os junk nd h = Some (Continue nd', h')" for nd h nd' h'
  proof -
    have c: "collecting nd" using ok by (auto simp: collecting_def ok_defs split: uMachineState.splits)
    have "nd' = nd \<or> (\<exists>nd1 h1 h2 h3. collect_knowledge os h1 nd h2 = Some (nd1, h3) \<and>
        (nd' = nd1 \<or> (\<exists>h4. nd' = nd1\<lparr>nd_sv := fst (server_set_state os (nd_sv nd1) SERVER_IDLE h4)\<rparr>)))"
      using run by (auto simp: handle_index_waiting_peers_def split_def Let_def
          split: if_split_asm Option.bind_split_asm uMachineState.split_asm) metis+
    then show ?thesis
      using ok(1) collect_knowledge_keeps [OF _ c] collecting_ok collecting_idle by blast
  qed
  show "r = 1" if "handle_index_waiting_peers os junk nd h = Some (Return r, h')" for nd h r h'
    using that by (auto simp: handle_index_waiting_peers_def split_def Let_def
        split: if_split_asm Option.bind_split_asm uMachineState.split_asm)
qed

lemma serve_connections_result:
  "serve_connections os nd sv h = Some (r, h') \<Longrightarrow>
     r = Continue (nd\<lparr>nd_sv := sv\<rparr>) \<or> (\<exists>c. r = Continue (nd\<lparr>nd_sv := sv\<lparr>client_fd := c\<rparr>\<rparr>)) \<or>
     (\<exists>h p fd. r = Continue (nd\<lparr>nd_sv := (fst (server_set_state os sv SERVER_RECEIVED_PACKET h))
        \<lparr>machine_state := MSReceivedPacket p fd\<rparr>\<rparr>))"
  by (auto simp: serve_connections_def split_def Let_def split: if_split_asm Option.bind_split_asm)

lemma idle_checks_state:
  assumes "handle_idle os nd h = Some (r, h')" and "sv_state (nd_sv nd) = SERVER_IDLE"
  shows "\<exists>sv h1. serve_connections os nd sv h1 = Some (r, h') \<and>
     sv_state sv \<in> {SERVER_IDLE, SERVER_WAITING_NEW_PEER, SERVER_BEGIN_OPERATION}"
proof -
  from assms(1) obtain sv1 h1 sv2 h2 where 1: "server_healthcheck os (nd_sv nd) h = Some (sv1, h1)"
      "(if pc_open (peer_b sv1) then xprocedure_check_peer_b os sv1 h1 else Some (sv1, h1)) = Some (sv2, h2)"
      "serve_connections os nd sv2 h2 = Some (r, h')"
    by (auto simp: handle_idle_def simp del: if_split split: Option.bind_split_asm)
  have "sv_state sv2 \<in> {SERVER_IDLE, SERVER_WAITING_NEW_PEER, SERVER_BEGIN_OPERATION}"
    using healthcheck_state [OF 1(1)] assms(2) 1(2) check_peer_b_state [of os sv1 h1 sv2 h2] by (auto split: if_splits)
  with 1(3) show ?thesis by blast
qed

interpretation idle: handler SERVER_IDLE "handle_idle os" for os
proof unfold_locales
  show "node_ok nd'" if ok: "node_ok nd" "sv_state (nd_sv nd) = SERVER_IDLE"
      and run: "handle_idle os nd h = Some (Continue nd', h')" for nd h nd' h'
    using idle_checks_state [OF run ok(2)] ok(1) by (auto simp: ok_defs dest!: serve_connections_result)
  show "r = 1" if "handle_idle os nd h = Some (Return r, h')" for nd h r h'
    using that by (auto simp: handle_idle_def split: if_split_asm Option.bind_split_asm dest!: serve_connections_result)
qed

lemma received_create_file_keeps:
  "tables_ok nd \<Longrightarrow> received_create_file os nd p fd h = Some (r, h') \<Longrightarrow> \<exists>nd'. r = Continue nd' \<and> node_ok nd'"
  by (auto simp: received_create_file_def ok_defs split_def Let_def split: if_split_asm Option.bind_split_asm)

lemma received_store_fragment_keeps:
  assumes "tables_ok nd" and "received_store_fragment os nd p fd h = Some (r, h')"
  shows "\<exists>nd'. r = Continue nd' \<and> node_ok nd'"
proof -
  let ?c = "get_create_frag p"
  from assms(2) obtain fs where fs: "(case xfileserver_find_file (nd_fs nd) (rfr_file_id ?c) of
        Some _ \<Rightarrow> Some (nd_fs nd)
      | None \<Rightarrow> map_option snd (xfileserver_add_file (nd_fs nd) (rfr_file_name ?c)
                  (ucast (rfr_file_id ?c)) (rfr_file_size ?c) (rfr_fragment_count_total ?c))) = Some fs"
    by (auto simp: received_store_fragment_def Let_def split: Option.bind_split_asm)
  then have "fs_inv fs"
    using assms(1) add_file_kept [of "nd_fs nd"] by (auto simp: tables_ok_def split: option.split_asm)
  with assms show ?thesis
    by (auto simp: received_store_fragment_def ok_defs split_def Let_def fs split: Option.bind_split_asm)
qed

lemma request_file_keeps:
  assumes "tables_ok nd" and "received_request_file os nd p fd h = Some (r, h')"
  shows "\<exists>nd'. r = Continue nd' \<and> node_ok nd'"
proof (cases "server_is_index (nd_sv nd)")
  case True
  with assms show ?thesis
    by (auto simp: received_request_file_def request_file_at_index_def ok_defs split_def Let_def
        split: option.split_asm Option.bind_split_asm simp del: at_int)
next
  case False
  with assms show ?thesis
    by (auto simp: received_request_file_def request_file_via_index_def ok_defs split_def Let_def
        split: if_split_asm option.split_asm Option.bind_split_asm)
qed

lemma request_frag_keeps:
  "tables_ok nd \<Longrightarrow> received_request_frag os nd p fd h = Some (r, h') \<Longrightarrow> \<exists>nd'. r = Continue nd' \<and> node_ok nd'"
  by (auto simp: received_request_frag_def ok_defs split_def Let_def split: Option.bind_split_asm)

lemma received_packet_keeps:
  assumes "tables_ok nd" and "handle_received_packet os nd h = Some (r, h')"
  shows "\<exists>nd'. r = Continue nd' \<and> node_ok nd'"
proof -
  from assms(2) obtain p fd where m: "machine_state (nd_sv nd) = MSReceivedPacket p fd"
    by (auto simp: handle_received_packet_def split: uMachineState.split_asm)
  show ?thesis
    using assms m received_create_file_keeps received_store_fragment_keeps request_file_keeps request_frag_keeps
    by (auto simp: handle_received_packet_def ok_defs split_def Let_def split: if_split_asm)
qed

interpretation received: handler SERVER_RECEIVED_PACKET "handle_received_packet os" for os
proof unfold_locales
  show "node_ok nd'" if "node_ok nd" "sv_state (nd_sv nd) = SERVER_RECEIVED_PACKET"
      "handle_received_packet os nd h = Some (Continue nd', h')" for nd h nd' h'
    using that received_packet_keeps [of nd os h "Continue nd'" h'] by (auto simp: node_ok_def)
  show "r = 1" if "handle_received_packet os nd h = Some (Return r, h')" for nd h r h'
    using that
    by (auto simp: handle_received_packet_def received_create_file_def received_store_fragment_def
        received_request_frag_def received_request_file_def request_file_at_index_def request_file_via_index_def
        split_def Let_def split: if_split_asm option.split_asm Option.bind_split_asm uMachineState.split_asm)
qed

interpretation raw_packets: handler SERVER_WAITING_RAW_PACKETS "handle_waiting_raw_packets os" for os
proof unfold_locales
  show "node_ok nd'" if ok: "node_ok nd" "sv_state (nd_sv nd) = SERVER_WAITING_RAW_PACKETS"
      and run: "handle_waiting_raw_packets os nd h = Some (Continue nd', h')" for nd h nd' h'
  proof -
    obtain s where s: "machine_state (nd_sv nd) = MSRawPackets s"
        "rp_trigger_pkt s = TYPE_CREATE_FILE \<and> rp_fc s \<noteq> None \<or> rp_trigger_pkt s = TYPE_STORE_FRAGMENT \<and> rp_fragc s \<noteq> None"
      using ok by (auto simp: ok_defs split: uMachineState.split_asm)
    with ok(1) run show ?thesis
      by (auto simp: handle_waiting_raw_packets_def ok_defs split_def Let_def split: Option.bind_split_asm)
  qed
  show "r = 1" if "handle_waiting_raw_packets os nd h = Some (Return r, h')" for nd h r h'
    using that by (auto simp: handle_waiting_raw_packets_def split_def Let_def
        split: uMachineState.split_asm Option.bind_split_asm)
qed

lemma place_copies_length: "place_copies sv known i sz node j tries t = Some t' \<Longrightarrow> length t' = length t"
proof (induction sv known i sz node j tries t rule: place_copies.induct)
  case (1 sv known i sz node j tries t)
  show ?case
  proof (cases "j < 2 \<and> of_nat tries < known + 1")
    case True
    let ?nid = "of_nat (node + tries) mod (net_size sv + death_count sv) + 1 :: u64"
    from True 1(3) obtain v where v: "server_is_valid_node sv ?nid = Some v" and ok: "\<not> (2 ^ 31 \<le> tries + 1 \<or> net_size sv + death_count sv = 0)"
      by (subst (asm) place_copies.simps) (auto simp: Let_def split: if_split_asm Option.bind_split_asm)
    show ?thesis
    proof (cases v)
      case False
      with True v ok 1(3) have "place_copies sv known i sz node j (Suc tries) t = Some t'"
        by (subst (asm) place_copies.simps) (simp add: Let_def)
      with 1(1) [OF True ok refl v] False show ?thesis by simp
    next
      case vt: True
      with True v ok 1(3) obtain t1 where t1: "put_at t (int (i * 2 + j)) \<lparr>np_fragment = of_nat (i + 1), np_size = sz, np_node_id = ?nid\<rparr> = Some t1"
          "place_copies sv known i sz node (Suc j) (Suc tries) t1 = Some t'"
        by (subst (asm) place_copies.simps) (auto simp: Let_def simp del: put_at_int put_at_Some split: Option.bind_split_asm)
      from 1(2) [OF True ok refl v _ t1] vt have "length t' = length t1" by simp
      with t1(1) show ?thesis by auto
    qed
  next
    case False
    then have "place_copies sv known i sz node j tries t = Some t"
      by (subst place_copies.simps) (rule if_not_P)
    with 1(3) show ?thesis by simp
  qed
qed

lemma place_fragments_length:
  "place_fragments sv d n sz rm k i off t = Some t' \<Longrightarrow> length t' = length t"
proof (induction k arbitrary: i off t)
  case (Suc k)
  then show ?case by (auto simp: Let_def split: if_split_asm Option.bind_split_asm dest!: place_copies_length)
qed simp

lemma fragment_table_length: "fragment_table sv sz n t = Some t' \<Longrightarrow> length t' = length t"
  by (auto simp: fragment_table_def Let_def split: Option.bind_split_asm dest: place_fragments_length)

lemma register_file_keeps:
  assumes "register_file os sv fid sz n net hp h = Some (net', hp', h')" and "fni_inv net hp" and full: "tables_full hp"
  shows "fni_inv net' hp' \<and> tables_full hp'"
proof -
  obtain f hp1 h1 where f: "xfilenetindex_new_file os fid (u64_of_int (n * 2)) hp h = ((f, hp1), h1)"
    by (metis prod.exhaust)
  show ?thesis
  proof (cases f)
    case None
    with f have "hp1 = hp" using new_file_None by blast
    with assms f None show ?thesis
      by (auto simp: register_file_def xfilenetindex_add_file_def split: Option.bind_split_asm)
  next
    case (Some a)
    with assms(1) f obtain c T where c: "cells hp1 a = Some c"
        "fragment_table sv sz n (case fni_fragments c of None \<Rightarrow> [] | Some t \<Rightarrow> t) = Some T"
        "xfilenetindex_add_file net (Some a) (hp1\<lparr>cells := (cells hp1)(a \<mapsto> c\<lparr>fni_fragments := Some T\<rparr>)\<rparr>) = Some (net', hp')"
      by (auto simp: register_file_def split: Option.bind_split_asm)
    have "fni_inv net' hp'" using new_entry [OF assms(2), of os fid _ h a hp1 h1 c "Some T"] f Some c(1,3) by auto
    moreover have "unat (total_fragments c) \<le> length (case fni_fragments c of None \<Rightarrow> [] | Some t \<Rightarrow> t)"
      using new_file_result(3) f Some c(1) by (fastforce simp: word_less_nat_alt)
    then have "unat (total_fragments c) \<le> length T" using fragment_table_length [OF c(2)] by simp
    then have "tables_full hp'" by (rule add_file_full [OF full_upd [OF new_file_full [OF full f] c(1)] c(3)])
    ultimately show ?thesis by blast
  qed
qed

interpretation new_file: handler SERVER_INDEX_HANDLE_NEW_FILE "handle_new_file os" for os
proof unfold_locales
  show "node_ok nd'" if ok: "node_ok nd" "sv_state (nd_sv nd) = SERVER_INDEX_HANDLE_NEW_FILE"
      and run: "handle_new_file os nd h = Some (Continue nd', h')" for nd h nd' h'
  proof -
    have inv: "fs_inv (nd_fs nd)" "fni_inv (nd_net nd) (nd_hp nd)" "tables_full (nd_hp nd)" using ok(1) by (simp_all add: ok_defs)
    have a: "p < length (containers fs)" if "xfileserver_add_file (nd_fs nd) name fid sz c = Some (Some p, fs)" for name fid sz c p fs
      using add_file_Some(2,3) [OF inv(1) that] by simp
    have b: "fs_inv fs" if "xfileserver_add_file (nd_fs nd) name fid sz c = Some (p, fs)" for name fid sz c p fs
      using add_file_kept [OF inv(1) that] .
    have c: "fni_inv net hp \<and> tables_full hp" if "register_file os sv fid sz n (nd_net nd) (nd_hp nd) g = Some (net, hp, g')" for sv fid sz n g net hp g'
      using register_file_keeps [OF that inv(2,3)] .
    from run a b c show ?thesis
      by (auto simp: handle_new_file_def ok_defs split_def Let_def
          split: uMachineState.split_asm if_split_asm Option.bind_split_asm option.splits)
  qed
  show "r = 1" if "handle_new_file os nd h = Some (Return r, h')" for nd h r h'
    using that by (auto simp: handle_new_file_def split_def Let_def
        split: uMachineState.split_asm if_split_asm Option.bind_split_asm)
qed

interpretation fanout: handler SERVER_INDEX_FANOUT_FRAGMENTS "handle_fanout_fragments os" for os
proof unfold_locales
  show "node_ok nd'" if ok: "node_ok nd" "sv_state (nd_sv nd) = SERVER_INDEX_FANOUT_FRAGMENTS"
      and run: "handle_fanout_fragments os nd h = Some (Continue nd', h')" for nd h nd' h'
  proof -
    have "fs_inv fs" if "fanout_all os sv b off i (nd_fs nd) j frags g = Some (fs, g')" for sv b off i j frags g fs g'
      using fanout_all_keeps [OF that] ok(1) by (simp add: ok_defs)
    with run ok(1) show ?thesis
      by (auto simp: handle_fanout_fragments_def ok_defs split_def Let_def simp del: at_int
          split: uMachineState.split_asm if_split_asm Option.bind_split_asm)
  qed
  show "r = 1" if "handle_fanout_fragments os nd h = Some (Return r, h')" for nd h r h'
    using that by (auto simp: handle_fanout_fragments_def split_def Let_def simp del: at_int
        split: uMachineState.split_asm if_split_asm Option.bind_split_asm)
qed

interpretation request_fragments: handler SERVER_INDEX_REQUEST_FRAGMENTS "handle_request_fragments os" for os
  by unfold_locales
    (auto simp: handle_request_fragments_def node_ok_def tables_ok_def member_ok_def [of SERVER_IDLE] split_def Let_def
      split: uMachineState.split_asm if_split_asm Option.bind_split_asm)

interpretation received_fragment: handler SERVER_RECEIVED_FRAGMENT "handle_received_fragment os" for os
proof unfold_locales
  show "node_ok nd'" if ok: "node_ok nd" "sv_state (nd_sv nd) = SERVER_RECEIVED_FRAGMENT"
      and run: "handle_received_fragment os nd h = Some (Continue nd', h')" for nd h nd' h'
  proof -
    have inv: "fs_inv (nd_fs nd)" using ok(1) by (simp add: ok_defs)
    have "fs_inv (put_container (nd_fs nd) i (the fc'))"
      if "at (containers (nd_fs nd)) (int i) = Some fc" "xfileserver_add_fragment os (Some fc) fid b n g = Some ((r, fc'), g')"
      for i fc fid b n g r fc' g'
      using add_fragment_ok [OF that(2) container_at [OF inv that(1)]] put_container_inv [OF inv] by auto
    with run ok(1) show ?thesis
      by (auto simp: handle_received_fragment_def node_ok_def tables_ok_def member_ok_def [of SERVER_IDLE] split_def Let_def
          simp del: at_int at_Some split: uMachineState.split_asm if_split_asm Option.bind_split_asm option.split_asm)
  qed
  show "r = 1" if "handle_received_fragment os nd h = Some (Return r, h')" for nd h r h'
    using that by (auto simp: handle_received_fragment_def split_def Let_def simp del: at_int
        split: uMachineState.split_asm if_split_asm Option.bind_split_asm option.split_asm)
qed

lemma memcpy_to_length: "memcpy_to m off bs = Some m' \<Longrightarrow> length m' = length m"
  by auto

lemma put_piece_length: "put_piece sz w k piece buf = Some buf' \<Longrightarrow> length buf' = length buf"
  by (auto simp: put_piece_def simp del: memcpy_to_Some split: Option.bind_split_asm dest: memcpy_to_length)

lemma use_local_length: "use_local_copy s fs k buf = Some (Some buf') \<Longrightarrow> length buf' = length buf"
  by (auto simp: use_local_copy_def simp del: at_int at_Some memcpy_from_Some
      split: option.split_asm Option.bind_split_asm dest!: put_piece_length)

lemma take_delivery_length: "take_delivery os sv s d c buf h = Some (buf', h') \<Longrightarrow> length buf' = length buf"
  by (auto simp: take_delivery_def Let_def split_def simp del: memcpy_from_Some
      split: Option.bind_split_asm dest!: put_piece_length)

lemma collect_fragment_result:
  assumes "collect_fragment os nd s found buf h = Some (s', h')"
  shows "s' = s \<or> (\<exists>b. s' = s\<lparr>rq_buffer := Some b, rq_fragment_found := Some (found + 1)\<rparr> \<and> length b = length buf)"
  using assms
  by (auto simp: collect_fragment_def Let_def split_def split: if_split_asm Option.bind_split_asm option.split_asm
      dest: use_local_length take_delivery_length)

interpretation wait_fragments: handler SERVER_WAIT_REQUEST_FRAGMENTS "handle_wait_request_fragments os" for os
proof unfold_locales
  show "node_ok nd'" if ok: "node_ok nd" "sv_state (nd_sv nd) = SERVER_WAIT_REQUEST_FRAGMENTS"
      and run: "handle_wait_request_fragments os nd h = Some (Continue nd', h')" for nd h nd' h'
  proof -
    obtain s found buf where s: "machine_state (nd_sv nd) = MSRequestedFile s" "rq_fragment_found s = Some found"
        "rq_buffer s = Some buf" "length buf = unat (rq_file_size s)"
      using ok by (auto simp: ok_defs split: uMachineState.split_asm option.split_asm)
    with ok run show ?thesis
      by (auto simp: handle_wait_request_fragments_def ok_defs split_def Let_def
          split: if_split_asm Option.bind_split_asm dest!: collect_fragment_result)
  qed
  show "r = 1" if "handle_wait_request_fragments os nd h = Some (Return r, h')" for nd h r h'
    using that by (auto simp: handle_wait_request_fragments_def split_def Let_def
        split: uMachineState.split_asm if_split_asm Option.bind_split_asm)
qed

interpretation no_case: handler st "\<lambda>nd h. Some (Continue nd, h)" for st
  by unfold_locales auto

section \<open>The machine\<close>

lemmas handlers = booting.handler_axioms connecting.handler_axioms new_peer.handler_axioms begin_op.handler_axioms
  present.handler_axioms waiting_peers.handler_axioms gossip.handler_axioms report.handler_axioms idle.handler_axioms
  received.handler_axioms raw_packets.handler_axioms new_file.handler_axioms fanout.handler_axioms
  request_fragments.handler_axioms received_fragment.handler_axioms wait_fragments.handler_axioms
  no_case.handler_axioms

text \<open>Whatever the state, the \<open>switch\<close> runs a handler that fulfils the contract of that state.\<close>

lemma switch_handler: "\<exists>run. handler (sv_state (nd_sv nd)) run \<and> run nd h = main_switch os junk nd h"
  by (cases "sv_state (nd_sv nd)")
    (simp only: main_switch_def eServerState.case, rule exI, rule conjI, rule handlers, rule refl)+

lemma main_round_keeps:
  assumes "node_ok nd" and "main_round os junk nd h = Some (Continue nd', h')"
  shows "node_ok nd'"
  using switch_handler [of nd h os junk] handler.round_keeps [OF _ assms(1) refl _ assms(2)] by blast

lemma main_round_exits:
  assumes "main_round os junk nd h = Some (Return r, h')"
  shows "r = 1"
  using switch_handler [of nd h os junk] handler.round_exits [OF _ _ assms] by blast

lemma init_full: "tables_full empty_heap"
  by (simp add: tables_full_def empty_heap_def)

lemma main_init_ok:
  assumes "main_init os sv0 argv h = Some (Continue nd, h')"
  shows "node_ok nd"
proof -
  have "r = 0 \<or> r = 1 \<and> sv_state sv = SERVER_BOOTING" if "server_init os sv0 args g = Some ((r, sv), g')" for args g sv g' r
    using that
    by (auto simp: server_init_def Let_def split_def simp del: address_from_string.simps split: if_split_asm)
  moreover have "fs_inv (snd (fst (xfileserver_init os g)))" for g
    by (simp add: xfileserver_init_def fs_inv_def split_def Let_def)
  ultimately show ?thesis
    using assms init_inv init_full
    by (fastforce simp: main_init_def ok_defs split_def Let_def simp del: address_from_string.simps
        split: if_split_asm Option.bind_split_asm)
qed

lemma reachable_ok: "reachable os junk sv0 argv s \<Longrightarrow> node_ok (fst s)"
proof (induction rule: reachable.induct)
  case (step s s')
  then show ?case by (cases s; cases s') (auto simp: node_step_iff intro: main_round_keeps)
qed (auto intro: main_init_ok)

lemma main_init_starts:
  assumes "parse_args argv = (1, a)" and "arg_id a \<le> arg_netsize a"
  shows "\<exists>nd h'. main_init os sv0 argv h = Some (Continue nd, h') \<and> sv_state (nd_sv nd) = SERVER_BOOTING \<and>
     me_node_id (nd_sv nd) = u64_of_int (arg_id a)"
proof -
  obtain sv h1 where sv: "server_init os sv0 a h = Some ((1, sv), h1)" "sv_state sv = SERVER_BOOTING"
      "me_node_id sv = u64_of_int (arg_id a)"
    using server_init_starts [OF assms, of os sv0 h] by blast
  obtain x where x: "address_from_string (Some (me_ip sv0)) (Some (arg_ip a)) = (1, Some x)"
    using address_from_string_one by blast
  obtain fs h2 where "xfileserver_init os h1 = ((1, fs), h2)"
    by (simp add: xfileserver_init_def split_def Let_def)
  with sv x show ?thesis
    by (simp add: main_init_def assms(1) xfilenetindex_init_def del: address_from_string.simps)
qed

definition argv0 :: "string list" where
  "argv0 = [''./main'', ''-id'', ''1'', ''-ip'', ''localhost:52000'', ''-peer-id'', ''2'',
          ''-peer-ip'', ''localhost:52001'', ''-network-size'', ''4'']"

lemma argv0_parsed:
  "parse_args argv0 = (1, \<lparr>arg_id = 1, arg_ip = ''localhost:52000'', arg_peer_id = 2,
        arg_peer_ip = ''localhost:52001'', arg_netsize = 4\<rparr>)"
  by (simp add: argv0_def parse_args_def atoi_def isspace_def is_digit_def digit_val_def)

section \<open>Properties\<close>

text \<open>C1: In every state the node reaches, whatever the kernel answers and whatever the other nodes
  send, the file store and the network index are well formed, printing the index returns (the
  handlers do that), and the member of the union \<open>machine_state\<close> that the handler of the current state reads is the one that was written last,
  with the fields that handler uses set (the container pointer of a fan-out inside the array,
  the reassembly buffer as long as the file).\<close>

theorem reachable_states_ok:
  assumes "reachable os junk sv0 argv (nd, h)"
  shows "fs_inv (nd_fs nd) \<and> fni_inv (nd_net nd) (nd_hp nd) \<and>
     xfilenetindex_debug ptr (Some (nd_net nd)) (nd_hp nd) \<noteq> None \<and>
     member_ok (sv_state (nd_sv nd)) (machine_state (nd_sv nd)) (length (containers (nd_fs nd)))"
  using reachable_ok [OF assms] index_debug [of "nd_net nd" "nd_hp nd" ptr] by (auto simp: node_ok_def tables_ok_def)

theorem reachable_states_ok_witness:
  "\<exists>nd h. reachable slow_os (\<lambda>_. 0) server0 argv0 (nd, h) \<and> fs_inv (nd_fs nd)"
proof -
  obtain nd h where "main_init slow_os server0 argv0 [] = Some (Continue nd, h)"
    using main_init_starts [OF argv0_parsed, of slow_os server0 "[]"] by auto
  then have "reachable slow_os (\<lambda>_. 0) server0 argv0 (nd, h)" by (rule reachable.init)
  with reachable_states_ok [OF this] show ?thesis by blast
qed

text \<open>The main loop ends the program only on an error, with exit status 1: the clean-up after the
  loop (\<open>server_close\<close> and \<open>return 0\<close>) is never reached.\<close>

theorem main_loop_exit_status:
  assumes "main_round os junk nd h = Some (Return code, h')"
  shows "code = 1"
  by (rule main_round_exits [OF assms])

theorem main_loop_exit_status_witness:
  "\<exists>code h'. main_round (slow_os\<lparr>os_socket := \<lambda>_. - 1\<rparr>) (\<lambda>_. 0)
     \<lparr>nd_sv = server0\<lparr>sv_state := SERVER_BOOTING\<rparr>, nd_fs = empty_store, nd_net = snd xfilenetindex_init, nd_hp = empty_heap\<rparr> [] =
       Some (Return code, h') \<and> code = 1"
proof -
  obtain code h' where "main_round (slow_os\<lparr>os_socket := \<lambda>_. - 1\<rparr>) (\<lambda>_. 0)
     \<lparr>nd_sv = server0\<lparr>sv_state := SERVER_BOOTING\<rparr>, nd_fs = empty_store, nd_net = snd xfilenetindex_init, nd_hp = empty_heap\<rparr> [] =
       Some (Return code, h')"
    by (simp add: main_round_def main_switch_def handle_booting_def server_open_def tcp_listen_def server0_def Let_def)
  with main_loop_exit_status [OF this] show ?thesis by blast
qed

end
