(* ===== verification/Fragmentation.thy ===== *)
theory Fragmentation
  imports Node_Machine
begin

text \<open>
  What the handlers of \<open>Node_Files\<close> do to a file as a whole: which nodes the fragments are placed on
  (\<open>place_copies\<close> against a reference definition, and the exact table for a ring without
  deaths), how the fragments cut the file up, and that putting the pieces back in any order
  gives the file.
\<close>

section \<open>The nodes a fragment is placed on\<close>

text \<open>The \<open>k\<close>-th node tried for a fragment whose first candidate is at position \<open>node\<close>.\<close>

definition candidate :: "Server \<Rightarrow> nat \<Rightarrow> nat \<Rightarrow> u64" where
  "candidate sv node k = of_nat (node + k) mod (net_size sv + death_count sv) + 1"

text \<open>Reference: the first \<open>REDUNDANCY\<close> valid candidates.\<close>

definition holders :: "Server \<Rightarrow> nat \<Rightarrow> nat list \<Rightarrow> u64 list" where
  "holders sv node ks = filter (\<lambda>n. server_is_valid_node sv n = Some True) (map (candidate sv node) ks)"

fun write_copies :: "nat \<Rightarrow> u64 \<Rightarrow> nat \<Rightarrow> u64 list \<Rightarrow> xFragmentNetworkPointer list \<Rightarrow> xFragmentNetworkPointer list" where
  "write_copies i sz j [] t = t"
| "write_copies i sz j (n # ns) t =
     write_copies i sz (Suc j) ns
       (t[i * REDUNDANCY + j := \<lparr>np_fragment = of_nat (i + 1), np_size = sz, np_node_id = n\<rparr>])"

text \<open>The table of peers covers the original network.\<close>

definition table_covers :: "Server \<Rightarrow> bool" where
  "table_covers sv \<longleftrightarrow> net_size sv + death_count sv \<noteq> 0 \<and>
     (\<exists>d. index_data sv = Some d \<and> length (peer_ips d) \<le> 2 ^ 31 \<and>
          unat (net_size sv + death_count sv) \<le> length (peer_ips d))"

lemma candidate_bounds:
  assumes "table_covers sv"
  shows "candidate sv node k \<noteq> 0 \<and> unat (candidate sv node k) \<le> unat (net_size sv + death_count sv)"
proof -
  let ?N = "net_size sv + death_count sv"
  let ?r = "of_nat (node + k) mod ?N"
  have N: "0 < unat ?N" "unat ?N \<le> 2 ^ 31"
    using assms by (auto simp: table_covers_def unat_gt_0)
  then have "unat ?r < unat ?N" by (simp add: unat_mod_distrib)
  moreover from this N(2) have "unat (?r + 1) = unat ?r + 1"
    by (subst unat_add_lem [THEN iffD1]) auto
  ultimately show ?thesis by (auto simp: candidate_def unat_eq_zero [symmetric])
qed

lemma candidate_checked:
  assumes "table_covers sv"
  shows "\<exists>b. server_is_valid_node sv (candidate sv node k) = Some b"
proof -
  obtain d where d: "index_data sv = Some d" "length (peer_ips d) \<le> 2 ^ 31"
      "unat (net_size sv + death_count sv) \<le> length (peer_ips d)"
    using assms by (auto simp: table_covers_def)
  from candidate_bounds [OF assms, of node k] d show ?thesis
    by (subst valid_node_iff [OF d(1,2)]) auto
qed

lemma place_copies_reference:
  assumes cov: "table_covers sv" and K: "K = unat known + 1" "K < 2 ^ 31"
    and t: "i * 2 + 2 \<le> length t" and jt: "j \<le> 2" "tries \<le> K"
  shows "place_copies sv known i sz node j tries t =
     Some (write_copies i sz j (take (2 - j) (holders sv node [tries..<K])) t)"
  using t jt
proof (induction "K - tries" arbitrary: j tries t)
  case 0
  then have "tries = K" by simp
  moreover have "(of_nat K :: u64) = known + 1" using K by simp
  ultimately show ?case by (subst place_copies.simps) (simp add: holders_def)
next
  case (Suc m)
  have lt: "(of_nat tries :: u64) < known + 1 \<longleftrightarrow> tries < K"
  proof -
    have "known + 1 = (of_nat K :: u64)" using K by simp
    moreover have "unat (of_nat K :: u64) = K" "unat (of_nat tries :: u64) = tries"
      using K(2) Suc.prems(3) by (auto simp: unsigned_of_nat take_bit_nat_eq_self)
    ultimately show ?thesis by (simp add: word_less_nat_alt)
  qed
  show ?case
  proof (cases "j = 2")
    case True
    then show ?thesis by (subst place_copies.simps) simp
  next
    case False
    with Suc.prems have j: "j < 2" by simp
    have tr: "tries < K" using Suc.hyps(2) by simp
    have N: "net_size sv + death_count sv \<noteq> 0" using cov by (simp add: table_covers_def)
    obtain b where b: "server_is_valid_node sv (candidate sv node tries) = Some b"
      using candidate_checked [OF cov] by blast
    have up: "[tries..<K] = tries # [Suc tries..<K]" using tr by (simp add: upt_conv_Cons)
    show ?thesis
    proof (cases b)
      case False
      have "place_copies sv known i sz node j tries t = place_copies sv known i sz node j (Suc tries) t"
        by (subst place_copies.simps) (use j tr lt N b False K(2) in \<open>simp add: candidate_def\<close>)
      also have "\<dots> = Some (write_copies i sz j (take (2 - j) (holders sv node [Suc tries..<K])) t)"
        using Suc.hyps Suc.prems tr by (intro Suc.hyps(1)) auto
      finally show ?thesis using b False by (simp add: up holders_def)
    next
      case True
      let ?t = "t[i * 2 + j := \<lparr>np_fragment = of_nat (i + 1), np_size = sz, np_node_id = candidate sv node tries\<rparr>]"
      have pa: "put_at t (int (i * 2 + j)) p = Some (t[i * 2 + j := p])" for p
        using j Suc.prems(1) by (subst put_at_int) simp
      have "place_copies sv known i sz node j tries t = place_copies sv known i sz node (Suc j) (Suc tries) ?t"
        by (subst place_copies.simps)
          (use j tr lt N b True K(2) pa in \<open>simp add: candidate_def del: of_nat_add of_nat_mult put_at_Some put_at_int\<close>)
      also have "\<dots> = Some (write_copies i sz (Suc j) (take (2 - Suc j) (holders sv node [Suc tries..<K])) ?t)"
        using Suc.hyps Suc.prems tr j by (intro Suc.hyps(1)) auto
      finally show ?thesis using b True j by (simp add: up holders_def Suc_diff_Suc [symmetric] numeral_2_eq_2 take_Suc)
    qed
  qed
qed

lemma candidate_nat:
  assumes "table_covers sv" and "node + k < 2 ^ 32"
  shows "unat (candidate sv node k) = (node + k) mod unat (net_size sv + death_count sv) + 1"
proof -
  let ?N = "net_size sv + death_count sv"
  have N: "0 < unat ?N" "unat ?N \<le> 2 ^ 31" using assms(1) by (auto simp: table_covers_def unat_gt_0)
  have u: "unat (of_nat (node + k) :: u64) = node + k"
    using assms(2) by (intro unat_of_nat_u64) simp
  have r: "unat (of_nat (node + k) mod ?N) = (node + k) mod unat ?N"
    by (simp only: unat_mod_distrib u)
  moreover have "(node + k) mod unat ?N < unat ?N" using N(1) by simp
  ultimately have "unat (of_nat (node + k) mod ?N + 1) = (node + k) mod unat ?N + 1"
    using N(2) by (subst unat_add_lem [THEN iffD1]) auto
  then show ?thesis by (simp add: candidate_def)
qed

lemma mod_window_inj: "inj_on (\<lambda>k. (a + k) mod N) {0..<N :: nat}"
proof (rule inj_onI)
  fix x y assume xy: "x \<in> {0..<N}" "y \<in> {0..<N}" and eq: "(a + x) mod N = (a + y) mod N"
  from eq have "int ((a + x) mod N) = int ((a + y) mod N)" by simp
  then have "int (a + x) mod int N = int (a + y) mod int N" unfolding zmod_int .
  then have "int N dvd int (a + x) - int (a + y)" by (rule mod_eq_dvd_iff [THEN iffD1])
  moreover have "int (a + x) - int (a + y) = int x - int y" by simp
  ultimately have "int N dvd int x - int y" by (simp only:)
  then have "int x mod int N = int y mod int N" by (rule mod_eq_dvd_iff [THEN iffD2])
  with xy show "x = y" by simp
qed

lemma holders_distinct:
  assumes "table_covers sv" and "node + K < 2 ^ 32" and "K \<le> unat (net_size sv + death_count sv)"
  shows "distinct (holders sv node [0..<K])"
proof -
  have "inj_on (candidate sv node) {0..<K}"
  proof (rule inj_onI)
    fix x y assume xy: "x \<in> {0..<K}" "y \<in> {0..<K}" "candidate sv node x = candidate sv node y"
    then have "(node + x) mod unat (net_size sv + death_count sv) = (node + y) mod unat (net_size sv + death_count sv)"
      using candidate_nat [OF assms(1), of node x] candidate_nat [OF assms(1), of node y] assms(2) by simp
    then show "x = y" by (rule inj_onD [OF mod_window_inj]) (use xy(1,2) assms(3) in auto)
  qed
  then show ?thesis unfolding holders_def by (intro distinct_filter) (simp add: distinct_map)
qed

section \<open>A ring without deaths\<close>

text \<open>The index is node \<open>n\<close> of \<open>n\<close>, all others have reported themselves, none has died.\<close>

definition full_ring :: "Server \<Rightarrow> xIndexData \<Rightarrow> nat \<Rightarrow> bool" where
  "full_ring sv d n \<longleftrightarrow> 2 \<le> n \<and> n \<le> 255 \<and> index_data sv = Some d \<and> net_size sv = of_nat n \<and> death_count sv = 0 \<and>
     me_node_id sv = of_nat n \<and> length (peer_ips d) = n \<and> known_peers d = of_nat (n - 1) \<and>
     (\<forall>i < n - 1. port (peer_ips d ! i) \<noteq> 0)"

lemma small_u64 [simp]: "k \<le> 256 \<Longrightarrow> unat (of_nat k :: u64) = k"
  by (intro unat_of_nat_u64) simp

lemma full_ring_covers: "full_ring sv d n \<Longrightarrow> table_covers sv"
  unfolding table_covers_def full_ring_def by (auto simp: unat_gt_0 [symmetric])

lemma full_ring_valid:
  assumes "full_ring sv d n" and "1 \<le> k" and "k \<le> n"
  shows "server_is_valid_node sv (of_nat k) = Some True"
proof -
  have r: "index_data sv = Some d" "length (peer_ips d) = n" "n \<le> 255" "me_node_id sv = of_nat n"
      "\<forall>i < n - 1. port (peer_ips d ! i) \<noteq> 0"
    using assms(1) by (auto simp: full_ring_def)
  have u: "unat (of_nat k :: u64) = k" using r(3) assms(3) by simp
  then have "(of_nat k :: u64) \<noteq> 0" using assms(2) by auto
  with r u assms(2,3) show ?thesis
    by (cases "k = n") (auto simp: valid_node_iff)
qed

lemma full_ring_holders:
  assumes "full_ring sv d n" and "i < n"
  shows "take 2 (holders sv i [0..<n]) = [of_nat (i + 1), of_nat ((i + 1) mod n + 1)]"
proof -
  have n: "2 \<le> n" "n \<le> 255" using assms(1) by (auto simp: full_ring_def)
  have N: "unat (net_size sv + death_count sv) = n" using assms(1) n by (simp add: full_ring_def)
  have c: "candidate sv i k = of_nat ((i + k) mod n + 1)" if "k < n" for k
  proof -
    have "unat (candidate sv i k) = (i + k) mod n + 1"
      using candidate_nat [OF full_ring_covers [OF assms(1)], of i k] N assms(2) n that by simp
    moreover have "(i + k) mod n + 1 \<le> 256" using n mod_less_divisor [of n "i + k"] by linarith
    ultimately have "unat (candidate sv i k) = unat (of_nat ((i + k) mod n + 1) :: u64)"
      by (simp only: small_u64)
    then show ?thesis by (rule unsigned_word_eqI)
  qed
  have v: "server_is_valid_node sv (of_nat ((i + k) mod n + 1)) = Some True" for k
    using n mod_less_divisor [of n "i + k"] by (intro full_ring_valid [OF assms(1)]) linarith+
  have "[0..<n] = 0 # 1 # [2..<n]" using n by (simp add: upt_conv_Cons numeral_2_eq_2)
  then show ?thesis using c [of 0] c [of 1] v [of 0] v [of 1] n assms(2) by (simp add: holders_def numeral_2_eq_2)
qed

lemma full_ring_known: "full_ring sv d n \<Longrightarrow> unat (known_peers d) = n - 1"
  using small_u64 [of "n - 1"] by (auto simp: full_ring_def)

lemma full_ring_next:
  assumes "full_ring sv d n" and "i < n"
  shows "next_live (peer_ips d) (known_peers d) i = Some i"
proof -
  have "length (peer_ips d) = n" "\<forall>i < n - 1. port (peer_ips d ! i) \<noteq> 0" using assms(1) by (auto simp: full_ring_def)
  with assms(2) full_ring_known [OF assms(1)] show ?thesis by (subst next_live.simps) auto
qed

lemma place_copies_ring:
  assumes "full_ring sv d n" and "i < n" and "length t = 2 * n"
  shows "place_copies sv (known_peers d) i sz i 0 0 t =
     Some (t[2 * i := \<lparr>np_fragment = of_nat (i + 1), np_size = sz, np_node_id = of_nat (i + 1)\<rparr>,
             2 * i + 1 := \<lparr>np_fragment = of_nat (i + 1), np_size = sz, np_node_id = of_nat ((i + 1) mod n + 1)\<rparr>])"
proof -
  have n: "2 \<le> n" "n \<le> 255" using assms(1) by (auto simp: full_ring_def)
  have "place_copies sv (known_peers d) i sz i 0 0 t =
     Some (write_copies i sz 0 (take (2 - 0) (holders sv i [0..<n])) t)"
    using full_ring_known [OF assms(1)] n assms(2,3)
    by (intro place_copies_reference [OF full_ring_covers [OF assms(1)]]) auto
  then show ?thesis using full_ring_holders [OF assms(1,2)] by (simp add: mult.commute)
qed

text \<open>The sizes the fragments get.\<close>

definition fragment_len :: "nat \<Rightarrow> nat \<Rightarrow> nat \<Rightarrow> nat" where
  "fragment_len S n i = (if i + 1 = n then S div n + S mod n else S div n)"

lemma fragment_len_le: "0 < n \<Longrightarrow> fragment_len S n i \<le> S"
proof -
  assume "0 < n"
  then have "S div n \<le> S div n * n" by simp
  with div_mult_mod_eq [of S n] have "S div n + S mod n \<le> S" by linarith
  then show ?thesis by (simp add: fragment_len_def)
qed

lemma ring_table_nth:
  "i < n \<Longrightarrow> ring_table n sz ! (2 * i) = \<lparr>np_fragment = of_nat (i + 1), np_size = sz i, np_node_id = of_nat (i + 1)\<rparr>"
  "i < n \<Longrightarrow> ring_table n sz ! (2 * i + 1) =
     \<lparr>np_fragment = of_nat (i + 1), np_size = sz i, np_node_id = of_nat ((i + 1) mod n + 1)\<rparr>"
  by (simp_all add: ring_table_def)

lemma place_fragments_ring:
  assumes ring: "full_ring sv d n" and S: "S < 2 ^ 31"
    and "length t = 2 * n" and "i + k = n" and "\<forall>j < 2 * i. t ! j = ring_table n (\<lambda>i. of_nat (fragment_len S n i)) ! j"
  shows "place_fragments sv d (int n) (int (S div n)) (int (S mod n)) k i 0 t =
     Some (ring_table n (\<lambda>i. of_nat (fragment_len S n i)))"
  using assms(3-5)
proof (induction k arbitrary: i t)
  case 0
  then show ?case by (auto intro: nth_equalityI)
next
  case (Suc k)
  let ?R = "ring_table n (\<lambda>i. of_nat (fragment_len S n i))"
  have i: "i < n" using Suc.prems(2) by simp
  have sz: "(if int i + 1 = int n then int (S div n) + int (S mod n) else int (S div n)) = int (fragment_len S n i)"
    by (auto simp: fragment_len_def)
  have "fragment_len S n i \<le> S" using i by (intro fragment_len_le) simp
  then have b: "\<not> (int (fragment_len S n i) < - (2 ^ 31) \<or> 2 ^ 31 \<le> int (fragment_len S n i))" using S by simp
  let ?t = "t[2 * i := ?R ! (2 * i), 2 * i + 1 := ?R ! (2 * i + 1)]"
  have p: "place_copies sv (known_peers d) i (u64_of_int (int (fragment_len S n i))) i 0 0 t = Some ?t"
    using place_copies_ring [OF ring i Suc.prems(1), of "of_nat (fragment_len S n i)"] ring_table_nth [OF i] by simp
  have "?t ! j = ?R ! j" if "j < 2 * Suc i" for j
    using that Suc.prems i by (cases "j < 2 * i") (auto simp: nth_list_update less_Suc_eq)
  then have "place_fragments sv d (int n) (int (S div n)) (int (S mod n)) k (Suc i) 0 ?t = Some ?R"
    using Suc.prems by (intro Suc.IH) auto
  with p b full_ring_next [OF ring i] show ?case by (simp add: sz Let_def del: u64_of_int_nat)
qed

section \<open>Cutting a file up and putting it together\<close>

definition frag_slice :: "nat \<Rightarrow> nat \<Rightarrow> nat \<Rightarrow> bytes \<Rightarrow> bytes" where
  "frag_slice S n i F = peek (S div n * i) (fragment_len S n i) F"

fun assemble :: "u64 \<Rightarrow> int \<Rightarrow> (int \<times> bytes) list \<Rightarrow> bytes \<Rightarrow> bytes option" where
  "assemble file_size w [] buf = Some buf"
| "assemble file_size w ((k, piece) # ps) buf = do {
     buf \<leftarrow> put_piece file_size w k piece buf;
     assemble file_size w ps buf }"

lemma fragment_end: "i < n \<Longrightarrow> S div n * i + fragment_len S n i \<le> S"
proof -
  assume i: "i < n"
  have S: "S div n * n + S mod n = S" by (rule div_mult_mod_eq)
  show ?thesis
  proof (cases "i + 1 = n")
    case True
    then have "S div n * i + S div n = S div n * n" by (metis add.commute mult_Suc_right Suc_eq_plus1)
    moreover have "fragment_len S n i = S div n + S mod n" using True by (simp add: fragment_len_def)
    ultimately show ?thesis using S by linarith
  next
    case False
    with i have "S div n * (i + 1) \<le> S div n * n" by (intro mult_le_mono2) simp
    moreover have "S div n * (i + 1) = S div n * i + S div n" by simp
    moreover have "fragment_len S n i = S div n" using False by (simp add: fragment_len_def)
    ultimately show ?thesis using S by linarith
  qed
qed

lemma length_frag_slice [simp]: "i < n \<Longrightarrow> length F = S \<Longrightarrow> length (frag_slice S n i F) = fragment_len S n i"
  using fragment_end [of i n S] by (simp add: frag_slice_def)

text \<open>Every byte of the file is in some frag_slice.\<close>

lemma slices_cover:
  assumes "j < S" and "0 < n"
  shows "\<exists>i < n. S div n * i \<le> j \<and> j < S div n * i + fragment_len S n i"
proof (cases "j < S div n * (n - 1)")
  case True
  then have q: "0 < S div n" by (cases "S div n") auto
  let ?i = "j div (S div n)"
  have i: "?i < n - 1" using True q by (simp add: less_mult_imp_div_less mult.commute)
  have "S div n * ?i \<le> j" "j < S div n * ?i + S div n"
    using mult_div_mod_eq [of "S div n" j] mod_less_divisor [OF q, of j] by linarith+
  with i show ?thesis by (intro exI [of _ ?i]) (auto simp: fragment_len_def)
next
  case False
  have "S div n * (n - 1) + (S div n + S mod n) = S"
    using div_mult_mod_eq [of S n] assms(2) by (cases n) (auto simp: algebra_simps)
  with False assms show ?thesis by (intro exI [of _ "n - 1"]) (auto simp: fragment_len_def)
qed

lemma fragment_offset_nat:
  assumes "0 < n" and "n \<le> 255" and "S < 2 ^ 31" and "1 \<le> k" and "k \<le> n"
  shows "fragment_offset (of_nat S) (int n) (int k) = Some (int (S div n * (k - 1)))"
proof -
  have "unat ((of_nat S :: u64) div of_nat n) = S div n"
    using assms(2,3) by (simp add: unat_div_distrib unat_of_nat_u64)
  moreover have q: "S div n \<le> S" by (rule div_le_dividend)
  ultimately have d: "int_of_u64 ((of_nat S :: u64) div of_nat n) = int (S div n)"
    using assms(3) int_of_u64_small [of "of_nat S div of_nat n"] by linarith
  have "k - 1 < n" using assms(4,5) by linarith
  then have "S div n * (k - 1) \<le> S" using fragment_end [of "k - 1" n S] by linarith
  then have "S div n * (k - 1) < 2 ^ 31" using assms(3) by linarith
  then have lt: "int (S div n * (k - 1)) < 2 ^ 31" by (simp only: of_nat_less_numeral_power_cancel_iff)
  have m: "int (S div n) * (int k - 1) = int (S div n * (k - 1))" using assms(4) by (simp add: of_nat_diff)
  have "u64_of_int (int n) = of_nat n" by simp
  with d m lt assms(1) show ?thesis
    unfolding fragment_offset_def Let_def by (simp del: of_nat_mult of_nat_diff)
qed

lemma nth_poke:
  "off + length bs \<le> length m \<Longrightarrow> j < length m \<Longrightarrow>
   poke off bs m ! j = (if off \<le> j \<and> j < off + length bs then bs ! (j - off) else m ! j)"
  by (auto simp: poke_def nth_append min_def)

lemma put_slice:
  assumes "0 < n" and "n \<le> 255" and "S < 2 ^ 31" and "1 \<le> k" and "k \<le> n" and "length F = S" and "length buf = S"
  shows "put_piece (of_nat S) (int n) (int k) (frag_slice S n (k - 1) F) buf =
     Some (poke (S div n * (k - 1)) (frag_slice S n (k - 1) F) buf)"
  using fragment_offset_nat [OF assms(1-5)] fragment_end [of "k - 1" n S] assms
  by (simp add: put_piece_def del: of_nat_mult of_nat_diff zdiv_int of_nat_div)

lemma assemble_slices:
  assumes n: "0 < n" "n \<le> 255" "S < 2 ^ 31" and F: "length F = S" and "set ks \<subseteq> {1..n}" and "length buf = S"
  shows "\<exists>buf'. assemble (of_nat S) (int n) (map (\<lambda>k. (int k, frag_slice S n (k - 1) F)) ks) buf = Some buf' \<and> length buf' = S \<and>
     (\<forall>j < S. (\<exists>k \<in> set ks. S div n * (k - 1) \<le> j \<and> j < S div n * (k - 1) + fragment_len S n (k - 1)) \<or> buf ! j = F ! j
        \<longrightarrow> buf' ! j = F ! j)"
  using assms(5,6)
proof (induction ks arbitrary: buf)
  case (Cons k ks)
  let ?o = "S div n * (k - 1)" and ?p = "frag_slice S n (k - 1) F"
  have k: "1 \<le> k" "k \<le> n" using Cons.prems(1) by auto
  have k1: "k - 1 < n" using k by linarith
  have e: "?o + fragment_len S n (k - 1) \<le> S" by (rule fragment_end [OF k1])
  have lp: "length ?p = fragment_len S n (k - 1)" using k1 F by simp
  have "length (poke ?o ?p buf) = S" using lp e Cons.prems(2) by simp
  then obtain buf' where b: "assemble (of_nat S) (int n) (map (\<lambda>k. (int k, frag_slice S n (k - 1) F)) ks) (poke ?o ?p buf) = Some buf'"
      "length buf' = S"
      "\<forall>j < S. (\<exists>k \<in> set ks. S div n * (k - 1) \<le> j \<and> j < S div n * (k - 1) + fragment_len S n (k - 1)) \<or>
          poke ?o ?p buf ! j = F ! j \<longrightarrow> buf' ! j = F ! j"
    using Cons.IH [of "poke ?o ?p buf"] Cons.prems by auto
  have "poke ?o ?p buf ! j = F ! j"
    if "?o \<le> j \<and> j < ?o + fragment_len S n (k - 1) \<or> buf ! j = F ! j" "j < S" for j
    using that lp e Cons.prems(2) F by (auto simp: nth_poke frag_slice_def peek_def)
  with b put_slice [OF n k F Cons.prems(2)] show ?case by auto
qed simp

section \<open>Lemmas: the handlers\<close>

lemma fragment_table_ring:
  assumes "full_ring sv d n" and "S < 2 ^ 31"
  shows "fragment_table sv (of_nat S) (int n) (replicate (2 * n) zero_pointer) =
     Some (ring_table n (\<lambda>i. of_nat (fragment_len S n i)))"
proof -
  have n: "2 \<le> n" "n \<le> 255" "index_data sv = Some d" using assms(1) by (auto simp: full_ring_def)
  have u: "unat ((of_nat S :: u64) div of_nat n) = S div n" "unat ((of_nat S :: u64) mod of_nat n) = S mod n"
    using assms(2) n by (simp_all add: unat_div_distrib unat_mod_distrib unat_of_nat_u64)
  have "S div n \<le> S" "S mod n \<le> S" by (rule div_le_dividend, rule mod_less_eq_dividend)
  with u assms(2) have "int_of_u64 ((of_nat S :: u64) div of_nat n) = int (S div n)"
      "int_of_u64 ((of_nat S :: u64) mod of_nat n) = int (S mod n)"
    using int_of_u64_small [of "of_nat S div of_nat n"] int_of_u64_small [of "of_nat S mod of_nat n"] by linarith+
  then show ?thesis
    using place_fragments_ring [OF assms, of "replicate (2 * n) zero_pointer" 0 n] n
    by (simp add: fragment_table_def)
qed

lemma register_file_ring:
  assumes "full_ring sv d n" and "S < 2 ^ 31" and inv: "fni_inv net hp" and mem: "\<forall>h k. os_malloc os h k \<noteq> None"
    and new: "xfilenetindex_find_file net hp fid = Some None"
  shows "\<exists>net' hp' h' a f. register_file os sv fid (of_nat S) (int n) net hp h = Some (net', hp', h') \<and>
     fni_inv net' hp' \<and> xfilenetindex_find_file net' hp' fid = Some (Some a) \<and> cells hp' a = Some f \<and>
     fni_fragments f = Some (ring_table n (\<lambda>i. of_nat (fragment_len S n i))) \<and> total_fragments f = of_nat (2 * n)"
proof -
  have n: "2 \<le> n" "n \<le> 255" using assms(1) by (auto simp: full_ring_def)
  let ?k = "of_nat (2 * n) :: u64"
  have k: "u64_of_int (int n * 2) = ?k" by (simp add: u64_of_int_def mult.commute)
  have uk: "unat ?k = 2 * n" using n by (intro unat_of_nat_u64) simp
  then have k0: "0 < ?k" using n(1) by (simp only: word_less_nat_alt) simp
  obtain a net1 hp1 h1 where "fni_create os (fid, ?k) (net, hp, h) = Some (a, net1, hp1, h1)"
    using fni_create_total [OF inv, of os fid ?k h] mem by blast
  then obtain hp0 where new0: "xfilenetindex_new_file os fid ?k hp h = ((Some a, hp0), h1)"
    by (auto simp: fni_create_def split: prod.split_asm option.split_asm Option.bind_split_asm simp del: of_nat_mult)
  obtain c where c: "cells hp0 a = Some c" "fni_fragments c = Some (replicate (2 * n) zero_pointer)"
    using new_file_result(3) [OF new0] k0 uk by (auto simp del: of_nat_mult)
  let ?T = "ring_table n (\<lambda>i. of_nat (fragment_len S n i))"
  obtain net' hp' f where e: "xfilenetindex_add_file net (Some a) (hp0\<lparr>cells := (cells hp0)(a \<mapsto> c\<lparr>fni_fragments := Some ?T\<rparr>)\<rparr>) =
      Some (net', hp')" "fni_inv net' hp'" "index_entries net' hp' = index_entries net hp @ [(fid, a)]"
      "cells hp' a = Some f" "fni_fragments f = Some ?T" "total_fragments f = ?k"
    using new_entry [OF inv new0 c(1), of "Some ?T"] by blast
  have "map_of (index_entries net hp) fid = None" using new by (simp add: index_find_entries [OF inv])
  with e(2,3) have "xfilenetindex_find_file net' hp' fid = Some (Some a)"
    by (simp add: index_find_entries map_add_def)
  moreover have "register_file os sv fid (of_nat S) (int n) net hp h = Some (net', hp', h1)"
    using fragment_table_ring [OF assms(1,2)] new0 c e(1) by (simp add: register_file_def k del: of_nat_mult)
  ultimately show ?thesis using e by blast
qed

lemma wait_obs [simp]: "accepted f (snd (server_wait_from_socket os fd h)) = accepted f h"
  by (simp add: server_wait_from_socket_def split_def Let_def)

lemma send_fragment_size:
  assumes "length (rfr_file_name r) = 200"
  shows "psize (xpacket_send_fragment sv r) = 277" and "length (raw (xpacket_send_fragment sv r)) = 4096"
  using assms by (simp_all add: xpacket_defs packet_access packet_views)

section \<open>Properties\<close>

text \<open>C16: Placement is what it is meant to be: \<open>place_copies\<close> returns and gives fragment \<open>i\<close> to the first
  two valid nodes among the candidates it may try, counting on from the first one around the
  original ring; it writes nothing else; and while it may not try more candidates than the
  ring has, no node gets both copies.\<close>

theorem copies_on_first_valid_nodes:
  assumes "table_covers sv" and "unat known + 1 < 2 ^ 31" and "i * 2 + 2 \<le> length t" and "node < 2 ^ 31"
  shows "place_copies sv known i sz node 0 0 t =
       Some (write_copies i sz 0 (take 2 (holders sv node [0..<unat known + 1])) t) \<and>
     (unat known + 1 \<le> unat (net_size sv + death_count sv) \<longrightarrow> distinct (holders sv node [0..<unat known + 1]))"
proof -
  have "place_copies sv known i sz node 0 0 t =
       Some (write_copies i sz 0 (take (2 - 0) (holders sv node [0..<unat known + 1])) t)"
    using assms by (intro place_copies_reference) auto
  moreover have "distinct (holders sv node [0..<unat known + 1])" if "unat known + 1 \<le> unat (net_size sv + death_count sv)"
    using assms that by (intro holders_distinct) auto
  ultimately show ?thesis by simp
qed

definition ring3 :: Server where
  "ring3 = server0\<lparr>me_node_id := 3, net_size := 3, death_count := 0,
     index_data := Some \<lparr>peer_ips = [addr0, addr0, addr0\<lparr>port := 0\<rparr>], known_peers = 2\<rparr>\<rparr>"

lemma ring3_full: "full_ring ring3 \<lparr>peer_ips = [addr0, addr0, addr0\<lparr>port := 0\<rparr>], known_peers = 2\<rparr> 3"
  by (auto simp: full_ring_def ring3_def addr0_def nth_Cons split: nat.split)

theorem copies_on_first_valid_nodes_witness:
  "\<exists>t. place_copies ring3 2 2 10 2 0 0 (replicate 6 zero_pointer) = Some t \<and>
     t = write_copies 2 10 0 (take 2 (holders ring3 2 [0..<3])) (replicate 6 zero_pointer) \<and> distinct (holders ring3 2 [0..<3])"
  using copies_on_first_valid_nodes [OF full_ring_covers [OF ring3_full], of 2 2 "replicate 6 zero_pointer" 2 10]
  by (simp add: ring3_def server0_def)

text \<open>C3: On a ring of \<open>n\<close> nodes without deaths the index splits a new file of \<open>S\<close> bytes (more than 100
  and more than \<open>n\<close>) into \<open>n\<close> fragments of \<open>S div n\<close> bytes, the last with the remainder, and
  registers it under the next id with fragment \<open>i\<close> on node \<open>i\<close> and on its successor; it goes on
  to fan the fragments out of the buffer that was received.\<close>

theorem new_file_spread_over_ring:
  assumes "machine_state (nd_sv nd) = MSRawPackets s" and "rp_fc s = Some fc" and "rp_total_size s = of_nat S"
    and ring: "full_ring (nd_sv nd) d n" and S: "100 < S" "n < S" "S < 2 ^ 31"
    and inv: "fs_inv (nd_fs nd)" "fni_inv (nd_net nd) (nd_hp nd)" and mem: "\<forall>h k. os_malloc os h k \<noteq> None"
    and room: "files (nd_fs nd) \<noteq> None" "length (containers (nd_fs nd)) < FILE_SERVER_MAX_FILES"
    and fid: "fid = file_count (nd_fs nd) + 1"
    and new: "xfilenetindex_find_file (nd_net nd) (nd_hp nd) fid = Some None"
    and shown: "store_shown (nd_fs nd)" "n \<noteq> 255"
  shows "\<exists>nd' h' a f. handle_new_file os nd h = Some (Continue nd', h') \<and>
     sv_state (nd_sv nd') = SERVER_INDEX_FANOUT_FRAGMENTS \<and>
     machine_state (nd_sv nd') = MSHandleNewFile (Some (length (containers (nd_fs nd)))) (rp_buffer s) \<and>
     fs_inv (nd_fs nd') \<and> fni_inv (nd_net nd') (nd_hp nd') \<and>
     xfilenetindex_find_file (nd_net nd') (nd_hp nd') fid = Some (Some a) \<and> cells (nd_hp nd') a = Some f \<and>
     fni_fragments f = Some (ring_table n (\<lambda>i. of_nat (fragment_len S n i))) \<and> total_fragments f = of_nat (2 * n)"
proof -
  have n: "2 \<le> n" "n \<le> 255" "net_size (nd_sv nd) = of_nat n" using ring by (auto simp: full_ring_def)
  have uS: "unat (of_nat S :: u64) = S" using S(3) by (intro unat_of_nat_u64) simp
  have "\<not> (of_nat S :: u64) \<le> of_nat n" "\<not> (of_nat S :: u64) \<le> 100"
    using S n uS by (simp_all add: word_le_nat_alt)
  then have fc: "fragment_count (nd_sv nd) (of_nat S) = int n" using n by (simp add: fragment_count_def)
  obtain fs where fs: "xfileserver_add_file (nd_fs nd) (rfc_name fc) fid (of_nat S) (word_of_int (int n)) =
      Some (Some (length (containers (nd_fs nd))), fs)"
    using add_file_room [OF inv(1) room] by blast
  have n8: "(word_of_int (int n) :: u8) \<noteq> 255" 
  proof -
    have "uint (word_of_int (int n) :: u8) = int n" using n by (simp add: unsigned_of_nat take_bit_nat_eq_self)
    then show ?thesis using shown(2) by (auto dest: arg_cong [where f = uint])
  qed
  obtain shown_text where dbg: "xfileserver_debug (Some fs) = Some shown_text"

  proof -
    have "fragments_shown (nd_fs nd)" using shown(1) by (simp add: store_shown_def)
    with add_file_fragments_shown [OF inv(1) fs] have "fragments_shown fs" .
    from store_debug [OF add_file_kept [OF inv(1) fs] this] add_file_shown [OF inv(1) fs shown(1)] n8 that
    show thesis by auto
  qed
  obtain net hp h1 a f where r: "register_file os (nd_sv nd) fid (of_nat S) (int n) (nd_net nd) (nd_hp nd) h = Some (net, hp, h1)"
      "fni_inv net hp" "xfilenetindex_find_file net hp fid = Some (Some a)" "cells hp a = Some f"
      "fni_fragments f = Some (ring_table n (\<lambda>i. of_nat (fragment_len S n i)))" "total_fragments f = of_nat (2 * n)"
    using register_file_ring [OF ring S(3) inv(2) mem new, of h] by blast
  have "handle_new_file os nd h = Some (Continue \<lparr>nd_sv = (fst (server_set_state os (nd_sv nd) SERVER_INDEX_FANOUT_FRAGMENTS h1))
       \<lparr>machine_state := MSHandleNewFile (Some (length (containers (nd_fs nd)))) (rp_buffer s)\<rparr>, nd_fs = fs, nd_net = net, nd_hp = hp\<rparr>,
     snd (server_set_state os (nd_sv nd) SERVER_INDEX_FANOUT_FRAGMENTS h1))"
    using assms(1-3) fc fs dbg r(1) n by (simp add: handle_new_file_def Let_def split_def fid)
  with r add_file_kept [OF inv(1) fs] show ?thesis by simp
qed

definition node3 :: "StateRawPackets \<Rightarrow> Node" where
  "node3 s = \<lparr>nd_sv = ring3\<lparr>machine_state := MSRawPackets s\<rparr>, nd_fs = empty_store, nd_net = snd xfilenetindex_init,
     nd_hp = empty_heap\<rparr>"

definition raw3 :: StateRawPackets where
  "raw3 = \<lparr>rp_trigger_pkt = TYPE_CREATE_FILE, rp_n_pkts = 1, rp_total_size = 200, rp_client_fd = 7,
     rp_fc = Some \<lparr>rfc_name = [97, 0], rfc_file_size = 200\<rparr>, rp_fragc = None, rp_buffer = Some (replicate 200 1)\<rparr>"

theorem new_file_spread_over_ring_witness:
  "\<exists>nd' h' a f. handle_new_file slow_os (node3 raw3) [] = Some (Continue nd', h') \<and>
     xfilenetindex_find_file (nd_net nd') (nd_hp nd') 1 = Some (Some a) \<and> cells (nd_hp nd') a = Some f \<and>
     fni_fragments f = Some (ring_table 3 (\<lambda>i. of_nat (fragment_len 200 3 i)))"
proof -
  have ring: "full_ring (nd_sv (node3 raw3)) \<lparr>peer_ips = [addr0, addr0, addr0\<lparr>port := 0\<rparr>], known_peers = 2\<rparr> 3"
    using ring3_full by (simp add: node3_def full_ring_def)
  have st: "fs_inv (nd_fs (node3 raw3))" "files (nd_fs (node3 raw3)) \<noteq> None" "length (containers (nd_fs (node3 raw3))) < 100"
      "(1 :: u16) = file_count (nd_fs (node3 raw3)) + 1" "fni_inv (nd_net (node3 raw3)) (nd_hp (node3 raw3))"
      "store_shown (nd_fs (node3 raw3))"
    using init_inv by (simp_all add: node3_def empty_store_def fs_inv_def containers_def store_shown_def fragments_shown_def)
  have mem: "\<forall>h k. os_malloc slow_os h k \<noteq> None" by (simp add: slow_os_def)
  have new: "xfilenetindex_find_file (nd_net (node3 raw3)) (nd_hp (node3 raw3)) 1 = Some None"
    by (simp add: node3_def xfilenetindex_find_file_def xfilenetindex_init_def xfilenetindex_find_from.simps)
  have ms: "machine_state (nd_sv (node3 raw3)) = MSRawPackets raw3" "rp_fc raw3 = Some \<lparr>rfc_name = [97, 0], rfc_file_size = 200\<rparr>"
      "rp_total_size raw3 = of_nat 200"
    by (simp_all add: node3_def raw3_def)
  from new_file_spread_over_ring [OF ms ring _ _ _ st(1,5) mem st(2,3,4) new st(6), of "[]"] show ?thesis by auto
qed



text \<open>C5: Whatever the order in which the fragments of a file arrive at the requesting node, and
  however often, once each of the \<open>n\<close> fragments has been copied to its place the buffer is the
  file that was cut up.\<close>

theorem file_reassembled:
  assumes "0 < n" and "n \<le> 255" and "S < 2 ^ 31" and "length F = S" and "length buf = S" and "set ks = {1..n}"
  shows "assemble (of_nat S) (int n) (map (\<lambda>k. (int k, frag_slice S n (k - 1) F)) ks) buf = Some F"
proof -
  have sub: "set ks \<subseteq> {1..n}" using assms(6) by simp
  obtain buf' where b: "assemble (of_nat S) (int n) (map (\<lambda>k. (int k, frag_slice S n (k - 1) F)) ks) buf = Some buf'"
      "length buf' = S"
      "\<forall>j < S. (\<exists>k \<in> set ks. S div n * (k - 1) \<le> j \<and> j < S div n * (k - 1) + fragment_len S n (k - 1)) \<or> buf ! j = F ! j
        \<longrightarrow> buf' ! j = F ! j"
    using assemble_slices [OF assms(1-4) sub assms(5)] by blast
  have "buf' ! j = F ! j" if j: "j < S" for j
  proof -
    obtain i where i: "i < n" "S div n * i \<le> j" "j < S div n * i + fragment_len S n i"
      using slices_cover [OF j assms(1)] by blast
    then have "Suc i \<in> set ks" using assms(6) by simp
    with i b(3) j show ?thesis by (metis diff_Suc_1)
  qed
  with b assms(4) show ?thesis by (auto intro: nth_equalityI)
qed

theorem file_reassembled_witness:
  "assemble 5 2 (map (\<lambda>k. (int k, frag_slice 5 2 (k - 1) [1, 2, 3, 4, 5])) [2, 1]) (replicate 5 46) = Some [1, 2, 3, 4, 5]"
proof -
  have "set [2, 1] = {1..2 :: nat}" by auto
  from file_reassembled [OF _ _ _ _ _ this, of 5 "[1, 2, 3, 4, 5]" "replicate 5 46"] show ?thesis by simp
qed

text \<open>C11: A fragment for another node leaves the index as the presentation, the declaration (which
  carries the file's name, size, id, fragment count and the fragment's number and size) and
  then exactly the bytes of its slice of the file, on the connection to that node.\<close>

theorem fanout_sends_slice:
  assumes "fs_inv fs" and fc: "at (containers fs) (int fci) = Some fc" and F: "length F = S" "S < 2 ^ 31 - 4096"
    and i: "i < n" "n \<le> 255"
    and frag: "frag = \<lparr>np_fragment = of_nat (i + 1), np_size = of_nat (fragment_len S n i), np_node_id = nid\<rparr>"
    and "nid \<noteq> me_node_id sv" and "index_data sv = Some d" and "at (peer_ips d) (uint nid - 1) = Some a"
    and dial: "server_dial os a h = (fd, h1)" and pat: "patient os fd c"
  shows "\<exists>h'. fanout_one os sv F (int (S div n)) fci fs j frag h = Some (fs, h') \<and>
     accepted fd h' = accepted fd h @ take 277 (raw (xpacket_presentation sv)) @
       take 277 (raw (xpacket_send_fragment sv (xreqfragcreation_new fc frag (int j)))) @ frag_slice S n i F"
proof -
  have e: "S div n * i + fragment_len S n i \<le> S" by (rule fragment_end [OF i(1)])
  let ?q = "xpacket_send_fragment sv (xreqfragcreation_new fc frag (int j))"
  have "length (rfr_file_name (xreqfragcreation_new fc frag (int j))) = 200"
    using container_at [OF assms(1) fc] by (simp add: xreqfragcreation_new_def container_ok_def)
  note q = send_fragment_size [OF this, of sv]
  obtain h2 where h2: "server_send_to_socket os (xpacket_presentation sv) fd h1 = Some (277, h2)"
     "accepted fd h2 = accepted fd h1 @ take 277 (raw (xpacket_presentation sv))"
    using send_to_socket_complete [OF pat, of "xpacket_presentation sv" 277 h1] presentation_size [of sv] by auto
  define h3 where "h3 = snd (server_wait_from_socket os fd h2)"
  obtain h4 where h4: "server_send_to_socket os ?q fd h3 = Some (277, h4)" "accepted fd h4 = accepted fd h3 @ take 277 (raw ?q)"
    using send_to_socket_complete [OF pat, of ?q 277 h3] q by auto
  define h5 where "h5 = snd (server_wait_from_socket os fd h4)"
  have len: "fragment_len S n i < 2 ^ 31 - 4096" using fragment_len_le [of n S i] i(1) F(2) by simp
  have drp: "fragment_len S n i \<le> length (drop (S div n * i) F)" using e F(1) by simp
  obtain h6 where h6: "server_send_large_buffer_to os fd (int (fragment_len S n i)) (drop (S div n * i) F) h5 = Some (1, h6)"
     "accepted fd h6 = accepted fd h5 @ frag_slice S n i F"
    using large_buffer_sent [OF pat len drp, of h5] by (auto simp: frag_slice_def peek_def)
  have off: "int (S div n) * (uint (np_fragment frag) - 1) = int (S div n * i)"
    using i by (simp add: frag unsigned_of_nat take_bit_nat_eq_self flip: of_nat_Suc)
  have "S div n * i < 2 ^ 31" using e F(2) by linarith
  then have off31: "int (S div n * i) < 2 ^ 31" by (simp only: of_nat_less_numeral_power_cancel_iff)
  have nid: "np_node_id frag = nid" by (simp add: frag)
  have sz: "int_of_u64 (np_size frag) = int (fragment_len S n i)"
    using len by (simp add: frag unat_of_nat_u64)
  have "fanout_one os sv F (int (S div n)) fci fs j frag h = Some (fs, h6)"
    using fc off31 assms(8-11) h2(1) h4(1) h6(1) e F(1) nid
    by (simp add: fanout_one_def off sz split_def h3_def h5_def Let_def del: at_int at_Some of_nat_mult)
  moreover have "accepted fd h3 = accepted fd h2" "accepted fd h5 = accepted fd h4" by (simp_all add: h3_def h5_def)
  ultimately show ?thesis using h2(2) h4(2) h6(2) dial_obs [OF dial, of fd] by simp
qed

theorem fanout_sends_slice_witness:
  "\<exists>h'. fanout_one (open_os []) (server0\<lparr>index_data := Some \<lparr>peer_ips = [addr0, addr0], known_peers = 1\<rparr>\<rparr>) [1, 2, 3, 4, 5] 2 0
       one_file_store 0 \<lparr>np_fragment = 1, np_size = 2, np_node_id = 2\<rparr> [] = Some (one_file_store, h') \<and>
     drop 554 (accepted 3 h') = [1, 2]"
proof -
  let ?sv = "server0\<lparr>index_data := Some \<lparr>peer_ips = [addr0, addr0], known_peers = 1\<rparr>\<rparr>"
  let ?fc = "zero_container\<lparr>file_id := 1, fc_size := 4, fragment_count_total := 2,
      fragments := [zero_fragment, \<lparr>fragment_id = 2, fragment_bytes = Some [8, 9], fragment_size = 2\<rparr>]\<rparr>"
  let ?frag = "\<lparr>np_fragment = 1, np_size = 2, np_node_id = 2\<rparr> :: xFragmentNetworkPointer"
  have fs: "fs_inv one_file_store" "at (containers one_file_store) (int 0) = Some ?fc"
    by (simp_all add: one_file_store_def fs_inv_def container_ok_def zero_container_def containers_def)
  have frag: "?frag = \<lparr>np_fragment = of_nat (0 + 1), np_size = of_nat (fragment_len 5 2 0), np_node_id = 2\<rparr>"
    by (simp add: fragment_len_def)
  have dial: "server_dial (open_os []) addr0 [] = (3, [EvConnect 3 addr0 0, EvSocket 3])"
    by (simp add: server_dial_def tcp_open_def open_os_def echo_os_def slow_os_def Let_def)
  have len: "length (rfr_file_name (xreqfragcreation_new ?fc ?frag 0)) = 200"
    by (simp add: xreqfragcreation_new_def zero_container_def)
  obtain h' where "fanout_one (open_os []) ?sv [1, 2, 3, 4, 5] (int (5 div 2)) 0 one_file_store 0 ?frag [] = Some (one_file_store, h')"
     "accepted 3 h' = accepted 3 [] @ take 277 (raw (xpacket_presentation ?sv)) @
        take 277 (raw (xpacket_send_fragment ?sv (xreqfragcreation_new ?fc ?frag (int 0)))) @ frag_slice 5 2 0 [1, 2, 3, 4, 5]"
    using fanout_sends_slice [OF fs _ _ _ _ frag _ _ _ dial eager_patient [OF open_os_eager],
        where F = "[1, 2, 3, 4, 5]" and sv = ?sv and d = "\<lparr>peer_ips = [addr0, addr0], known_peers = 1\<rparr>" and j = 0]
    by (auto simp: server0_def)
  then show ?thesis
    using presentation_size(2) [of ?sv] send_fragment_size(2) [OF len, of ?sv]
    by (simp add: frag_slice_def fragment_len_def peek_def)
qed

end
