(* ===== verification/File_Transfer.thy ===== *)
theory File_Transfer
  imports Fragmentation
begin

text \<open>
  Data in transit and fragments at rest: what \<open>SERVER_WAITING_RAW_PACKETS\<close> puts into its buffer and
  passes on to the index, what \<open>SERVER_RECEIVED_FRAGMENT\<close> leaves in the store for a later
  \<open>xprocedure_send_fragment\<close> or a local copy, and which holder the index asks for a fragment.
\<close>

section \<open>A peer that sends pieces\<close>

text \<open>How often the program has received from a socket.\<close>

fun recvs :: "int \<Rightarrow> hist \<Rightarrow> nat" where
  "recvs fd [] = 0"
| "recvs fd (EvRecv f n fl d # h) = (if f = fd then Suc (recvs fd h) else recvs fd h)"
| "recvs fd (_ # h) = recvs fd h"

text \<open>The \<open>k\<close>-th receive on \<open>fd\<close> gives the \<open>k\<close>-th piece, whatever else happens in between.\<close>

definition serves :: "os \<Rightarrow> int \<Rightarrow> bytes list \<Rightarrow> bool" where
  "serves os fd cs \<longleftrightarrow> (\<forall>c \<in> set cs. length c \<le> sizeof_raw) \<and>
     (\<forall>h. recvs fd h < length cs \<longrightarrow> os_recv os h fd sizeof_raw 0 = Some (cs ! recvs fd h))"

lemma tcp_send_recvs:
  assumes "tcp_send os fd buf n h = Some (r, h')"
  shows "recvs f h' = recvs f h"
proof -
  from assms obtain t where it: "iterate (tcp_send_round os fd (take n buf)) (0, h) = Some (t, h')"
    by (auto simp: tcp_send_def split: if_split_asm)
  have st: "recvs f (snd s') = recvs f (snd s)" if "tcp_send_round os fd b s = Inl s' \<or> tcp_send_round os fd b s = Inr s'" for b s s'
    using that by (cases s) (auto simp: tcp_send_round_def sys_send_def usleep_def Let_def split_def split: if_split_asm)
  have "recvs f (snd (t, h')) = recvs f h"
    by (rule iterate_partial [OF it, where I = "\<lambda>s. recvs f (snd s) = recvs f h"]) (use st in fastforce)+
  then show ?thesis by simp
qed

lemma send_to_index_recvs:
  "server_send_to_index os sv p h = Some (r, h') \<Longrightarrow> recvs f h' = recvs f h"
  by (auto simp: server_send_to_index_def server_send_to_socket_def split: if_split_asm dest: tcp_send_recvs)

lemma receive_raw_pieces:
  assumes srv: "serves os c (got @ cs)" and pat: "patient os (stream_fd (sv_index sv)) k"
    and "recvs c h = length got" and "length got' = pos" and "length buf = pos + length (concat cs)" and "take pos buf = got'"
  shows "\<exists>h'. receive_raw os sv relay c (length cs) (int pos) (Some buf) h = Some (Some (got' @ concat cs), h') \<and>
     accepted (stream_fd (sv_index sv)) h' =
       accepted (stream_fd (sv_index sv)) h @ (if relay then concat cs else [])"
  using assms
proof (induction cs arbitrary: got h pos got' buf)
  case Nil
  then show ?case by simp
next
  case (Cons x cs)
  let ?i = "stream_fd (sv_index sv)"
  have rx: "os_recv os h c 4096 0 = Some x" "length x \<le> 4096"
    using Cons.prems(1,3) by (auto simp: serves_def)
  let ?p = "\<lparr>raw = fit 4096 x, psize = int (length x)\<rparr>" and ?h1 = "EvRecv c 4096 0 (Some x) # h"
  have w: "server_wait_from_socket os c h = (?p, ?h1)" by (rule wait_from_socket_feed [OF rx])
  have m: "memcpy_to buf pos (take (length x) (fit 4096 x)) = Some (poke pos x buf)"
    using Cons.prems(5) rx(2) by simp
  obtain r2 h2 where h2: "(if relay then server_send_to_index os sv ?p ?h1 else Some (0, ?h1)) = Some (r2, h2)"
      "accepted ?i h2 = accepted ?i h @ (if relay then x else [])" "recvs c h2 = Suc (recvs c h)"
  proof (cases relay)
    case True
    obtain h2 where "server_send_to_socket os ?p ?i ?h1 = Some (int (length x), h2)"
       "accepted ?i h2 = accepted ?i ?h1 @ take (length x) (raw ?p)"
      using send_to_socket_complete [OF pat, of ?p "length x" ?h1] rx(2) by auto
    with True that send_to_index_recvs [of os sv ?p ?h1 "int (length x)" h2 c] rx(2) show ?thesis
      by (auto simp: server_send_to_index_def)
  qed (use that in auto)
  have srv': "serves os c ((got @ [x]) @ cs)" using Cons.prems(1) by simp
  have "take (pos + length x) (poke pos x buf) = got' @ x"
    using Cons.prems(4-6) by (auto simp: poke_def)
  then obtain h' where "receive_raw os sv relay c (length cs) (int (pos + length x)) (Some (poke pos x buf)) h2 =
       Some (Some ((got' @ x) @ concat cs), h')"
     "accepted ?i h' = accepted ?i h2 @ (if relay then concat cs else [])"
    using Cons.IH [OF srv' pat, of h2 "got' @ x" "pos + length x" "poke pos x buf"] h2(3) Cons.prems(3-5) by auto
  then show ?case using w m h2 by (auto simp del: memcpy_to_Some)
qed

lemma put_container_at:
  "fs_inv fs \<Longrightarrow> i < length (containers fs) \<Longrightarrow> containers (put_container fs i fc) = (containers fs)[i := fc]"
  by (cases "files fs") (simp_all add: put_container_def containers_def)

lemma find_file_bound:
  assumes "fs_inv fs" and "xfileserver_find_file fs k = Some i"
  shows "i < length (containers fs)" and "ucast (file_id (containers fs ! i)) = k"
  using assms by (auto simp: xfileserver_find_file_def fs_inv_def containers_def find_Some_iff split: option.splits)

lemma find_file_put:
  assumes "fs_inv fs" and "container_ok fc" and "i < length (containers fs)" and "file_id fc = file_id (containers fs ! i)"
  shows "xfileserver_find_file (put_container fs i fc) k = xfileserver_find_file fs k"
proof -
  have "fs_entries (put_container fs i fc) = fs_entries fs"
    using assms(3,4) by (auto simp: fs_entries_def put_container_at [OF assms(1,3)] nth_list_update)
  then show ?thesis
    using find_file_entries [OF assms(1)] find_file_entries put_container_inv [OF assms(1,2), of i] by simp
qed

lemma put_container_shown:
  assumes "fs_inv fs" and "i < length (containers fs)" and "store_shown fs"
    and "list_all fragment_shown (fragments fc)" and "fragment_count_total fc \<noteq> 255"
  shows "store_shown (put_container fs i fc)"
  using assms(3-5) set_update_subset_insert [of "containers fs" i fc]
  by (auto simp: store_shown_def fragments_shown_def list_all_iff put_container_at [OF assms(1,2)])

section \<open>Properties\<close>


definition piecewise_os :: "bytes list \<Rightarrow> os" where
  "piecewise_os cs = (open_os [])\<lparr>os_recv := \<lambda>h fd n fl. if recvs fd h < length cs then Some (cs ! recvs fd h) else None\<rparr>"

lemma piecewise_serves: "\<forall>c \<in> set cs. length c \<le> sizeof_raw \<Longrightarrow> serves (piecewise_os cs) fd cs"
  by (simp add: serves_def piecewise_os_def)



definition frag3 :: xRequestFragmentCreation where
  "frag3 = \<lparr>rfr_file_name = [97, 0], rfr_file_size = 4, rfr_file_id = 1, rfr_fragment_count_total = 2, rfr_ptr_index = 0,
     rfr_frag_id = 1, rfr_frag_size = 2\<rparr>"


text \<open>C14: A fragment that arrives from another node goes to its place: \<open>take_delivery\<close> receives the bytes
  in the announced number of pieces, confirms, closes the connection, and leaves the buffer
  changed exactly at the offset of that fragment.\<close>

theorem delivery_placed:
  assumes "0 < n" and "n \<le> 255" and "S < 2 ^ 31" and k: "1 \<le> k" "k \<le> n" and F: "length F = S" and "length buf = S"
    and "rq_file_size s = of_nat S" and "rq_fragment_count s = int n"
    and "dtr_frag_id d = of_nat k" and "dtr_frag_size d = of_nat (fragment_len S n (k - 1))"
    and feed: "feeds os c cs (EvMalloc (fragment_len S n (k - 1)) True # h)" and "concat cs = frag_slice S n (k - 1) F"
    and "int (length cs) = n_buckets (int (fragment_len S n (k - 1)))"
    and mem: "\<forall>h k. os_malloc os h k \<noteq> None" and pat: "patient os c m"
  shows "\<exists>h'. take_delivery os sv s d c buf h = Some (poke (S div n * (k - 1)) (frag_slice S n (k - 1) F) buf, h')"
proof -
  let ?L = "fragment_len S n (k - 1)"
  have k1: "k - 1 < n" using k by linarith
  have L: "?L \<le> S" by (rule fragment_len_le [OF assms(1)])
  then have uL: "unat (of_nat ?L :: u64) = ?L" using assms(3) by (intro unat_of_nat_u64) simp
  then have iL: "int_of_u64 (of_nat ?L) = int ?L" using L assms(3) int_of_u64_small [of "of_nat ?L"] by simp
  have ik: "int_of_u64 (of_nat k) = int k" using k assms(2) int_of_u64_small [of "of_nat k"] by (simp add: unat_of_nat_u64)
  obtain b where b: "os_malloc os h ?L = Some b" using mem by blast
  have ls: "length (concat cs) = ?L" using assms(13) k1 F by simp
  have "nat (n_buckets (int ?L)) = length cs" using assms(14) by (simp flip: assms(14))
  then obtain h1 where h1: "server_wait_large_buffer_from os c (int ?L) (fit ?L b) (EvMalloc ?L True # h) = Some ((1, concat cs), h1)"
    using wait_buckets_feed [OF feed, of 0 "fit ?L b"] ls by (auto simp: server_wait_large_buffer_from_def)
  have okp: "psize (xpacket_ok sv) = 277" "length (raw (xpacket_ok sv)) = 4096" by (simp_all add: xpacket_defs packet_access)
  obtain r2 h2 where h2: "server_send_ok os sv c h1 = Some (r2, h2)"
    using send_to_socket_complete [OF pat, of "xpacket_ok sv" 277 h1] okp by (auto simp: server_send_ok_def)
  have mf: "memcpy_from (concat cs) 0 ?L = Some (frag_slice S n (k - 1) F)" using ls assms(13) by simp
  show ?thesis
    using h1 h2 mf b put_slice [OF assms(1-3) k F assms(7)] assms(8-11)
    by (simp add: take_delivery_def sys_malloc_def iL ik uL Let_def split_def del: memcpy_from_Some One_nat_def)
qed

definition req5 :: StateRequestedFile where
  "req5 = \<lparr>rq_name = [97, 0], rq_from_fd = 9, rq_file_id = 1, rq_file_size = 5, rq_fragment_count = 2,
     rq_fragment_found = Some 0, rq_deliver_to = Some 1, rq_buffer = Some (replicate 5 46)\<rparr>"

theorem delivery_placed_witness:
  "\<exists>h'. take_delivery (piecewise_os [[3, 4, 5]]) server0 req5 \<lparr>dtr_file_id = 1, dtr_frag_id = 2, dtr_frag_size = 3, dtr_file_size = 5\<rparr> 7 (replicate 5 46) [] =
     Some (replicate 2 46 @ [3, 4, 5], h')"
proof -
  let ?os = "piecewise_os [[3, 4, 5]]"
  have e: "eager ?os 7" by (simp add: eager_def piecewise_os_def open_os_def echo_os_def)
  have mem: "\<forall>h k. os_malloc ?os h k \<noteq> None" by (simp add: piecewise_os_def open_os_def echo_os_def slow_os_def)
  have L: "fragment_len 5 2 (Suc 0) = 3" "frag_slice 5 2 (Suc 0) [1, 2, 3, 4, 5] = [3, 4, 5]"
    by (simp_all add: fragment_len_def frag_slice_def peek_def)
  have feed: "feeds ?os 7 [[3, 4, 5]] (EvMalloc (fragment_len 5 2 (2 - 1)) True # [])" by (simp add: piecewise_os_def)
  have "\<exists>h'. take_delivery ?os server0 req5 \<lparr>dtr_file_id = 1, dtr_frag_id = 2, dtr_frag_size = 3, dtr_file_size = 5\<rparr> 7 (replicate 5 46) [] =
     Some (poke (5 div 2 * (2 - 1)) (frag_slice 5 2 (2 - 1) [1, 2, 3, 4, 5]) (replicate 5 46), h')"
    by (rule delivery_placed [OF _ _ _ _ _ _ _ _ _ _ _ feed _ _ mem eager_patient [OF e]])
      (simp_all add: req5_def L n_buckets_def)
  then show ?thesis by (simp add: L poke_def)
qed

text \<open>C15: A fragment the requesting node holds itself is used from its own store: it goes to the place
  of its number, whichever of the two slots it is kept in, just as if it had been delivered.\<close>

theorem local_copy_placed:
  assumes "0 < n" and "n \<le> 255" and "S < 2 ^ 31" and k: "1 \<le> k" "k \<le> n" and F: "length F = S" and "length buf = S"
    and inv: "fs_inv fs" and find: "xfileserver_find_file fs (u64_of_int (rq_file_id s)) = Some i"
    and "fc_size (containers fs ! i) = of_nat S" and "rq_fragment_count s = int n"
    and slot: "List.find (\<lambda>f. fragment_id f = of_nat k) (fragments (containers fs ! i)) =
       Some \<lparr>fragment_id = of_nat k, fragment_bytes = Some (frag_slice S n (k - 1) F), fragment_size = of_nat (fragment_len S n (k - 1))\<rparr>"
  shows "use_local_copy s fs (of_nat k) buf = Some (Some (poke (S div n * (k - 1)) (frag_slice S n (k - 1) F) buf))"
proof -
  let ?fc = "containers fs ! i" and ?L = "fragment_len S n (k - 1)"
  have at: "at (containers fs) (int i) = Some ?fc" using find_file_bound [OF inv find] by simp
  obtain f0 f1 where f01: "fragments ?fc = [f0, f1]"
    using container_at [OF inv at] by (auto simp: container_ok_def length_Suc_conv numeral_2_eq_2)
  have uk: "uint (of_nat k :: u8) = int k" using k assms(2) by (simp add: unsigned_of_nat take_bit_nat_eq_self)
  have same: "(ucast (fragment_id f) :: u64) = of_nat k \<longleftrightarrow> fragment_id f = of_nat k" for f
    using k assms(2) uint_lt2p [of "fragment_id f"]
    by (auto simp: word_uint_eq_iff unsigned_ucast_eq unsigned_of_nat take_bit_nat_eq_self take_bit_int_eq_self)
  have k1: "k - 1 < n" using k by linarith
  have "?L \<le> S" by (rule fragment_len_le [OF assms(1)])
  then have uL: "unat (of_nat ?L :: u64) = ?L" using assms(3) by (intro unat_of_nat_u64) simp
  have mf: "memcpy_from (frag_slice S n (k - 1) F) 0 ?L = Some (frag_slice S n (k - 1) F)" using k1 F by simp
  show ?thesis
    using find at f01 slot same [of f0] uk uL mf put_slice [OF assms(1-3) k F assms(7)] assms(10,11)
    by (cases "fragment_id f0 = of_nat k")
      (auto simp: use_local_copy_def at_def simp del: memcpy_from_Some One_nat_def at_int at_Some split: if_split_asm)
qed

theorem local_copy_placed_witness:
  "use_local_copy (req5\<lparr>rq_file_size := 4\<rparr>) one_file_store 2 (replicate 4 46) = Some (Some (replicate 2 46 @ [8, 9]))"
proof -
  have L: "fragment_len 4 2 (Suc 0) = 2" "frag_slice 4 2 (Suc 0) [6, 7, 8, 9] = [8, 9]"
    by (simp_all add: fragment_len_def frag_slice_def peek_def)
  have "use_local_copy (req5\<lparr>rq_file_size := 4\<rparr>) one_file_store (of_nat 2) (replicate 4 46) =
      Some (Some (poke (4 div 2 * (2 - 1)) (frag_slice 4 2 (2 - 1) [6, 7, 8, 9]) (replicate 4 46)))"
    by (rule local_copy_placed [where i = 0])
      (simp_all add: req5_def L one_file_store_def fs_inv_def container_ok_def zero_container_def zero_fragment_def containers_def
         xfileserver_find_file_def u64_of_int_def upt_rec)
  then show ?thesis by (simp add: L poke_def)
qed

text \<open>The index of a ring of \<open>n\<close> nodes knows that node \<open>x\<close>, and no other, has died.\<close>

definition one_dead :: "Server \<Rightarrow> xIndexData \<Rightarrow> nat \<Rightarrow> nat \<Rightarrow> bool" where
  "one_dead sv d n x \<longleftrightarrow> 3 \<le> n \<and> n \<le> 255 \<and> index_data sv = Some d \<and> net_size sv = of_nat (n - 1) \<and> death_count sv = 1 \<and>
     length (peer_ips d) = n \<and> me_node_id sv \<noteq> of_nat x \<and>
     (\<forall>i < n. me_node_id sv \<noteq> of_nat (i + 1) \<longrightarrow> (port (peer_ips d ! i) = 0 \<longleftrightarrow> i + 1 = x))"

lemma one_dead_valid:
  assumes "one_dead sv d n x" and "1 \<le> k" and "k \<le> n"
  shows "server_is_valid_node sv (of_nat k) = Some (k \<noteq> x)"
proof -
  have u: "unat (of_nat k :: u64) = k" using assms by (intro small_u64) (auto simp: one_dead_def)
  then have nz: "(of_nat k :: u64) \<noteq> 0" using assms(2) by auto
  obtain i where i: "k = i + 1" "i < n" using assms(2,3) by (intro that [of "k - 1"]) auto
  then have "me_node_id sv \<noteq> of_nat k \<longrightarrow> (port (peer_ips d ! i) = 0 \<longleftrightarrow> k = x)" "me_node_id sv \<noteq> of_nat x"
      "index_data sv = Some d" "length (peer_ips d) = n" "n \<le> 255"
    using assms(1) unfolding one_dead_def by auto
  note r = this
  have "server_is_valid_node sv (of_nat k) = Some (of_nat k = me_node_id sv \<or> port (peer_ips d ! (unat (of_nat k :: u64) - 1)) \<noteq> 0)"
    using u r nz assms(3) by (intro valid_node_iff) auto
  also have "unat (of_nat k :: u64) - 1 = i" using u i(1) by simp
  finally show ?thesis using r(1,2) by auto
qed

lemma choose_copy_one_dead:
  assumes dead: "one_dead sv d n x" and i: "i < n"
  shows "choose_copy sv (int n) (ring_table n sz) i = Some (ring_table n sz ! (if i + 1 = x then 2 * i + 1 else 2 * i))"
proof -
  have n: "3 \<le> n" "n \<le> 255" "net_size sv = of_nat (n - 1)" "death_count sv = 1" using dead by (auto simp: one_dead_def)
  have "unat (of_nat ((n - 1) * 2) :: u64) = (n - 1) * 2" by (rule unat_of_nat_u64) (use n(2) in simp)
  moreover have "unat (of_nat n :: u64) = n" using n(2) by simp
  moreover have "(n - 1) * 2 \<noteq> n" using n(1) by linarith
  ultimately have "(of_nat n :: u64) \<noteq> of_nat ((n - 1) * 2)" by metis
  then have ne: "(of_nat n :: u64) \<noteq> of_nat (n - 1) * 2" by (simp only: of_nat_mult of_nat_numeral not_False_eq_True)
  have len: "length (ring_table n sz) = 2 * n" by (simp add: ring_table_def)
  have v: "server_is_valid_node sv (np_node_id (ring_table n sz ! (2 * i))) = Some (i + 1 \<noteq> x)"
    using one_dead_valid [OF dead, of "i + 1"] ring_table_nth(1) [OF i, of sz] i by simp
  have "at (ring_table n sz) (int (i * 2)) = Some (ring_table n sz ! (2 * i))"
      "at (ring_table n sz) (int (i * 2) + 1) = Some (ring_table n sz ! (2 * i + 1))"
    using i len at_int [of "ring_table n sz" "i * 2"] at_int [of "ring_table n sz" "i * 2 + 1"] by (simp_all add: algebra_simps)
  with v ne n show ?thesis
    by (simp add: choose_copy_def del: at_int at_Some of_nat_mult of_nat_diff)
qed

lemma choose_all_map:
  "(\<forall>i \<in> set is. choose_copy sv c t i = Some (f i)) \<Longrightarrow> choose_all sv c t is = Some (map f is)"
  by (induction "is") auto



end
