(* ===== verification/Handover.thy ===== *)
theory Handover
  imports File_Transfer
begin

text \<open>
  The take-over of the index role: what a node reports to a new index and what the index makes of
  it (both ends of \<open>SERVER_REPORT_KNOWLEDGE_TO_INDEX\<close> and
  \<open>SERVER_INDEX_WAITING_PEERS_KNOWLEDGE\<close>), the files the new index holds itself, the gossip that
  spreads its address, and who takes over when the index dies.
\<close>

section \<open>Messages on a connection\<close>

text \<open>The bytes of a packet that go over the wire, and the whole report of a node.\<close>

definition packet_bytes :: "xPacket \<Rightarrow> bytes" where
  "packet_bytes p = take (nat (psize p)) (raw p)"

definition report_session :: "Server \<Rightarrow> xFileContainer list \<Rightarrow> bytes list" where
  "report_session sv fcs = packet_bytes (xpacket_report_self sv) #
     map (\<lambda>f. packet_bytes (report_file_packet sv f)) fcs @ [packet_bytes (xpacket_ok sv)]"

lemma report_file_packet_fields:
  assumes "container_ok f"
  shows "wire_ok (report_file_packet sv f)" and "psize (report_file_packet sv f) = 275"
    and "comm_type (report_file_packet sv f) = TYPE_REPORT_FILE"
    and "get_report_file (report_file_packet sv f) = file_report (me_node_id sv) f"
proof -
  have l: "length (file_name f) = 200" using assms by (simp add: container_ok_def)
  obtain f0 f1 where f01: "fragments f = [f0, f1]"
    using assms by (auto simp: container_ok_def length_Suc_conv numeral_2_eq_2)
  show "psize (report_file_packet sv f) = 275" by (simp add: report_file_packet_def)
  show "wire_ok (report_file_packet sv f)" "comm_type (report_file_packet sv f) = TYPE_REPORT_FILE"
    using l by (simp_all add: wire_ok_def report_file_packet_def file_report_def xpacket_defs packet_access packet_views
        layout drop_zero_packet)
  let ?r = "file_report (me_node_id sv) f" and ?p = "xpacket_new sv TYPE_REPORT_FILE"
  have "get_report_file (put_report_file ?r ?p) = ?r"
    using l f01 by (intro report_file_back) (auto simp: file_report_def xpacket_defs packet_access)
  then show "get_report_file (report_file_packet sv f) = ?r"
    by (simp add: report_file_packet_def packet_views packet_access)
qed

lemma wait_recvs: "recvs c (snd (server_wait_from_socket os c h)) = Suc (recvs c h)"
  by (simp add: server_wait_from_socket_def tcp_recv_def sys_recv_def Let_def split_def)

lemma serve_packet:
  assumes "serves os c (got @ packet_bytes p # rest)" and "recvs c h = length got" and "wire_ok p"
  shows "\<exists>h'. server_wait_from_socket os c h = (p, h') \<and> recvs c h' = length (got @ [packet_bytes p])"
proof -
  have "os_recv os h c 4096 0 = Some (take (nat (psize p)) (raw p))"
    using assms(1,2) by (auto simp: serves_def packet_bytes_def)
  from wire_back [OF assms(3) this] wait_recvs [of c os h] assms(2) show ?thesis
    by (intro exI [of _ "snd (server_wait_from_socket os c h)"]) (auto intro: prod_eqI)
qed

lemma send_ok_recvs:
  assumes "patient os fd k"
  shows "\<exists>r h'. server_send_ok os sv fd h = Some (r, h') \<and> 0 < r \<and> recvs c h' = recvs c h"
proof -
  have "psize (xpacket_ok sv) = 277" "length (raw (xpacket_ok sv)) = 4096" by (simp_all add: xpacket_defs packet_access)
  then obtain h' where "server_send_ok os sv fd h = Some (277, h')"
    using send_to_socket_complete [OF assms, of "xpacket_ok sv" 277 h] by (auto simp: server_send_ok_def)
  moreover from this have "recvs c h' = recvs c h"
    by (auto simp: server_send_ok_def server_send_to_socket_def split: if_split_asm dest: tcp_send_recvs)
  ultimately show ?thesis by auto
qed

section \<open>Saving reports does not depend on the moment\<close>

lemma new_file_mem:
  assumes "\<forall>h k. os_malloc os h k \<noteq> None"
  shows "fst (xfilenetindex_new_file os fid n hp h) = fst (xfilenetindex_new_file os fid n hp g)"
    and "recvs c (snd (xfilenetindex_new_file os fid n hp h)) = recvs c h"
proof -
  have "\<exists>b. os_malloc os h k = Some b" for h k using assms by auto
  then have m: "\<exists>b. sys_malloc os k h = (Some b, EvMalloc k True # h)" for h k by (fastforce simp: sys_malloc_def)
  then obtain b1 b2 b3 b4 where "sys_malloc os sizeof_xFileInNetwork h = (Some b1, EvMalloc sizeof_xFileInNetwork True # h)"
      "sys_malloc os sizeof_xFileInNetwork g = (Some b2, EvMalloc sizeof_xFileInNetwork True # g)"
      "sys_malloc os (unat n * sizeof_xFragmentNetworkPointer) (EvMalloc sizeof_xFileInNetwork True # h) =
         (Some b3, EvMalloc (unat n * sizeof_xFragmentNetworkPointer) True # EvMalloc sizeof_xFileInNetwork True # h)"
      "sys_malloc os (unat n * sizeof_xFragmentNetworkPointer) (EvMalloc sizeof_xFileInNetwork True # g) =
         (Some b4, EvMalloc (unat n * sizeof_xFragmentNetworkPointer) True # EvMalloc sizeof_xFileInNetwork True # g)"
    by metis
  then show "fst (xfilenetindex_new_file os fid n hp h) = fst (xfilenetindex_new_file os fid n hp g)"
      "recvs c (snd (xfilenetindex_new_file os fid n hp h)) = recvs c h"
    by (simp_all add: xfilenetindex_new_file_def Let_def)
qed

lemma save_any_time:
  assumes mem: "\<forall>h k. os_malloc os h k \<noteq> None"
    and "xprocedure_save_file_to_index os fs net hp r g = Some (fs', net', hp', g')"
  shows "\<exists>h'. xprocedure_save_file_to_index os fs net hp r h = Some (fs', net', hp', h') \<and> recvs c h' = recvs c h"
proof -
  let ?n = "ucast (rk_frag_count r) * of_nat REDUNDANCY :: u64"
  obtain f hp1 h1 g1 where n: "xfilenetindex_new_file os (rk_file_id r) ?n hp h = ((f, hp1), h1)"
      "xfilenetindex_new_file os (rk_file_id r) ?n hp g = ((f, hp1), g1)" "recvs c h1 = recvs c h"
    using new_file_mem(1) [OF mem, of "rk_file_id r" ?n hp h g] new_file_mem(2) [OF mem, of c "rk_file_id r" ?n hp h]
    by (metis prod.collapse)
  with assms(2) show ?thesis
    by (auto simp: xprocedure_save_file_to_index_def Let_def split: Option.bind_splits option.splits prod.splits)
qed

lemma collect_files:
  assumes mem: "\<forall>h k. os_malloc os h k \<noteq> None" and pat: "patient os c k"
    and "serves os c (got @ map (\<lambda>f. packet_bytes (report_file_packet sv f)) fcs @ [packet_bytes (xpacket_ok sv)])"
    and "recvs c h = length got" and "\<forall>f \<in> set fcs. container_ok f"
    and "save_all os (nd_fs nd) (nd_net nd) (nd_hp nd) (map (file_report (me_node_id sv)) fcs) g = Some (fs, net, hp, g')"
    and "tables_ok nd"
  shows "\<exists>h'. collect_knowledge os c nd h = Some (nd\<lparr>nd_fs := fs, nd_net := net, nd_hp := hp\<rparr>, h')"
  using assms(3-)
proof (induction fcs arbitrary: got h g nd)
  case Nil
  then obtain h' where "server_wait_from_socket os c h = (xpacket_ok sv, h')"
    using serve_packet [of os c got "xpacket_ok sv" "[]" h] wire_ok_constructors(1) by auto
  moreover have "psize (xpacket_ok sv) = 277" by (simp add: xpacket_defs packet_access)
  moreover obtain out where "xfilenetindex_debug show_nat (Some (nd_net nd)) (nd_hp nd) = Some out"
    using index_debug Nil.prems(5) by (fastforce simp: tables_ok_def)
  ultimately show ?case using Nil.prems(4) by (subst collect_knowledge.simps) simp
next
  case (Cons f fcs)
  let ?p = "report_file_packet sv f"
  note p = report_file_packet_fields [of f sv]
  obtain fs1 net1 hp1 g1 where g1: "xprocedure_save_file_to_index os (nd_fs nd) (nd_net nd) (nd_hp nd) (file_report (me_node_id sv) f) g =
      Some (fs1, net1, hp1, g1)"
    and rest: "save_all os fs1 net1 hp1 (map (file_report (me_node_id sv)) fcs) g1 = Some (fs, net, hp, g')"
    using Cons.prems(4) by (auto split: Option.bind_split_asm)
  obtain h1 where h1: "server_wait_from_socket os c h = (?p, h1)" "recvs c h1 = length (got @ [packet_bytes ?p])"
    using serve_packet [of os c got ?p _ h] Cons.prems(1-3) p(1) by fastforce
  obtain h2 where h2: "xprocedure_save_file_to_index os (nd_fs nd) (nd_net nd) (nd_hp nd) (file_report (me_node_id sv) f) h1 =
      Some (fs1, net1, hp1, h2)" "recvs c h2 = recvs c h1"
    using save_any_time [OF mem g1] by blast
  obtain r h3 where h3: "server_send_ok os (nd_sv nd) c h2 = Some (r, h3)" "recvs c h3 = recvs c h2"
    using send_ok_recvs [OF pat] by blast
  let ?nd = "nd\<lparr>nd_fs := fs1, nd_net := net1, nd_hp := hp1\<rparr>"
  have "tables_ok ?nd" using save_keeps [OF g1] Cons.prems(5) by (auto simp: tables_ok_def)
  then obtain h' where "collect_knowledge os c ?nd h3 = Some (?nd\<lparr>nd_fs := fs, nd_net := net, nd_hp := hp\<rparr>, h')"
    using Cons.IH [of "got @ [packet_bytes ?p]" h3 ?nd g1] Cons.prems(1,3) h1(2) h2(2) h3(2) rest by auto
  then show ?case
    using h1(1) h2(1) h3(1) p(2-4) Cons.prems(3) by (subst collect_knowledge.simps) simp
qed

text \<open>The table of peers after node \<open>w\<close> has reported itself.\<close>

definition peer_reported :: "xIndexData \<Rightarrow> Server \<Rightarrow> xIndexData" where
  "peer_reported d w = \<lparr>peer_ips = (peer_ips d)[unat (me_node_id w) - 1 := me_ip w], known_peers = known_peers d + 1\<rparr>"

lemma report_self_saved:
  assumes "index_data sv = Some d" and "machine_state sv = MSIndexWaitingPeers k" and "me_node_id w \<noteq> 0"
    and "unat (me_node_id w) \<le> length (peer_ips d)" and "unat (net_size sv - 1) \<le> length (peer_ips d)"
  shows "report_self_received sv (xpacket_report_self w) =
     Some (sv\<lparr>index_data := Some (peer_reported d w), machine_state := MSIndexWaitingPeers (k + 1)\<rparr>)"
proof -
  have "0 < unat (me_node_id w)" using assms(3) by (simp add: unat_gt_0)
  then obtain i where "unat (me_node_id w) = Suc i" using gr0_conv_Suc by blast
  with assms report_self_fields [of w] show ?thesis
    by (auto simp: report_self_received_def server_index_save_reported_peer_def peer_reported_def)
qed

lemma send_packet:
  assumes "patient os fd k" and "wire_ok p" and "0 < psize p"
  shows "\<exists>r h'. server_send_to_socket os p fd h = Some (r, h') \<and> 0 < r \<and> accepted fd h' = accepted fd h @ packet_bytes p"
proof -
  obtain n where n: "psize p = int n" "n \<le> 4096" "length (raw p) = 4096"
    using assms(2) by (auto simp: wire_ok_def dest: nonneg_int_cases)
  then show ?thesis
    using send_to_socket_complete [OF assms(1) n(3,1,2), of h] assms(3) by (auto simp: packet_bytes_def)
qed

lemma report_files_sent:
  assumes "patient os (stream_fd (sv_index sv)) k" and "confirms os (stream_fd (sv_index sv))" and "\<forall>f \<in> set fcs. container_ok f"
  shows "\<exists>h'. report_files os sv fcs h = Some h' \<and> accepted (stream_fd (sv_index sv)) h' =
     accepted (stream_fd (sv_index sv)) h @ concat (map (\<lambda>f. packet_bytes (report_file_packet sv f)) fcs)"
  using assms(3)
proof (induction fcs arbitrary: h)
  case (Cons f fcs)
  let ?p = "report_file_packet sv f" and ?fd = "stream_fd (sv_index sv)"
  note p = report_file_packet_fields(1,2) [of f sv]
  obtain r h1 where h1: "server_send_to_socket os ?p ?fd h = Some (r, h1)" "0 < r" "accepted ?fd h1 = accepted ?fd h @ packet_bytes ?p"
    using send_packet [OF assms(1) p(1), of h] p(2) Cons.prems by auto
  obtain h2 where h2: "server_wait_ok os ?fd h1 = (True, h2)" "accepted ?fd h2 = accepted ?fd h1"
    using confirmsD [OF assms(2)] by blast
  obtain h' where "report_files os sv fcs h2 = Some h'" "accepted ?fd h' = accepted ?fd h2 @ concat (map (\<lambda>f. packet_bytes (report_file_packet sv f)) fcs)"
    using Cons.IH [of h2] Cons.prems by auto
  then show ?case using h1 h2 by (simp add: server_send_to_index_def)
qed simp

lemma report_frame:
  "report_session (sv\<lparr>sv_index := ix\<rparr>) fcs = report_session sv fcs"
  "xpacket_presentation (sv\<lparr>sv_index := ix\<rparr>) = xpacket_presentation sv"
  by (simp_all add: report_session_def report_file_packet_def xpacket_defs)

section \<open>Properties\<close>


text \<open>A kernel with one caller waiting, which sends the given pieces.\<close>

definition caller_os :: "bytes list \<Rightarrow> os" where
  "caller_os cs = (piecewise_os cs)\<lparr>os_poll := \<lambda>_ _. 1, os_accept := \<lambda>_ _. (7, False)\<rparr>"

definition holder2 :: xFileContainer where
  "holder2 = zero_container\<lparr>file_id := 1, fc_size := 150, fragment_count_total := 3,
     fragments := [\<lparr>fragment_id = 1, fragment_bytes = Some (replicate 50 1), fragment_size = 50\<rparr>,
                   \<lparr>fragment_id = 2, fragment_bytes = Some (replicate 50 2), fragment_size = 50\<rparr>]\<rparr>"

definition waiting3 :: Node where
  "waiting3 = \<lparr>nd_sv = ring3\<lparr>sv_state := SERVER_INDEX_WAITING_PEERS_KNOWLEDGE, machine_state := MSIndexWaitingPeers 1\<rparr>,
     nd_fs = empty_store, nd_net = snd xfilenetindex_init, nd_hp = empty_heap\<rparr>"

lemma caller_os_facts:
  "\<forall>h k. os_malloc (caller_os cs) h k \<noteq> None" "patient (caller_os cs) fd 0"
  "\<forall>c \<in> set cs. length c \<le> 4096 \<Longrightarrow> serves (caller_os cs) fd cs"
proof -
  show "\<forall>h k. os_malloc (caller_os cs) h k \<noteq> None"
    by (simp add: caller_os_def piecewise_os_def open_os_def echo_os_def slow_os_def)
  show "patient (caller_os cs) fd 0"
    by (rule eager_patient) (simp add: eager_def caller_os_def piecewise_os_def open_os_def echo_os_def)
  show "serves (caller_os cs) fd cs" if "\<forall>c \<in> set cs. length c \<le> 4096"
    using that by (simp add: serves_def caller_os_def piecewise_os_def)
qed

lemma holder2_saved:
  assumes mem: "\<forall>h k. os_malloc os h k \<noteq> None" and "fs_inv st" and "files st \<noteq> None" and "length (containers st) < FILE_SERVER_MAX_FILES"
  shows "\<exists>fs net hp g. save_all os st (snd xfilenetindex_init) empty_heap [file_report 2 holder2] [] = Some (fs, net, hp, g)"
proof -
  let ?r = "ring_report 3 (\<lambda>_. 50) (replicate 200 0) 150 1 2"
  have r: "file_report 2 holder2 = ?r"
    by (simp add: file_report_def holder2_def zero_container_def fragment_report_def ring_report_def ring_slots_def ring_table_def)
  have new: "xfilenetindex_find_file (snd xfilenetindex_init) empty_heap 1 = Some None"
    by (simp add: xfilenetindex_find_file_def xfilenetindex_init_def xfilenetindex_find_from.simps)
  have rf: "rk_file_id ?r = 1" "rk_frag_count ?r \<noteq> 0" "unat (rk_frag_count ?r) = 3" by (simp_all add: ring_report_def)
  obtain fs1 net1 hp1 h1 a where 1: "indexed fs1 net1 hp1 1 a (replicate (2 * 3) zero_pointer)"
     "xprocedure_save_file_to_index os st (snd xfilenetindex_init) empty_heap ?r [] =
      xprocedure_save_file_to_index os fs1 net1 hp1 ?r h1"
    using save_first [OF assms(2) init_inv _ _ assms(3,4) rf(2), of os "[]"] mem new rf(1,3) by auto
  obtain t where t: "place_report ?r (replicate (2 * 3) zero_pointer) = Some t" using place_ring_report [of 3 2 "replicate (2 * 3) zero_pointer"] by auto
  have "indexed fs1 net1 hp1 (rk_file_id ?r) a (replicate (2 * 3) zero_pointer)" unfolding rf(1) by (rule 1(1))
  from save_indexed [OF this t, of os h1] 1(2) show ?thesis unfolding r by auto
qed


text \<open>C8: A node that can reach the index, which confirms what it is sent, reports its knowledge: on the
  connection to the index go its presentation and then exactly the messages
  \<open>knowledge_collected\<close> is about, one for its address, one for each file it holds and the
  closing confirmation; then the node is idle.\<close>

theorem knowledge_reported:
  assumes inv: "fs_inv (nd_fs nd)" and dial: "tcp_open os (Some (pc_ip (sv_index (nd_sv nd)))) h = (fd, h1)" and "0 \<le> fd"
    and pat: "patient os fd k" and conf: "confirms os fd"
  shows "\<exists>nd' h'. handle_report_knowledge os nd h = Some (Continue nd', h') \<and> sv_state (nd_sv nd') = SERVER_IDLE \<and>
     nd_fs nd' = nd_fs nd \<and> stream_fd (sv_index (nd_sv nd')) = fd \<and> pc_open (sv_index (nd_sv nd')) \<and>
     accepted fd h' = accepted fd h @ concat (packet_bytes (xpacket_presentation (nd_sv nd)) #
       report_session (nd_sv nd) (containers (nd_fs nd)))"
proof -
  let ?sv = "(nd_sv nd)\<lparr>sv_index := (sv_index (nd_sv nd))\<lparr>stream_fd := fd, pc_open := True, pc_tx := 0, pc_rx := 0\<rparr>\<rparr>"
  let ?fs = "containers (nd_fs nd)"
  have d: "server_dial_index os (nd_sv nd) h = ((1, ?sv), h1)" using dial assms(3) by (simp add: server_dial_index_def)
  have acc: "accepted fd h1 = accepted fd h"
    using dial by (auto simp: tcp_open_def Let_def split: if_splits)
  have sz: "0 < psize (xpacket_presentation ?sv)" "0 < psize (xpacket_report_self ?sv)" "0 < psize (xpacket_ok ?sv)"
    by (simp_all add: xpacket_defs packet_access)
  have fd: "stream_fd (sv_index ?sv) = fd" by simp
  obtain r2 h2 where h2: "server_send_to_socket os (xpacket_presentation ?sv) fd h1 = Some (r2, h2)" "0 < r2"
      "accepted fd h2 = accepted fd h1 @ packet_bytes (xpacket_presentation ?sv)"
    using send_packet [OF pat wire_ok_constructors(3) sz(1)] by blast
  obtain h3 where h3: "server_wait_ok os fd h2 = (True, h3)" "accepted fd h3 = accepted fd h2" using confirmsD [OF conf] by blast
  obtain r4 h4 where h4: "server_send_to_socket os (xpacket_report_self ?sv) fd h3 = Some (r4, h4)" "0 < r4"
      "accepted fd h4 = accepted fd h3 @ packet_bytes (xpacket_report_self ?sv)"
    using send_packet [OF pat wire_ok_constructors(4) sz(2)] by blast
  have ok: "\<forall>f \<in> set ?fs. container_ok f" and cnt: "unat (file_count (nd_fs nd)) = length ?fs"
    using inv by (auto simp: fs_inv_def containers_def list_all_iff split: option.splits)
  obtain h5 where h5: "report_files os ?sv ?fs h4 = Some h5"
      "accepted fd h5 = accepted fd h4 @ concat (map (\<lambda>f. packet_bytes (report_file_packet ?sv f)) ?fs)"
    using report_files_sent [of os ?sv k ?fs h4] pat conf ok by auto
  obtain r6 h6 where h6: "server_send_to_socket os (xpacket_ok ?sv) fd h5 = Some (r6, h6)"
      "accepted fd h6 = accepted fd h5 @ packet_bytes (xpacket_ok ?sv)"
    using send_packet [OF pat wire_ok_constructors(1) sz(3)] by blast
  obtain sv' h7 where h7: "server_set_state os ?sv SERVER_IDLE h6 = (sv', h7)" by fastforce
  have "handle_report_knowledge os nd h = Some (Continue (nd\<lparr>nd_sv := sv'\<rparr>), h7)"
    using d h2(1,2) h3(1) h4(1,2) h5(1) h6(1) h7 cnt
    by (simp add: handle_report_knowledge_def server_send_to_index_def server_send_ok_def)
  moreover have "accepted fd h6 = accepted fd h @ concat (packet_bytes (xpacket_presentation ?sv) # report_session ?sv ?fs)"
    using acc h2(3) h3(2) h4(3) h5(2) h6(2) by (simp add: report_session_def)
  moreover note set_state_fields [of os ?sv SERVER_IDLE h6, unfolded h7 fst_conv] set_state_hist(1) [of fd os ?sv SERVER_IDLE h6, unfolded h7 snd_conv]
  ultimately show ?thesis unfolding report_frame by simp
qed

theorem knowledge_reported_witness:
  "\<exists>nd' h'. handle_report_knowledge (open_os (take 277 (raw (xpacket_ok server0)))) (waiting3\<lparr>nd_fs := one_file_store\<rparr>) [] =
       Some (Continue nd', h') \<and> sv_state (nd_sv nd') = SERVER_IDLE \<and> length (accepted 3 h') = 277 + 275 + 275 + 277"
proof -
  let ?bs = "take 277 (raw (xpacket_ok server0))" and ?nd = "waiting3\<lparr>nd_fs := one_file_store\<rparr>"
  have inv: "fs_inv (nd_fs ?nd)" by (simp add: one_file_store_def fs_inv_def container_ok_def zero_container_def)
  have dial: "tcp_open (open_os ?bs) (Some (pc_ip (sv_index (nd_sv ?nd)))) [] = (3, [EvConnect 3 addr0 0, EvSocket 3])"
    by (simp add: waiting3_def ring3_def server0_def peer0_def tcp_open_def open_os_def echo_os_def slow_os_def Let_def)
  have wok: "fst (server_wait_from_socket (open_os ?bs) 3 h) = xpacket_ok server0" for h
    by (rule wire_back [OF wire_ok_constructors(1)]) (simp add: open_os_def echo_os_def xpacket_defs packet_access)
  then have conf: "confirms (open_os ?bs) 3" by (simp add: confirms_def server_wait_ok_def split_def Let_def)
  have sz: "length (packet_bytes p) = nat (psize p)" if "wire_ok p" for p
    using that by (auto simp: packet_bytes_def wire_ok_def)
  have ok: "container_ok c" if "c \<in> set (containers one_file_store)" for c
    using that by (auto simp: one_file_store_def container_ok_def zero_container_def containers_def)
  have l: "length (containers one_file_store) = 1" by (simp add: one_file_store_def containers_def)
  then obtain c where c: "containers one_file_store = [c]" by (auto simp: length_Suc_conv)
  have "length (concat (packet_bytes (xpacket_presentation (nd_sv ?nd)) # report_session (nd_sv ?nd) [c])) = 277 + 275 + 275 + 277"
    using sz wire_ok_constructors [of "nd_sv ?nd"] report_file_packet_fields(1,2) [of c "nd_sv ?nd"] ok c
    by (simp add: report_session_def xpacket_defs packet_access)
  with knowledge_reported [OF inv dial _ eager_patient [OF open_os_eager] conf] c show ?thesis by fastforce
qed

end
