(* ===== verification/Election.thy ===== *)
theory Election
  imports Handover
begin

text \<open>
  Who becomes the index. The decision in \<open>SERVER_BEGIN_OPERATION\<close> (with the files the new index
  holds itself), the gossip that carries the address of the index around the ring, what the death
  of the index leads to at its two neighbours, and when the collection of knowledge never ends.
\<close>

section \<open>The index's own files\<close>

lemma save_known_file:
  assumes "xfileserver_find_file fs (ucast (rk_file_id r)) = Some i"
    and "xprocedure_save_file_to_index os fs net hp r h = Some (fs', net', hp', h')"
  shows "fs' = fs"
  using assms by (auto simp: xprocedure_save_file_to_index_def Let_def split: Option.bind_split_asm option.split_asm prod.split_asm)

lemma own_file_found:
  assumes "fs_inv fs" and "i < length (containers fs)"
  shows "\<exists>j. xfileserver_find_file fs (ucast (file_id (containers fs ! i))) = Some j"
proof -
  have "(ucast (file_id (containers fs ! i)), i) \<in> set (fs_entries fs)"
    using assms(2) by (auto simp: fs_entries_def)
  then show ?thesis unfolding find_file_entries [OF assms(1)] by (metis weak_map_of_SomeI)
qed

lemma index_own_files_save_all:
  assumes "fs_inv fs" and "i \<le> length (containers fs)"
  shows "index_own_files os me i fs net hp h = save_all os fs net hp (map (file_report me) (drop i (containers fs))) h"
  using assms(2)
proof (induction "length (containers fs) - i" arbitrary: i net hp h)
  case (0 i)
  then have "length (containers fs) = i" by simp
  moreover have "unat (file_count fs) = length (containers fs)"
    using assms(1) by (auto simp: fs_inv_def containers_def split: option.splits)
  ultimately show ?case by (subst index_own_files.simps) simp
next
  case (Suc n i)
  then have i: "i < length (containers fs)" by simp
  have cnt: "unat (file_count fs) = length (containers fs)"
    using assms(1) by (auto simp: fs_inv_def containers_def split: option.splits)
  obtain j where j: "xfileserver_find_file fs (ucast (file_id (containers fs ! i))) = Some j"
    using own_file_found [OF assms(1) i] ..
  have d: "drop i (containers fs) = containers fs ! i # drop (Suc i) (containers fs)"
    using i by (rule Cons_nth_drop_Suc [symmetric])
  have IH: "index_own_files os me (Suc i) fs net' hp' h' =
      save_all os fs net' hp' (map (file_report me) (drop (Suc i) (containers fs))) h'" for net' hp' h'
    using Suc.hyps i by (intro Suc.hyps(1)) auto
  show ?case
  proof (cases "xprocedure_save_file_to_index os fs net hp (file_report me (containers fs ! i)) h")
    case None
    then show ?thesis using i cnt d by (subst index_own_files.simps) simp
  next
    case (Some r)
    obtain fs' net' hp' h' where r: "r = (fs', net', hp', h')" by (cases r)
    have "rk_file_id (file_report me (containers fs ! i)) = file_id (containers fs ! i)" by (simp add: file_report_def)
    then have "fs' = fs" using j Some r by (intro save_known_file [of fs "file_report me (containers fs ! i)" j]) simp_all
    with Some show ?thesis using i cnt d IH by (subst index_own_files.simps) (simp add: r)
  qed
qed

lemma save_all_any_time:
  assumes "\<forall>h k. os_malloc os h k \<noteq> None"
    and "save_all os fs net hp rs g = Some (fs', net', hp', g')"
  shows "\<exists>h'. save_all os fs net hp rs h = Some (fs', net', hp', h')"
  using assms(2)
proof (induction rs arbitrary: fs net hp g h)
  case (Cons r rs)
  then obtain fs1 net1 hp1 g1 where 1: "xprocedure_save_file_to_index os fs net hp r g = Some (fs1, net1, hp1, g1)"
      "save_all os fs1 net1 hp1 rs g1 = Some (fs', net', hp', g')"
    by (auto split: Option.bind_split_asm)
  obtain h1 where "xprocedure_save_file_to_index os fs net hp r h = Some (fs1, net1, hp1, h1)"
    using save_any_time [OF assms(1) 1(1)] by blast
  with Cons.IH [OF 1(2)] show ?case by simp
qed simp

lemma save_all_own:
  "fs_inv fs \<Longrightarrow> \<forall>r \<in> set rs. \<exists>i. xfileserver_find_file fs (ucast (rk_file_id r)) = Some i \<Longrightarrow>
   save_all os fs net hp rs h = Some (fs', net', hp', h') \<Longrightarrow> fs' = fs"
proof (induction rs arbitrary: net hp h)
  case (Cons r rs)
  then obtain fs1 net1 hp1 h1 where 1: "xprocedure_save_file_to_index os fs net hp r h = Some (fs1, net1, hp1, h1)"
      "save_all os fs1 net1 hp1 rs h1 = Some (fs', net', hp', h')"
    by (auto split: Option.bind_split_asm)
  obtain i where "xfileserver_find_file fs (ucast (rk_file_id r)) = Some i" using Cons.prems(2) by auto
  with 1 have "fs1 = fs" by (intro save_known_file)
  with 1(2) Cons show ?case by auto
qed simp

section \<open>The decision\<close>

lemma begin_operation:
  assumes inv: "fs_inv (nd_fs nd)" and mem: "\<forall>h k. os_malloc os h k \<noteq> None"
    and save: "save_all os (nd_fs nd) (nd_net nd) (nd_hp nd) (map (file_report (me_node_id (nd_sv nd))) (containers (nd_fs nd))) [] =
      Some (fs, net, hp, g)"
  shows "\<exists>nd' h'. handle_begin_operation os nd h = Some (Continue nd', h') \<and>
     nd_fs nd' = nd_fs nd \<and> me_node_id (nd_sv nd') = me_node_id (nd_sv nd) \<and> net_size (nd_sv nd') = net_size (nd_sv nd) \<and>
     (if net_size (nd_sv nd) = me_node_id (nd_sv nd)
      then sv_state (nd_sv nd') = SERVER_INDEX_PRESENT_ITSELF \<and> index_data (nd_sv nd') \<noteq> None \<and> nd_net nd' = net \<and> nd_hp nd' = hp
      else sv_state (nd_sv nd') = SERVER_WAIT_INDEX_GOSSIP \<and> nd_net nd' = nd_net nd \<and> nd_hp nd' = nd_hp nd)"
proof (cases "net_size (nd_sv nd) = me_node_id (nd_sv nd)")
  case False
  then show ?thesis by (simp add: handle_begin_operation_def split_def Let_def)
next
  case True
  obtain d h1 where d: "fresh_index_data os (nd_sv nd) h = Some (d, h1)"
  proof -
    obtain b where "os_malloc os h 16 = Some b" using mem by blast
    then show thesis using that by (auto simp: fresh_index_data_def sys_malloc_def split_def Let_def)
  qed
  let ?rs = "map (file_report (me_node_id (nd_sv nd))) (containers (nd_fs nd))"
  obtain h2 where s: "save_all os (nd_fs nd) (nd_net nd) (nd_hp nd) ?rs h1 = Some (fs, net, hp, h2)"
    using save_all_any_time [OF mem save] by blast
  have "\<forall>r \<in> set ?rs. \<exists>i. xfileserver_find_file (nd_fs nd) (ucast (rk_file_id r)) = Some i"
    using own_file_found [OF inv] by (auto simp: file_report_def in_set_conv_nth)
  from save_all_own [OF inv this s] have fs: "fs = nd_fs nd" .
  have cnt: "unat (file_count (nd_fs nd)) = length (containers (nd_fs nd))"
    using inv by (auto simp: fs_inv_def containers_def split: option.splits)
  have "(if 0 < file_count (nd_fs nd)
         then index_own_files os (me_node_id (nd_sv nd)) 0 (nd_fs nd) (nd_net nd) (nd_hp nd) h1
         else Some (nd_fs nd, nd_net nd, nd_hp nd, h1)) = Some (nd_fs nd, net, hp, h2)"
  proof (cases "0 < file_count (nd_fs nd)")
    case True
    then show ?thesis using index_own_files_save_all [OF inv, of 0] s fs by simp
  next
    case False
    then have "containers (nd_fs nd) = []" using cnt by (simp add: word_less_nat_alt)
    with s False show ?thesis by simp
  qed
  then show ?thesis using True d
    by (cases "0 < file_count (nd_fs nd)") (simp_all add: handle_begin_operation_def split_def Let_def)
qed

section \<open>The gossip\<close>

text \<open>The presentation of the index \<open>w\<close> after the nodes \<open>ids\<close> have passed it on, each under its own id.\<close>

definition relayed :: "u64 list \<Rightarrow> Server \<Rightarrow> xPacket" where
  "relayed ids w = fold (\<lambda>i p. set_u64 0 i p) ids (index_presentation w)"

lemma relayed_snoc: "set_u64 0 i (relayed ids w) = relayed (ids @ [i]) w"
  by (simp add: relayed_def)

lemma relayed_fields:
  "length (raw (relayed ids w)) = 4096 \<and> psize (relayed ids w) = 24 \<and>
   drop 24 (raw (relayed ids w)) = replicate (4096 - 24) 0 \<and>
   ipp_index_id (get_index_presentation (relayed ids w)) = me_node_id w \<and>
   ipp_index_addr (get_index_presentation (relayed ids w)) = me_ip w"
proof (induction ids rule: rev_induct)
  case Nil
  show ?case
    by (simp add: relayed_def index_presentation_def packet_access packet_views layout drop_zero_packet)
next
  case (snoc i ids)
  then show ?case unfolding relayed_snoc [symmetric] by (simp add: packet_access packet_views layout)
qed

lemma relayed_wire: "wire_ok (relayed ids w)"
  using relayed_fields [of ids w] by (simp add: wire_ok_def)

lemma wait_from_peer_b: "server_wait_from_peer_b os sv h = server_wait_from_socket os (stream_fd (peer_b sv)) h"
  by (simp add: server_wait_from_peer_b_def server_wait_from_socket_def split_def Let_def)

section \<open>Collections that end\<close>

text \<open>If the collection returns, then not every receive from some moment on was an end of file.\<close>

lemma collect_needs_data:
  assumes "collect_knowledge os c nd g = Some r"
  shows "\<exists>h'. recvs c g \<le> recvs c h' \<and> os_recv os h' c 4096 0 \<noteq> Some []"
proof (rule collect_knowledge.raw_induct
    [where P = "\<lambda>os c nd g r. \<exists>h'. recvs c g \<le> recvs c h' \<and> os_recv os h' c 4096 0 \<noteq> Some []", OF _ assms])
  fix collect os c nd g r
  let ?P = "\<lambda>os c g. \<exists>h'. recvs c g \<le> recvs c h' \<and> os_recv os h' c 4096 0 \<noteq> Some []"
  assume IH: "\<And>os c nd g r. collect os c nd g = Some r \<Longrightarrow> ?P os c g"
    and ret: "(case server_wait_from_socket os c g of (p, h) \<Rightarrow>
        if psize p < 0 then Some (nd, h)
        else if comm_type p = TYPE_REPORT_SELF then do {
          sv \<leftarrow> report_self_received (nd_sv nd) p;
          collect os c (nd\<lparr>nd_sv := sv\<rparr>) h }
        else if comm_type p = TYPE_REPORT_FILE then do {
          (fs, net, hp, h) \<leftarrow>
            xprocedure_save_file_to_index os (nd_fs nd) (nd_net nd) (nd_hp nd) (get_report_file p) h;
          (_, h) \<leftarrow> server_send_ok os (nd_sv nd) c h;
          collect os c (nd\<lparr>nd_fs := fs, nd_net := net, nd_hp := hp\<rparr>) h }
        else if comm_type p = TYPE_OK then do {
          _ \<leftarrow> xfilenetindex_debug show_nat (Some (nd_net nd)) (nd_hp nd);
          Some (nd, h) }
        else collect os c nd h) = Some r"
  show "?P os c g"
  proof (rule ccontr)
    assume "\<not> ?P os c g"
    then have e: "\<forall>h'. recvs c g \<le> recvs c h' \<longrightarrow> os_recv os h' c 4096 0 = Some []" by blast
    then have "server_wait_from_socket os c g = (zero_packet, EvRecv c 4096 0 (Some []) # g)"
      by (simp add: server_wait_from_socket_def tcp_recv_def sys_recv_def recv_result_def zero_packet_def Let_def fit_def)
    with ret have "collect os c nd (EvRecv c 4096 0 (Some []) # g) = Some r"
      by (simp add: packet_access)
    from IH [OF this] e show False by auto
  qed
qed

lemma peek_first_piece:
  "off + k \<le> n \<Longrightarrow> n \<le> length m \<Longrightarrow> n \<le> N \<Longrightarrow> peek off k (fit N (take n m @ x)) = peek off k m"
proof -
  assume a: "off + k \<le> n" "n \<le> length m" "n \<le> N"
  have ap: "peek off k (u @ v) = peek off k u" if "off + k \<le> length u" for u v :: bytes
    using that by (simp add: peek_def)
  have "fit N (take n m @ x) = take n m @ take (N - n) x @ replicate (N - length (take n m @ x)) 0"
    using a by (simp add: fit_def min_absorb1 min_absorb2)
  then show "peek off k (fit N (take n m @ x)) = peek off k m"
    using ap [of "take n m"] a by (simp add: peek_take min_absorb2)
qed

section \<open>Properties\<close>

text \<open>C25: \<open>SERVER_BEGIN_OPERATION\<close> decides who is the index: exactly the node whose id is the size of the
  network. It builds the index data, enters every file it holds itself as if the file had been
  reported (its file store is unchanged), and goes on to present itself; every other node waits
  for the gossip and changes nothing else.\<close>

theorem begin_operation_decides:
  assumes inv: "fs_inv (nd_fs nd)" and mem: "\<forall>h k. os_malloc os h k \<noteq> None"
    and save: "save_all os (nd_fs nd) (nd_net nd) (nd_hp nd) (map (file_report (me_node_id (nd_sv nd))) (containers (nd_fs nd))) [] =
      Some (fs, net, hp, g)"
  shows "\<exists>nd' h'. handle_begin_operation os nd h = Some (Continue nd', h') \<and>
     nd_fs nd' = nd_fs nd \<and> me_node_id (nd_sv nd') = me_node_id (nd_sv nd) \<and> net_size (nd_sv nd') = net_size (nd_sv nd) \<and>
     (if net_size (nd_sv nd) = me_node_id (nd_sv nd)
      then sv_state (nd_sv nd') = SERVER_INDEX_PRESENT_ITSELF \<and> index_data (nd_sv nd') \<noteq> None \<and> nd_net nd' = net \<and> nd_hp nd' = hp
      else sv_state (nd_sv nd') = SERVER_WAIT_INDEX_GOSSIP \<and> nd_net nd' = nd_net nd \<and> nd_hp nd' = nd_hp nd)"
  by (rule begin_operation [OF assms])

definition store2 :: xFileServer where
  "store2 = \<lparr>file_count = 1, files = Some [holder2]\<rparr>"

definition heir2 :: Node where
  "heir2 = \<lparr>nd_sv = server0\<lparr>me_node_id := 2, net_size := 2\<rparr>, nd_fs = store2, nd_net = snd xfilenetindex_init,
     nd_hp = empty_heap\<rparr>"

lemma store2_inv: "fs_inv store2" "containers store2 = [holder2]"
  by (simp_all add: store2_def fs_inv_def containers_def container_ok_def holder2_def zero_container_def)

theorem begin_operation_decides_witness:
  "\<exists>nd' h'. handle_begin_operation slow_os heir2 [] = Some (Continue nd', h') \<and>
     sv_state (nd_sv nd') = SERVER_INDEX_PRESENT_ITSELF \<and> nd_fs nd' = store2"
proof -
  have mem: "\<forall>h k. os_malloc slow_os h k \<noteq> None" by (simp add: slow_os_def)
  obtain fs net hp g where "save_all slow_os store2 (snd xfilenetindex_init) empty_heap [file_report 2 holder2] [] = Some (fs, net, hp, g)"
    using holder2_saved [OF mem store2_inv(1)] store2_inv(2) by (auto simp: store2_def)
  with begin_operation_decides [OF _ mem, of heir2 fs net hp g "[]"] store2_inv show ?thesis by (auto simp: heir2_def)
qed

text \<open>C28: The gossip works: however many nodes have passed the index's presentation on, a node that receives
  it learns the id and the address of the index and passes it on once more with its own id,
  unless its forward neighbour is the index; then it reports its knowledge.\<close>

theorem gossip_passed_on:
  assumes rx: "os_recv os h (stream_fd (peer_b (nd_sv nd))) 4096 0 = Some (packet_bytes (relayed ids w))"
    and pat: "patient os (stream_fd (peer_f (nd_sv nd))) k"
  shows "\<exists>nd' h'. handle_wait_index_gossip os nd h = Some (Continue nd', h') \<and>
     sv_state (nd_sv nd') = SERVER_REPORT_KNOWLEDGE_TO_INDEX \<and>
     pc_node_id (sv_index (nd_sv nd')) = me_node_id w \<and> pc_ip (sv_index (nd_sv nd')) = me_ip w \<and>
     accepted (stream_fd (peer_f (nd_sv nd))) h' = accepted (stream_fd (peer_f (nd_sv nd))) h @
       (if me_node_id w = pc_node_id (peer_f (nd_sv nd)) then [] else packet_bytes (relayed (ids @ [me_node_id (nd_sv nd)]) w))"
proof -
  let ?sv = "nd_sv nd" and ?p = "relayed ids w" and ?f = "stream_fd (peer_f (nd_sv nd))"
  define h1 where "h1 = snd (server_wait_from_socket os (stream_fd (peer_b ?sv)) h)"
  have "fst (server_wait_from_socket os (stream_fd (peer_b ?sv)) h) = ?p"
    by (rule wire_back [OF relayed_wire rx [unfolded packet_bytes_def]])
  then have w: "server_wait_from_peer_b os ?sv h = (?p, h1)" by (simp add: wait_from_peer_b h1_def prod_eq_iff)
  have acc: "accepted ?f h1 = accepted ?f h" by (simp add: h1_def)
  note p = relayed_fields [of ids w] relayed_fields [of "ids @ [me_node_id ?sv]" w]
  obtain r h2 where "server_send_to_socket os (relayed (ids @ [me_node_id ?sv]) w) ?f h1 = Some (r, h2)" "0 < r"
      "accepted ?f h2 = accepted ?f h1 @ packet_bytes (relayed (ids @ [me_node_id ?sv]) w)"
    using send_packet [OF pat relayed_wire, of "ids @ [me_node_id ?sv]" w h1] p by auto
  then show ?thesis
    using w p acc by (simp add: handle_wait_index_gossip_def server_send_to_peer_f_def relayed_snoc Let_def split_def)
qed

theorem gossip_passed_on_witness:
  "\<exists>nd' h'. handle_wait_index_gossip (echo_os (packet_bytes (relayed [1] (server0\<lparr>me_node_id := 2\<rparr>)))) waiting3 [] = Some (Continue nd', h') \<and>
     pc_node_id (sv_index (nd_sv nd')) = 2 \<and> pc_ip (sv_index (nd_sv nd')) = addr0"
  using gossip_passed_on [of "echo_os (packet_bytes (relayed [1] (server0\<lparr>me_node_id := 2\<rparr>)))" "[]" waiting3 "[1]" "server0\<lparr>me_node_id := 2\<rparr>" 0]
    eager_patient [OF echo_os_eager [of "packet_bytes (relayed [1] (server0\<lparr>me_node_id := 2\<rparr>))"]]
  by (auto simp: server0_def echo_os_def)

text \<open>C29: The collection of knowledge depends on how TCP cuts the stream up. A node without files sends its
  address and the closing confirmation without waiting in between; when both arrive in one
  piece the index takes the piece for the first message, and when the node then goes away the
  loop in \<open>SERVER_INDEX_WAITING_PEERS_KNOWLEDGE\<close> never ends: reading the end of the stream is not
  an error to it.\<close>

theorem coalesced_report_never_ends:
  assumes "os_recv os h c 4096 0 = Some (packet_bytes (xpacket_report_self w) @ packet_bytes (xpacket_ok w))"
    and eof: "\<forall>h'. recvs c h < recvs c h' \<longrightarrow> os_recv os h' c 4096 0 = Some []"
  shows "collect_knowledge os c nd h = None"
proof -
  let ?bs = "packet_bytes (xpacket_report_self w) @ packet_bytes (xpacket_ok w)"
  have l: "length ?bs \<le> 4096" "0 < length ?bs" by (simp_all add: packet_bytes_def xpacket_defs packet_access)
  let ?h = "EvRecv c 4096 0 (Some ?bs) # h" and ?p = "\<lparr>raw = fit 4096 ?bs, psize = int (length ?bs)\<rparr>"
  have wt: "server_wait_from_socket os c h = (?p, ?h)" by (rule wait_from_socket_feed [OF assms(1) l(1)])
  have "comm_type ?p = comm_type (xpacket_report_self w)"
    by (simp add: comm_type_def get_u8_def fld_def packet_bytes_def peek_first_piece xpacket_defs packet_access)
  then have ty: "comm_type ?p = TYPE_REPORT_SELF" by simp
  show ?thesis
  proof (rule ccontr)
    assume "collect_knowledge os c nd h \<noteq> None"
    then obtain sv where "collect_knowledge os c (nd\<lparr>nd_sv := sv\<rparr>) ?h \<noteq> None"
      using wt ty by (subst (asm) collect_knowledge.simps) (auto split: Option.bind_splits)
    then obtain r where "collect_knowledge os c (nd\<lparr>nd_sv := sv\<rparr>) ?h = Some r" by blast
    from collect_needs_data [OF this] eof show False by auto
  qed
qed

definition one_piece_os :: "bytes \<Rightarrow> os" where
  "one_piece_os bs = (open_os [])\<lparr>os_recv := \<lambda>h fd n fl. if recvs fd h = 0 then Some bs else Some []\<rparr>"

theorem coalesced_report_never_ends_witness:
  "collect_knowledge (one_piece_os (packet_bytes (xpacket_report_self server0) @ packet_bytes (xpacket_ok server0))) 7 waiting3 [] = None"
  by (rule coalesced_report_never_ends [where w = server0]) (simp_all add: one_piece_os_def)





end
