(* ===== verification/Progress.thy ===== *)
theory Progress
  imports Node_Machine
begin

text \<open>
  The ring comes up: a node whose neighbours may start late keeps dialling and accepting, one attempt
  of each kind per round of the main loop, until both sides are connected. How long the
  kernel turns it away is bounded by the number of attempts, which the history counts.
\<close>

section \<open>Runs of the main loop\<close>

fun rounds :: "os \<Rightarrow> (hist \<Rightarrow> u64) \<Rightarrow> nat \<Rightarrow> Node \<Rightarrow> hist \<Rightarrow> (Node \<times> hist) option" where
  "rounds os junk 0 nd h = Some (nd, h)"
| "rounds os junk (Suc k) nd h =
     (case main_round os junk nd h of
        Some (Continue nd', h') \<Rightarrow> rounds os junk k nd' h'
      | _ \<Rightarrow> None)"

text \<open>Attempts so far, and a kernel that gives in after \<open>K\<close> of each kind.\<close>

fun dials :: "hist \<Rightarrow> nat" where
  "dials [] = 0"
| "dials (EvConnect fd a r # h) = Suc (dials h)"
| "dials (_ # h) = dials h"

fun polls :: "hist \<Rightarrow> nat" where
  "polls [] = 0"
| "polls (EvPoll fd r # h) = Suc (polls h)"
| "polls (_ # h) = polls h"

definition gives_in :: "os \<Rightarrow> nat \<Rightarrow> bool" where
  "gives_in os K \<longleftrightarrow> (\<forall>h. 0 \<le> os_socket os h) \<and> (\<forall>h fd a. K \<le> dials h \<longrightarrow> 0 \<le> os_connect os h fd a) \<and>
     (\<forall>h fd. K \<le> polls h \<longrightarrow> 0 < os_poll os h fd) \<and> (\<forall>h fd. 0 < fst (os_accept os h fd))"

text \<open>How many attempts may still fail.\<close>

definition to_wait :: "nat \<Rightarrow> Server \<Rightarrow> hist \<Rightarrow> nat" where
  "to_wait K sv h = (if pc_open (peer_f sv) then 0 else Suc K - dials h) + (if pc_open (peer_b sv) then 0 else Suc K - polls h)"

section \<open>Lemmas\<close>

lemma gives_inD:
  assumes "gives_in os K"
  shows "\<not> os_socket os h < 0" and "K \<le> dials h \<Longrightarrow> \<not> os_connect os h fd a < 0"
    and "K \<le> polls h \<Longrightarrow> 0 < os_poll os h fd" and "0 < fst (os_accept os h fd)"
  using assms by (auto simp: gives_in_def not_less)

lemma accept_progress:
  assumes "gives_in os K" and "0 \<le> listener_fd sv" and "server_accept os sv h = (c, h')"
  shows "dials h' = dials h" and "polls h' = Suc (polls h)" and "K \<le> polls h \<Longrightarrow> 0 < c"
proof -
  note g = gives_inD(3) [OF assms(1), of h "listener_fd sv"]
    gives_inD(4) [OF assms(1), of "EvPoll (listener_fd sv) (os_poll os h (listener_fd sv)) # h" "listener_fd sv"]
  show "dials h' = dials h" "polls h' = Suc (polls h)" "K \<le> polls h \<Longrightarrow> 0 < c"
    using assms(2,3) g
    by (auto simp: server_accept_def tcp_try_accept_def Let_def split_def split: if_split_asm)
qed

lemma dial_progress:
  assumes "gives_in os K" and "server_dial_peer os sv h = ((r, sv'), h')"
  shows "polls h' = polls h" and "dials h' = Suc (dials h)" and "K \<le> dials h \<Longrightarrow> r = 1"
    and "r = 0 \<and> sv' = sv \<or> r = 1 \<and> pc_open (peer_f sv') \<and> peer_b sv' = peer_b sv \<and> sv_state sv' = sv_state sv \<and>
      listener_fd sv' = listener_fd sv"
proof -
  let ?s = "os_socket os h"
  note g = gives_inD(1) [OF assms(1), of h] gives_inD(2) [OF assms(1), of "EvSocket ?s # h" ?s "pc_ip (peer_f sv)"]
  show "polls h' = polls h" "dials h' = Suc (dials h)" "K \<le> dials h \<Longrightarrow> r = 1"
     "r = 0 \<and> sv' = sv \<or> r = 1 \<and> pc_open (peer_f sv') \<and> peer_b sv' = peer_b sv \<and> sv_state sv' = sv_state sv \<and>
      listener_fd sv' = listener_fd sv"
    using assms(2) g
    by (auto simp: server_dial_peer_def tcp_open_def tcp_close_def Let_def split_def split: if_split_asm)
qed

text \<open>One round of \<open>SERVER_CONNECTING\<close> either has both neighbours or has used up an attempt.\<close>

lemma connecting_round:
  assumes g: "gives_in os K" and st: "sv_state (nd_sv nd) = SERVER_CONNECTING" and l: "0 \<le> listener_fd (nd_sv nd)"
  shows "\<exists>nd' h'. main_round os junk nd h = Some (Continue nd', h') \<and>
     (sv_state (nd_sv nd') = SERVER_BEGIN_OPERATION \<and> pc_open (peer_f (nd_sv nd')) \<and> pc_open (peer_b (nd_sv nd')) \<or>
      sv_state (nd_sv nd') = SERVER_CONNECTING \<and> 0 \<le> listener_fd (nd_sv nd') \<and>
      to_wait K (nd_sv nd') h' < to_wait K (nd_sv nd) h)"
proof -
  let ?sv = "nd_sv nd"
  obtain sv1 h1 where 1: "(if server_is_peerb_connected ?sv then (?sv, h)
      else let (client, h) = server_accept os ?sv h in
        if 0 < client then (?sv\<lparr>peer_b := (peer_b ?sv)\<lparr>pc_open := True, stream_fd := client\<rparr>\<rparr>, h) else (?sv, h)) = (sv1, h1)"
    by fastforce
  have a: "sv_state sv1 = SERVER_CONNECTING" "listener_fd sv1 = listener_fd ?sv" "peer_f sv1 = peer_f ?sv" "dials h1 = dials h"
      "pc_open (peer_b sv1) \<or> \<not> pc_open (peer_b ?sv) \<and> polls h1 = Suc (polls h) \<and> polls h < K"
      "pc_open (peer_b ?sv) \<longrightarrow> pc_open (peer_b sv1)"
  proof -
    obtain c g where c: "server_accept os ?sv h = (c, g)" by fastforce
    note p = accept_progress [OF assms(1) l c]
    show "sv_state sv1 = SERVER_CONNECTING" "listener_fd sv1 = listener_fd ?sv" "peer_f sv1 = peer_f ?sv" "dials h1 = dials h"
      "pc_open (peer_b sv1) \<or> \<not> pc_open (peer_b ?sv) \<and> polls h1 = Suc (polls h) \<and> polls h < K"
      "pc_open (peer_b ?sv) \<longrightarrow> pc_open (peer_b sv1)"
      using 1 c p st by (auto simp: server_is_peerb_connected_def not_le [symmetric] split: if_split_asm)
  qed
  obtain r sv2 h2 where 2: "(if server_is_peerf_connected sv1 then ((1, sv1), h1) else server_dial_peer os sv1 h1) = ((r, sv2), h2)"
    by (metis prod.exhaust)
  have b: "sv_state sv2 = SERVER_CONNECTING" "listener_fd sv2 = listener_fd ?sv" "peer_b sv2 = peer_b sv1" "polls h2 = polls h1"
      "r = 1 \<and> pc_open (peer_f sv2) \<or> r = 0 \<and> sv2 = sv1 \<and> \<not> pc_open (peer_f ?sv) \<and> dials h2 = Suc (dials h) \<and> dials h < K"
  proof -
    obtain r' sv' g where d: "server_dial_peer os sv1 h1 = ((r', sv'), g)" by (metis prod.exhaust)
    note p = dial_progress [OF assms(1) d]
    show "sv_state sv2 = SERVER_CONNECTING" "listener_fd sv2 = listener_fd ?sv" "peer_b sv2 = peer_b sv1" "polls h2 = polls h1"
      "r = 1 \<and> pc_open (peer_f sv2) \<or> r = 0 \<and> sv2 = sv1 \<and> \<not> pc_open (peer_f ?sv) \<and> dials h2 = Suc (dials h) \<and> dials h < K"
      using 2 d p a by (auto simp: server_is_peerf_connected_def not_le [symmetric] split: if_split_asm)
  qed
  define con where "con = (r \<noteq> 0 \<and> pc_open (peer_f sv2) \<and> pc_open (peer_b sv2))"
  define res where "res = (if con then server_set_state os sv2 SERVER_BEGIN_OPERATION h2 else (sv2, h2))"
  have run: "main_round os junk nd h = Some (Continue (nd\<lparr>nd_sv := fst res\<rparr>), usleep 1000 (snd res))"
    using st 1 2 b(5)
    by (auto simp: main_round_def main_switch_def handle_connecting_def res_def con_def server_is_peerf_connected_def
        server_is_peerb_connected_def Let_def split_def)
  have us: "to_wait K sv (usleep 1000 x) = to_wait K sv x" for sv x by (simp add: to_wait_def usleep_def)
  show ?thesis
  proof (cases con)
    case True
    then show ?thesis using run by (simp add: res_def con_def)
  next
    case False
    define F where "F sv h = (if pc_open (peer_f sv) then 0 else Suc K - dials h)" for sv :: Server and h
    define B where "B sv h = (if pc_open (peer_b sv) then 0 else Suc K - polls h)" for sv :: Server and h
    have w: "to_wait K sv h = F sv h + B sv h" for sv h by (simp add: to_wait_def F_def B_def)
    have "F sv2 h2 \<le> F ?sv h \<and> (r = 0 \<longrightarrow> F sv2 h2 < F ?sv h)" using b(5) by (auto simp: F_def)
    moreover have "B sv2 h2 \<le> B ?sv h \<and> (\<not> pc_open (peer_b sv2) \<longrightarrow> B sv2 h2 < B ?sv h)" using a(5,6) b(3,4) by (auto simp: B_def)
    moreover have "r = 0 \<or> \<not> pc_open (peer_b sv2)" using \<open>\<not> con\<close> b(5) by (auto simp: con_def)
    ultimately have "to_wait K sv2 h2 < to_wait K ?sv h" unfolding w by linarith
    with False run b l show ?thesis by (simp add: res_def us)
  qed
qed

lemma joins_in:
  assumes g: "gives_in os K"
  shows "sv_state (nd_sv nd) = SERVER_CONNECTING \<Longrightarrow> 0 \<le> listener_fd (nd_sv nd) \<Longrightarrow> to_wait K (nd_sv nd) h \<le> m \<Longrightarrow>
    \<exists>k nd' h'. k \<le> Suc m \<and> rounds os junk k nd h = Some (nd', h') \<and> sv_state (nd_sv nd') = SERVER_BEGIN_OPERATION \<and>
      pc_open (peer_f (nd_sv nd')) \<and> pc_open (peer_b (nd_sv nd'))"
proof (induction m arbitrary: nd h)
  case (0 nd h)
  then obtain nd' h' where "main_round os junk nd h = Some (Continue nd', h')" "sv_state (nd_sv nd') = SERVER_BEGIN_OPERATION"
      "pc_open (peer_f (nd_sv nd'))" "pc_open (peer_b (nd_sv nd'))"
    using connecting_round [OF g, of nd junk h] by auto
  then show ?case by (intro exI [of _ 1]) simp
next
  case (Suc m nd h)
  obtain nd1 h1 where r: "main_round os junk nd h = Some (Continue nd1, h1)"
    and c: "sv_state (nd_sv nd1) = SERVER_BEGIN_OPERATION \<and> pc_open (peer_f (nd_sv nd1)) \<and> pc_open (peer_b (nd_sv nd1)) \<or>
      sv_state (nd_sv nd1) = SERVER_CONNECTING \<and> 0 \<le> listener_fd (nd_sv nd1) \<and> to_wait K (nd_sv nd1) h1 < to_wait K (nd_sv nd) h"
    using connecting_round [OF g Suc.prems(1,2), of junk h] by blast
  from c show ?case
  proof
    assume "sv_state (nd_sv nd1) = SERVER_BEGIN_OPERATION \<and> pc_open (peer_f (nd_sv nd1)) \<and> pc_open (peer_b (nd_sv nd1))"
    with r show ?thesis by (intro exI [of _ 1]) simp
  next
    assume c: "sv_state (nd_sv nd1) = SERVER_CONNECTING \<and> 0 \<le> listener_fd (nd_sv nd1) \<and> to_wait K (nd_sv nd1) h1 < to_wait K (nd_sv nd) h"
    then have "to_wait K (nd_sv nd1) h1 \<le> m" using Suc.prems(3) by simp
    then obtain k nd' h' where "k \<le> Suc m" "rounds os junk k nd1 h1 = Some (nd', h')" "sv_state (nd_sv nd') = SERVER_BEGIN_OPERATION"
        "pc_open (peer_f (nd_sv nd'))" "pc_open (peer_b (nd_sv nd'))"
      using Suc.IH [of nd1 h1] c by auto
    with r show ?thesis by (intro exI [of _ "Suc k"]) simp
  qed
qed

section \<open>Properties\<close>

text \<open>C2: A node joins the ring. When the kernel lets it listen and turns down at most \<open>K\<close> dials and \<open>K\<close>
  polls before it gives in, the node is connected on both sides and begins to operate within
  \<open>2 * K + 4\<close> rounds of the main loop, whichever of its neighbours starts first.\<close>

theorem node_joins_ring:
  assumes st: "sv_state (nd_sv nd) = SERVER_BOOTING" and op: "tcp_listen os (uint (port (me_ip (nd_sv nd)))) h = (fd, h1)" "0 \<le> fd"
    and g: "gives_in os K"
  shows "\<exists>k nd' h'. k \<le> 2 * K + 4 \<and> rounds os junk k nd h = Some (nd', h') \<and> sv_state (nd_sv nd') = SERVER_BEGIN_OPERATION \<and>
     pc_open (peer_f (nd_sv nd')) \<and> pc_open (peer_b (nd_sv nd'))"
proof -
  obtain sv h2 where s: "server_set_state os ((nd_sv nd)\<lparr>listener_fd := fd\<rparr>) SERVER_CONNECTING h1 = (sv, h2)" by fastforce
  let ?nd = "nd\<lparr>nd_sv := sv\<rparr>"
  have r: "main_round os junk nd h = Some (Continue ?nd, usleep 1000 h2)"
    using st op s by (simp add: main_round_def main_switch_def handle_booting_def server_open_def)
  note f = set_state_fields [of os "(nd_sv nd)\<lparr>listener_fd := fd\<rparr>" SERVER_CONNECTING h1, unfolded s fst_conv]
  have "sv_state (nd_sv ?nd) = SERVER_CONNECTING" "0 \<le> listener_fd (nd_sv ?nd)" using f op(2) by simp_all
  moreover have "(if P then 0 else Suc K - x) \<le> Suc K" for P x by simp
  then have "to_wait K (nd_sv ?nd) (usleep 1000 h2) \<le> Suc K + Suc K" unfolding to_wait_def by (intro add_mono)
  then have "to_wait K (nd_sv ?nd) (usleep 1000 h2) \<le> 2 * K + 2" by simp
  ultimately obtain k nd' h' where "k \<le> Suc (2 * K + 2)" "rounds os junk k ?nd (usleep 1000 h2) = Some (nd', h')"
      "sv_state (nd_sv nd') = SERVER_BEGIN_OPERATION" "pc_open (peer_f (nd_sv nd'))" "pc_open (peer_b (nd_sv nd'))"
    using joins_in [OF g, of ?nd "usleep 1000 h2" "2 * K + 2" junk] by blast
  with r show ?thesis by (intro exI [of _ "Suc k"]) simp
qed

text \<open>A kernel that refuses the first two dials and polls.\<close>

definition reluctant_os :: os where
  "reluctant_os = slow_os\<lparr>os_socket := \<lambda>_. 5, os_poll := \<lambda>h _. if 2 \<le> polls h then 1 else 0, os_accept := \<lambda>_ _. (7, False),
     os_connect := \<lambda>h _ _. if 2 \<le> dials h then 0 else - 1\<rparr>"

theorem node_joins_ring_witness:
  "\<exists>k nd' h'. k \<le> 8 \<and> rounds reluctant_os (\<lambda>_. 0) k
       \<lparr>nd_sv = server0\<lparr>sv_state := SERVER_BOOTING\<rparr>, nd_fs = empty_store, nd_net = snd xfilenetindex_init, nd_hp = empty_heap\<rparr> [] =
     Some (nd', h') \<and> sv_state (nd_sv nd') = SERVER_BEGIN_OPERATION"
proof -
  let ?nd = "\<lparr>nd_sv = server0\<lparr>sv_state := SERVER_BOOTING\<rparr>, nd_fs = empty_store, nd_net = snd xfilenetindex_init, nd_hp = empty_heap\<rparr>"
  have g: "gives_in reluctant_os 2" by (simp add: gives_in_def reluctant_os_def)
  obtain h1 where "tcp_listen reluctant_os (uint (port (me_ip (nd_sv ?nd)))) [] = (5, h1)"
    by (simp add: tcp_listen_def reluctant_os_def slow_os_def Let_def)
  from node_joins_ring [OF _ this _ g, of "\<lambda>_. 0"] show ?thesis by auto
qed

end
