(* ===== verification/Spec2Isabelle.thy ===== *)
theory Spec2Isabelle
  imports Election Progress
begin

text \<open>
  A distributed file store: the C node program of this repository, function by function.

  \<^bold>\<open>The program.\<close> Every node runs the same program (\<open>src/main.c\<close>). The nodes form a ring: each dials
  its forward neighbour and accepts its backward one. The node with the highest id is the index: it
  presents itself around the ring, collects the addresses of the others and what they hold, splits
  every new file into one fragment per node, and sends each fragment to two nodes. A node that is
  asked for a file lets the index tell the holders to send it their fragments and puts them together.
  A node that finds its backward neighbour gone announces it around the ring; the ring closes, the
  index forgets the node, and when the index itself died the node with the highest remaining id
  takes over and rebuilds the index from the reports of the others.

  \<^bold>\<open>Theories and sources.\<close> In order of import:
  \<^item> \<open>DSS_Prelude\<close>: byte buffers (\<open>memcpy\<close>, \<open>peek\<close>, \<open>poke\<close>, little endian numbers), C conversions,
    checked indexing, the loop combinator \<open>iterate\<close>.
  \<^item> \<open>Net_Types\<close> (\<open>lib/nettypes.c\<close>), \<open>Cmd_Args\<close> (\<open>lib/args.c\<close>), \<open>Tcp_Lib\<close> (\<open>lib/tcplib.c\<close>).
  \<^item> \<open>Directory\<close>: the locale of an append-only table with lookup by key; \<open>File_Store\<close>
    (\<open>lib/fileserver/fs.c\<close>, an array) and \<open>File_Index\<close> (\<open>lib/fileserver/fni.c\<close>, a linked list on an
    explicit heap) interpret it on their own operations.
  \<^item> \<open>Packet_Layout\<close> (\<open>lib/server/server.h\<close>): the packet unions as views of 4096 bytes.
  \<^item> \<open>Server_Core\<close> (\<open>lib/server/server.c\<close>, \<open>lib/server/clock.c\<close>): the record \<open>Server\<close>, the machine's
    state and its union, connections, packets, transfers of large buffers.
  \<^item> \<open>Procedures\<close> (\<open>lib/machine/procedures.c\<close>), \<open>Diagnostics\<close> (the printers of all files).
  \<^item> \<open>Node_Ring\<close>, \<open>Node_Files\<close> (\<open>main.c\<close>): one definition \<open>handle_...\<close> per case of the \<open>switch\<close>;
    loops and nested cases that are long in the source have definitions of their own.
  \<^item> \<open>Node_Machine\<close> (\<open>main.c\<close>): start-up, the \<open>switch\<close> and the main loop as a step relation.
  \<^item> \<open>Progress\<close>, \<open>Fragmentation\<close>, \<open>File_Transfer\<close>, \<open>Handover\<close>, \<open>Election\<close>: properties that span
    several components.

  \<^bold>\<open>The environment.\<close> Everything outside \<open>src/\<close> that the node talks to is the parameter \<open>os\<close>: the answers
  of the kernel and, behind it, of all other processes, each a function of the history of calls so
  far. A definition that calls the kernel takes the history and returns it extended; there is no other
  assumption on \<open>os\<close> than those a theorem names (\<open>patient\<close>: the kernel refuses bytes only for the
  moment and finitely often; \<open>serves\<close> and \<open>feeds\<close>: a peer delivers given pieces; \<open>confirms\<close>: a peer
  confirms; \<open>gives_in\<close>: connecting succeeds after a bounded number of attempts). The junk parameter of
  \<open>main_switch\<close> is what \<open>xprocedure_wait_identification\<close> reads off the stack.

  \<^bold>\<open>Results.\<close> \<open>None\<close> is undefined behaviour (an access outside an object, a NULL dereference, a division
  by zero, an offset that overflows an \<open>int\<close>) or a loop that never ends; loops that may not end are
  \<open>partial_function (option)\<close> or \<open>iterate\<close>, so that returning is \<open>Some\<close> and is proved. C values keep
  their width (\<open>u8\<close> to \<open>u64\<close>); an \<open>int\<close> that the code computes with is an integer that the model cuts
  or checks where the code could leave the range. No fuel is used.

  \<^bold>\<open>What the lemmas show.\<close>
  \<^item> Safety of the machine: in every reachable state the tables are well formed and the union member a
    handler reads is the one written last (\<open>Node_Machine\<close>, by one contract, the locale \<open>handler\<close>,
    that each of the handlers fulfils).
  \<^item> Joining: a node joins the ring within a bounded number of rounds (\<open>Progress\<close>).
  \<^item> Files: a new file is spread over the ring; copies go to the first live nodes; the fan-out sends
    exactly the slices; received data and fragments are stored and found again; the pieces put
    together in any order give the file; one death leaves every fragment reachable
    (\<open>Fragmentation\<close>, \<open>File_Transfer\<close>, \<open>Procedures\<close>).
  \<^item> The index: a death is relayed and the ring closed, the predecessor of a dead index takes over,
    enters its own files, its address reaches every node, each node's report is sent and
    received message by message, and the reports of all nodes restore the lost table exactly
    (\<open>Procedures\<close>, \<open>Election\<close>, \<open>Handover\<close>).
  \<^item> Components: round trips of addresses and packets, the array and the linked list against
    one table, complete and prefix transfers over TCP, no leaked sockets, the command line.
  \<^item> Faults, as theorems: two nodes taken off for one death and the second index it makes in a
    ring of three, the endless collection of a report that TCP joined, the endless print of a file
    in 255 fragments, the message count of large buffers, the full array, malformed addresses.

  \<^bold>\<open>Bounds.\<close> Rings have 2 (3 for the rebuilt table) to 255 nodes, since the fragment count of a container is
  one byte, and to 254 where a handler prints it; files stay below \<open>2 ^ 31\<close> bytes, since the
  code keeps sizes and offsets in \<open>int\<close>.

  \<^bold>\<open>Not modelled.\<close> The output of single \<open>printf\<close> calls in the handlers and of \<open>perror\<close> (the printers proper are
  in \<open>Diagnostics\<close>); blocks compiled out by \<open>DEBUG\<close> and \<open>LOG_BUFFERS\<close>; the NULL checks on
  pointers that every caller takes of a variable; a \<open>recv\<close> that blocks for ever (it is a call of \<open>os\<close>
  without an answer, so no theorem speaks about it); the Go client and the scripts, which to a
  node are part of the environment.
\<close>

end
